(* ===== verification/Prelude.thy ===== *)
theory Prelude
  imports Main "HOL-Library.Word"
begin

text \<open>
  What every component of the model shares: raw bytes, the little-endian integer codec of
  Python (\<open>int.from_bytes\<close>, \<open>int.to_bytes\<close>), \<open>bytes.find\<close>, and the exceptions that the
  modelled code raises or catches, with the part of Python's class hierarchy that the code tests.
  A fallible operation returns \<open>exn + 'a\<close> with \<open>Inl\<close> for a raised exception.
\<close>

unbundle bit_operations_syntax

named_theorems codec_simps \<open>integer codec: lengths, bounds and round trips\<close>
named_theorems exn_simps \<open>class tests on exceptions\<close>

type_synonym byte = "8 word"
type_synonym bytes = "8 word list"

section \<open>Exceptions\<close>

text \<open>
  The exceptions the code names. \<open>OSError\<close> carries errno and message text; \<open>ExceptionGroup\<close>
  is what an \<open>anyio\<close> task group raises for the exceptions of its tasks; \<open>OtherException\<close> is any
  other subclass of \<open>Exception\<close>, with its \<open>repr\<close>. \<open>Cancelled\<close> is \<open>anyio\<close>'s cancellation exception, which
  is no \<open>Exception\<close>: it passes every \<open>except Exception\<close>.
\<close>

datatype exn =
    TimeoutError
  | AssertionError
  | OverflowError
  | ValueError string
  | RuntimeError string
  | LocalProtocolError string
  | NotSupportedError string
  | ExcessDataError
  | InvalidCommandError
  | SimulatedPacketLossError
  | SimulatedPacketDelayError
  | RecursionError
  | OSError "int option" string
  | EndOfStream
  | ClosedResourceError
  | BrokenResourceError
  | StructError
  | MAVError string
  | ExceptionGroup "exn list"
  | OtherException string
  | Cancelled

type_synonym 'a result = "exn + 'a"

text \<open>\<open>isinstance(e, RuntimeError)\<close> and \<open>isinstance(e, OSError)\<close>; Python's \<open>TimeoutError\<close> is an
  \<open>OSError\<close>, and \<open>RecursionError\<close> a \<open>RuntimeError\<close>.\<close>

fun is_RuntimeError :: "exn \<Rightarrow> bool" where
  "is_RuntimeError (RuntimeError _) = True"
| "is_RuntimeError (LocalProtocolError _) = True"
| "is_RuntimeError (NotSupportedError _) = True"
| "is_RuntimeError ExcessDataError = True"
| "is_RuntimeError InvalidCommandError = True"
| "is_RuntimeError SimulatedPacketLossError = True"
| "is_RuntimeError SimulatedPacketDelayError = True"
| "is_RuntimeError RecursionError = True"
| "is_RuntimeError _ = False"

fun is_OSError :: "exn \<Rightarrow> bool" where
  "is_OSError (OSError _ _) = True"
| "is_OSError TimeoutError = True"
| "is_OSError _ = False"

declare is_RuntimeError.simps [exn_simps] is_OSError.simps [exn_simps]

section \<open>Little-endian integers\<close>

text \<open>\<open>int.from_bytes(bs, byteorder="little")\<close>: unsigned, any length.\<close>

fun from_bytes_le :: "bytes \<Rightarrow> int" where
  "from_bytes_le [] = 0"
| "from_bytes_le (b # bs) = uint b + 256 * from_bytes_le bs"

text \<open>The \<open>n\<close> least significant base-256 digits of an integer.\<close>

fun le_digits :: "nat \<Rightarrow> int \<Rightarrow> bytes" where
  "le_digits 0 v = []"
| "le_digits (Suc n) v = word_of_int v # le_digits n (v div 256)"

text \<open>\<open>v.to_bytes(n, byteorder="little", signed=False)\<close>: raises when \<open>v\<close> does not fit.\<close>

definition to_bytes_le :: "nat \<Rightarrow> int \<Rightarrow> bytes result" where
  "to_bytes_le n v = (if 0 \<le> v \<and> v < 256 ^ n then Inr (le_digits n v) else Inl OverflowError)"

lemma length_le_digits [simp, codec_simps]: "length (le_digits n v) = n"
  by (induction n arbitrary: v) auto

lemma uint_byte_bounds: "0 \<le> uint (b :: byte)" "uint (b :: byte) < 256"
  using uint_lt2p [of b] by simp_all

lemma from_bytes_le_nonneg [simp, codec_simps]: "0 \<le> from_bytes_le bs"
  by (induction bs) (auto simp: uint_byte_bounds)

lemma from_bytes_le_less: "from_bytes_le bs < 256 ^ length bs"
proof (induction bs)
  case (Cons b bs)
  then have "from_bytes_le bs \<le> 256 ^ length bs - 1" by simp
  moreover have "uint b \<le> 255" using uint_byte_bounds(2) [of b] by simp
  ultimately show ?case by simp
qed simp

lemma uint_word_of_int_byte: "uint (word_of_int v :: byte) = v mod 256"
  by (simp add: uint_word_of_int)

lemma from_bytes_le_digits [codec_simps]: "from_bytes_le (le_digits n v) = v mod 256 ^ n"
proof (induction n arbitrary: v)
  case (Suc n)
  have "v mod 256 + 256 * (v div 256 mod 256 ^ n) = v mod (256 * 256 ^ n)"
    by (simp add: zmod_zmult2_eq)
  then show ?case by (simp add: Suc uint_word_of_int_byte)
qed simp

lemma le_digits_from_bytes [codec_simps]: "le_digits (length bs) (from_bytes_le bs) = bs"
proof (induction bs)
  case (Cons b bs)
  have "(uint b + 256 * from_bytes_le bs) div 256 = from_bytes_le bs"
    using uint_byte_bounds [of b] by simp
  moreover have "word_of_int (uint b + 256 * from_bytes_le bs) = b"
    by (metis mod_mult_self2 uint_byte_bounds mod_pos_pos_trivial uint_word_of_int_byte word_uint_eqI)
  ultimately show ?case using Cons by simp
qed simp

lemma to_bytes_le_ok: "0 \<le> v \<Longrightarrow> v < 256 ^ n \<Longrightarrow> to_bytes_le n v = Inr (le_digits n v)"
  by (simp add: to_bytes_le_def)

lemma to_bytes_le_roundtrip:
  "to_bytes_le n v = Inr bs \<Longrightarrow> from_bytes_le bs = v \<and> length bs = n"
  by (auto simp: to_bytes_le_def codec_simps split: if_splits)

section \<open>Searching bytes\<close>

text \<open>\<open>buf.find(x)\<close> for a single byte: the first index, or -1.\<close>

fun bytes_find :: "byte \<Rightarrow> bytes \<Rightarrow> int" where
  "bytes_find x [] = -1"
| "bytes_find x (b # bs) =
     (if b = x then 0 else (let i = bytes_find x bs in if i < 0 then -1 else i + 1))"

lemma bytes_find_neg_iff: "bytes_find x bs < 0 \<longleftrightarrow> x \<notin> set bs"
  by (induction bs) (auto simp: Let_def)

lemma bytes_find_ge: "-1 \<le> bytes_find x bs"
  by (induction bs) (auto simp: Let_def)

lemma bytes_find_prefix: "x \<notin> set pre \<Longrightarrow> bytes_find x (pre @ x # bs) = int (length pre)"
  by (induction pre) (auto simp: Let_def)

lemma bytes_find_pos:
  "0 < bytes_find x bs \<Longrightarrow> \<exists>pre suf. bs = pre @ x # suf \<and> x \<notin> set pre \<and>
     pre \<noteq> [] \<and> bytes_find x bs = int (length pre)"
proof -
  assume pos: "0 < bytes_find x bs"
  then have "x \<in> set bs" using bytes_find_neg_iff [of x bs] by linarith
  then obtain pre suf where bs: "bs = pre @ x # suf" "x \<notin> set pre"
    by (meson split_list_first)
  then have "bytes_find x bs = int (length pre)" by (simp add: bytes_find_prefix)
  with pos bs show ?thesis by force
qed

lemma bytes_find_zero: "bytes_find x bs = 0 \<longleftrightarrow> (\<exists>suf. bs = x # suf)"
  by (cases bs) (auto simp: Let_def)

end
