(* ===== verification/Checksum.thy ===== *)
theory Checksum
  imports Prelude
begin

text \<open>
  The interface of a byte-wise checksum, shared by the CRC-32 of \<open>utils.py\<close> and the X.25 CRC of
  \<open>mavlink.py\<close>: a state that is updated one byte at a time. From three laws about a single
  update (it keeps the state in range and is injective in the state and in the byte) the
  clients get what a checksum is for: it runs incrementally and notices every single-byte change.
\<close>

locale byte_checksum =
  fixes step :: "'s \<Rightarrow> byte \<Rightarrow> 's"
    and valid :: "'s \<Rightarrow> bool"
  assumes step_valid: "valid s \<Longrightarrow> valid (step s b)"
    and step_inj_state: "valid s \<Longrightarrow> valid s' \<Longrightarrow> step s b = step s' b \<Longrightarrow> s = s'"
    and step_inj_byte: "valid s \<Longrightarrow> step s b = step s b' \<Longrightarrow> b = b'"
begin

lemma fold_valid: "valid s \<Longrightarrow> valid (foldl step s bs)"
  by (induction bs arbitrary: s) (auto intro: step_valid)

lemma fold_inj_state:
  "valid s \<Longrightarrow> valid s' \<Longrightarrow> foldl step s bs = foldl step s' bs \<Longrightarrow> s = s'"
proof (induction bs arbitrary: s s')
  case (Cons b bs)
  then have "step s b = step s' b" by (auto intro: step_valid)
  with Cons.prems show ?case by (blast intro: step_inj_state)
qed simp

lemma fold_append: "foldl step s (xs @ ys) = foldl step (foldl step s xs) ys"
  by simp

lemma single_byte_change:
  assumes "valid s" and "foldl step s (xs @ b # ys) = foldl step s (xs @ b' # ys)"
  shows "b = b'"
proof -
  let ?t = "foldl step s xs"
  have t: "valid ?t" using assms(1) by (rule fold_valid)
  have "foldl step (step ?t b) ys = foldl step (step ?t b') ys" using assms(2) by simp
  with t have "step ?t b = step ?t b'" by (blast intro: step_valid fold_inj_state)
  with t show ?thesis by (rule step_inj_byte)
qed

end

section \<open>Reflected CRC registers\<close>

text \<open>
  The bitwise definition that both checksums are compared with: one step of a shift register that
  shifts right and applies the reflected polynomial when a one falls out. It is linear, agrees with
  a plain shift while the low bits are zero (which is why a table of one byte is enough) and, when
  the polynomial has its top bit set, loses nothing.
\<close>

definition lfsr :: "'a :: len word \<Rightarrow> 'a word \<Rightarrow> 'a word" where
  "lfsr poly x = (if bit x 0 then drop_bit 1 x XOR poly else drop_bit 1 x)"

lemma lfsr_xor: "lfsr poly (x XOR y) = lfsr poly x XOR lfsr poly y"
  by (auto simp: lfsr_def bit_xor_iff xor.assoc xor.left_commute xor.commute drop_bit_xor)

lemma lfsrs_xor: "(lfsr poly ^^ n) (x XOR y) = (lfsr poly ^^ n) x XOR (lfsr poly ^^ n) y"
  by (induction n) (auto simp: lfsr_xor)

lemma lfsr_even: "\<not> bit x 0 \<Longrightarrow> lfsr poly x = drop_bit 1 x"
  by (simp add: lfsr_def)

lemma lfsrs_low_zero: "(\<And>i. i < n \<Longrightarrow> \<not> bit x i) \<Longrightarrow> (lfsr poly ^^ n) x = drop_bit n x"
proof (induction n)
  case (Suc n)
  then have "(lfsr poly ^^ n) x = drop_bit n x" by simp
  moreover have "\<not> bit (drop_bit n x) 0" using Suc.prems [of n] by (simp add: bit_drop_bit_eq)
  ultimately show ?case by (simp add: lfsr_even)
qed simp

lemma lfsr_byte_table: "(lfsr poly ^^ 8) x = (lfsr poly ^^ 8) (x AND mask 8) XOR drop_bit 8 x"
proof -
  have "(lfsr poly ^^ 8) (x AND NOT (mask 8)) = drop_bit 8 (x AND NOT (mask 8))"
    by (rule lfsrs_low_zero) (auto simp: bit_simps)
  also have "\<dots> = drop_bit 8 x" by (rule bit_eqI) (auto simp: bit_simps dest: bit_imp_le_length)
  finally have hi: "(lfsr poly ^^ 8) (x AND NOT (mask 8)) = drop_bit 8 x" .
  have split: "(x AND mask 8) XOR (x AND NOT (mask 8)) = x" by (rule bit_eqI) (auto simp: bit_simps)
  have "(lfsr poly ^^ 8) ((x AND mask 8) XOR (x AND NOT (mask 8))) =
      (lfsr poly ^^ 8) (x AND mask 8) XOR (lfsr poly ^^ 8) (x AND NOT (mask 8))"
    by (rule lfsrs_xor)
  then show ?thesis by (simp only: hi split)
qed

lemma lfsr_eq_0:
  fixes z :: "'a :: len word"
  assumes top: "bit poly (LENGTH('a) - 1)" and z: "lfsr poly z = 0"
  shows "z = 0"
proof (rule bit_eqI)
  have low: "\<not> bit z 0"
  proof
    assume "bit z 0"
    then have "bit (lfsr poly z) (LENGTH('a) - 1)"
      using top by (auto simp: lfsr_def bit_simps dest: bit_imp_le_length)
    with z show False by simp
  qed
  then have "drop_bit 1 z = 0" using z by (simp add: lfsr_def)
  then have "bit (drop_bit 1 z) n = bit 0 n" for n by simp
  then have "\<not> bit z (Suc n)" for n by (simp add: bit_drop_bit_eq)
  with low show "bit z n = bit 0 n" for n by (cases n) auto
qed

lemma xor_word_eq_0_iff: "x XOR y = 0 \<longleftrightarrow> x = (y :: 'a :: len word)"
  by (metis xor.assoc xor.left_neutral xor.right_neutral xor_self_eq)

lemma xor_left_cancel: "a XOR b = a XOR c \<longleftrightarrow> b = (c :: 'a :: len word)"
  by (metis xor.assoc xor.left_neutral xor_self_eq)

lemma xor_right_cancel: "b XOR a = c XOR a \<longleftrightarrow> b = (c :: 'a :: len word)"
  by (metis xor.commute xor_left_cancel)

lemma lfsrs_inj:
  fixes x :: "'a :: len word"
  assumes "bit poly (LENGTH('a) - 1)"
  shows "(lfsr poly ^^ n) x = (lfsr poly ^^ n) y \<longleftrightarrow> x = y"
proof
  assume "(lfsr poly ^^ n) x = (lfsr poly ^^ n) y"
  then have "(lfsr poly ^^ n) (x XOR y) = 0" by (simp add: lfsrs_xor)
  then have "x XOR y = 0" by (induction n) (auto dest: lfsr_eq_0 [OF assms])
  then show "x = y" by (simp add: xor_word_eq_0_iff)
qed simp

text \<open>The register on integers, to evaluate table entries; \<open>n\<close> steps of it.\<close>

fun lfsr_int :: "int \<Rightarrow> nat \<Rightarrow> int \<Rightarrow> int" where
  "lfsr_int poly 0 x = x"
| "lfsr_int poly (Suc n) x = lfsr_int poly n (if odd x then (x div 2) XOR poly else x div 2)"

lemma uint_lfsr: "uint (lfsr poly x) = lfsr_int (uint poly) 1 (uint x)"
proof -
  have "odd (uint x) = bit x 0" by (simp flip: bit_0 add: bit_uint_iff)
  moreover have "uint (drop_bit 1 x) = uint x div 2"
    using uint_lt2p [of x]
    by (simp only: unsigned_drop_bit_eq take_bit_int_eq_self_iff [THEN iffD2] uint_ge_0 conj_absorb)
       (simp add: drop_bit_eq_div)
  ultimately show ?thesis by (simp add: lfsr_def unsigned_xor_eq)
qed

lemma uint_lfsrs: "uint ((lfsr poly ^^ n) x) = lfsr_int (uint poly) n (uint x)"
proof (induction n arbitrary: x)
  case (Suc n)
  show ?case by (simp only: funpow_Suc_right o_apply Suc uint_lfsr) simp
qed simp

text \<open>A generated table agrees with the register.\<close>

fun table_from :: "(int \<Rightarrow> int) \<Rightarrow> int \<Rightarrow> int list \<Rightarrow> bool" where
  "table_from f i [] = True"
| "table_from f i (t # ts) = (f i = t \<and> table_from f (i + 1) ts)"

lemma table_from_nth: "table_from f i ts \<Longrightarrow> n < length ts \<Longrightarrow> ts ! n = f (i + int n)"
proof (induction ts arbitrary: i n)
  case (Cons t ts)
  then show ?case by (cases n) (auto simp: algebra_simps)
qed simp

end
