(* ===== verification/Crc32.thy ===== *)
theory Crc32
  imports Checksum
begin

text \<open>
  The CRC-32 of \<^verbatim>\<open>utils.py\<close>: the lookup table \<open>_crctab\<close> and the table-driven update \<open>crc32\<close>, on
  Python's unbounded integers as the code has it. The reference is the bitwise shift register
  over 32-bit words with the reflected polynomial 0xEDB88320, no initial value and no final
  complement; the table-driven code is shown equal to it, which gives the range of the
  results, incremental computation (what the uploader's padding relies on) and the detection
  of every change confined to four consecutive bytes.
\<close>

section \<open>The code\<close>

definition crctab :: "int list" where
  "crctab = [
   0x00000000, 0x77073096, 0xee0e612c, 0x990951ba, 0x076dc419, 0x706af48f,
   0xe963a535, 0x9e6495a3, 0x0edb8832, 0x79dcb8a4, 0xe0d5e91e, 0x97d2d988,
   0x09b64c2b, 0x7eb17cbd, 0xe7b82d07, 0x90bf1d91, 0x1db71064, 0x6ab020f2,
   0xf3b97148, 0x84be41de, 0x1adad47d, 0x6ddde4eb, 0xf4d4b551, 0x83d385c7,
   0x136c9856, 0x646ba8c0, 0xfd62f97a, 0x8a65c9ec, 0x14015c4f, 0x63066cd9,
   0xfa0f3d63, 0x8d080df5, 0x3b6e20c8, 0x4c69105e, 0xd56041e4, 0xa2677172,
   0x3c03e4d1, 0x4b04d447, 0xd20d85fd, 0xa50ab56b, 0x35b5a8fa, 0x42b2986c,
   0xdbbbc9d6, 0xacbcf940, 0x32d86ce3, 0x45df5c75, 0xdcd60dcf, 0xabd13d59,
   0x26d930ac, 0x51de003a, 0xc8d75180, 0xbfd06116, 0x21b4f4b5, 0x56b3c423,
   0xcfba9599, 0xb8bda50f, 0x2802b89e, 0x5f058808, 0xc60cd9b2, 0xb10be924,
   0x2f6f7c87, 0x58684c11, 0xc1611dab, 0xb6662d3d, 0x76dc4190, 0x01db7106,
   0x98d220bc, 0xefd5102a, 0x71b18589, 0x06b6b51f, 0x9fbfe4a5, 0xe8b8d433,
   0x7807c9a2, 0x0f00f934, 0x9609a88e, 0xe10e9818, 0x7f6a0dbb, 0x086d3d2d,
   0x91646c97, 0xe6635c01, 0x6b6b51f4, 0x1c6c6162, 0x856530d8, 0xf262004e,
   0x6c0695ed, 0x1b01a57b, 0x8208f4c1, 0xf50fc457, 0x65b0d9c6, 0x12b7e950,
   0x8bbeb8ea, 0xfcb9887c, 0x62dd1ddf, 0x15da2d49, 0x8cd37cf3, 0xfbd44c65,
   0x4db26158, 0x3ab551ce, 0xa3bc0074, 0xd4bb30e2, 0x4adfa541, 0x3dd895d7,
   0xa4d1c46d, 0xd3d6f4fb, 0x4369e96a, 0x346ed9fc, 0xad678846, 0xda60b8d0,
   0x44042d73, 0x33031de5, 0xaa0a4c5f, 0xdd0d7cc9, 0x5005713c, 0x270241aa,
   0xbe0b1010, 0xc90c2086, 0x5768b525, 0x206f85b3, 0xb966d409, 0xce61e49f,
   0x5edef90e, 0x29d9c998, 0xb0d09822, 0xc7d7a8b4, 0x59b33d17, 0x2eb40d81,
   0xb7bd5c3b, 0xc0ba6cad, 0xedb88320, 0x9abfb3b6, 0x03b6e20c, 0x74b1d29a,
   0xead54739, 0x9dd277af, 0x04db2615, 0x73dc1683, 0xe3630b12, 0x94643b84,
   0x0d6d6a3e, 0x7a6a5aa8, 0xe40ecf0b, 0x9309ff9d, 0x0a00ae27, 0x7d079eb1,
   0xf00f9344, 0x8708a3d2, 0x1e01f268, 0x6906c2fe, 0xf762575d, 0x806567cb,
   0x196c3671, 0x6e6b06e7, 0xfed41b76, 0x89d32be0, 0x10da7a5a, 0x67dd4acc,
   0xf9b9df6f, 0x8ebeeff9, 0x17b7be43, 0x60b08ed5, 0xd6d6a3e8, 0xa1d1937e,
   0x38d8c2c4, 0x4fdff252, 0xd1bb67f1, 0xa6bc5767, 0x3fb506dd, 0x48b2364b,
   0xd80d2bda, 0xaf0a1b4c, 0x36034af6, 0x41047a60, 0xdf60efc3, 0xa867df55,
   0x316e8eef, 0x4669be79, 0xcb61b38c, 0xbc66831a, 0x256fd2a0, 0x5268e236,
   0xcc0c7795, 0xbb0b4703, 0x220216b9, 0x5505262f, 0xc5ba3bbe, 0xb2bd0b28,
   0x2bb45a92, 0x5cb36a04, 0xc2d7ffa7, 0xb5d0cf31, 0x2cd99e8b, 0x5bdeae1d,
   0x9b64c2b0, 0xec63f226, 0x756aa39c, 0x026d930a, 0x9c0906a9, 0xeb0e363f,
   0x72076785, 0x05005713, 0x95bf4a82, 0xe2b87a14, 0x7bb12bae, 0x0cb61b38,
   0x92d28e9b, 0xe5d5be0d, 0x7cdcefb7, 0x0bdbdf21, 0x86d3d2d4, 0xf1d4e242,
   0x68ddb3f8, 0x1fda836e, 0x81be16cd, 0xf6b9265b, 0x6fb077e1, 0x18b74777,
   0x88085ae6, 0xff0f6a70, 0x66063bca, 0x11010b5c, 0x8f659eff, 0xf862ae69,
   0x616bffd3, 0x166ccf45, 0xa00ae278, 0xd70dd2ee, 0x4e048354, 0x3903b3c2,
   0xa7672661, 0xd06016f7, 0x4969474d, 0x3e6e77db, 0xaed16a4a, 0xd9d65adc,
   0x40df0b66, 0x37d83bf0, 0xa9bcae53, 0xdebb9ec5, 0x47b2cf7f, 0x30b5ffe9,
   0xbdbdf21c, 0xcabac28a, 0x53b39330, 0x24b4a3a6, 0xbad03605, 0xcdd70693,
   0x54de5729, 0x23d967bf, 0xb3667a2e, 0xc4614ab8, 0x5d681b02, 0x2a6f2b94,
   0xb40bbe37, 0xc30c8ea1, 0x5a05df1b, 0x2d02ef8d]"

text \<open>One round of the loop of \<open>crc32\<close>: \<open>index = (state ^ byte) & 0xFF\<close>.\<close>

definition crc32_step :: "int \<Rightarrow> byte \<Rightarrow> int" where
  "crc32_step state b = crctab ! nat ((state XOR uint b) AND 0xFF) XOR drop_bit 8 state"

fun crc32 :: "bytes \<Rightarrow> int \<Rightarrow> int" where
  "crc32 [] state = state"
| "crc32 (b # data) state = crc32 data (crc32_step state b)"

section \<open>The bitwise reference\<close>

definition crc_bit :: "32 word \<Rightarrow> 32 word" where
  "crc_bit = lfsr 0xEDB88320"

definition crc_ref_step :: "32 word \<Rightarrow> byte \<Rightarrow> 32 word" where
  "crc_ref_step s b = (crc_bit ^^ 8) (s XOR ucast b)"

definition crc_ref :: "32 word \<Rightarrow> bytes \<Rightarrow> 32 word" where
  "crc_ref s bs = foldl crc_ref_step s bs"

section \<open>The table is the reference on single bytes\<close>

lemma crctab_generated: "table_from (lfsr_int 0xEDB88320 8) 0 crctab"
  by code_simp

lemma length_crctab: "length crctab = 256"
  by (simp add: crctab_def)

lemma crctab_nth: "n < 256 \<Longrightarrow> crctab ! n = uint ((crc_bit ^^ 8) (word_of_nat n))"
proof -
  assume n: "n < 256"
  have "uint (word_of_nat n :: 32 word) = int n"
    using n by (simp add: unsigned_of_nat take_bit_nat_eq_self_iff less_trans [of n 256])
  then show ?thesis
    using table_from_nth [OF crctab_generated, of n] n
    by (simp add: length_crctab crc_bit_def uint_lfsrs)
qed

lemmas crc_bits_xor = lfsrs_xor [where poly = "0xEDB88320 :: 32 word", folded crc_bit_def]
lemmas crc_bits_low_zero = lfsrs_low_zero [where poly = "0xEDB88320 :: 32 word", folded crc_bit_def]

lemma low_byte_mask: "(0xFF :: 'a :: len word) = mask 8"
  by (simp add: mask_eq_exp_minus_1)

lemma crc_byte_table: "(crc_bit ^^ 8) x = (crc_bit ^^ 8) (x AND 0xFF) XOR drop_bit 8 x"
  by (simp only: crc_bit_def low_byte_mask lfsr_byte_table [of _ x])

lemma crc_bits_inj: "(crc_bit ^^ n) x = (crc_bit ^^ n) y \<longleftrightarrow> x = y"
  unfolding crc_bit_def by (rule lfsrs_inj) simp

section \<open>The code computes the reference\<close>

lemma uint_low_byte_less: "uint (x AND 0xFF :: 32 word) < 256"
proof -
  have "uint (x AND 0xFF) \<le> uint (0xFF :: 32 word)"
    by (metis word_and_le1 word_le_def)
  then show ?thesis by simp
qed

lemma uint_ucast_byte: "uint (ucast b :: 32 word) = uint (b :: byte)"
  using uint_byte_bounds [of b] by (simp add: unsigned_ucast_eq take_bit_int_eq_self_iff)

lemma crc32_step_ref: "crc32_step (uint s) b = uint (crc_ref_step s b)"
proof -
  let ?x = "s XOR ucast b :: 32 word"
  let ?i = "nat (uint (?x AND 0xFF))"
  have i: "?i < 256" using uint_low_byte_less [of ?x] by arith
  have idx: "nat ((uint s XOR uint b) AND 0xFF) = ?i"
    by (simp add: unsigned_and_eq unsigned_xor_eq uint_ucast_byte)
  have "crctab ! ?i = uint ((crc_bit ^^ 8) (?x AND 0xFF))"
    using crctab_nth [OF i] by simp
  moreover have "drop_bit 8 (uint s) = uint (drop_bit 8 ?x)"
  proof -
    have "drop_bit 8 ?x = drop_bit 8 s"
      by (rule bit_eqI) (auto simp: bit_simps dest: bit_imp_le_length)
    moreover have "take_bit 32 (uint s) = uint s"
      using uint_lt2p [of s] by (simp add: take_bit_int_eq_self_iff)
    ultimately show ?thesis by (simp only: unsigned_drop_bit_eq) simp
  qed
  ultimately show ?thesis
    by (simp only: crc32_step_def idx crc_ref_step_def crc_byte_table [of ?x] unsigned_xor_eq)
qed

lemma crc32_foldl: "crc32 bs s = foldl crc32_step s bs"
  by (induction bs arbitrary: s) auto

lemma crc32_ref: "crc32 bs (uint s) = uint (crc_ref s bs)"
  by (induction bs arbitrary: s) (auto simp: crc_ref_def crc32_step_ref)

lemma crc_range_uint: "0 \<le> s \<Longrightarrow> s < 2 ^ 32 \<Longrightarrow> uint (word_of_int s :: 32 word) = s"
  by (simp add: uint_word_of_int)

lemma crc32_append: "crc32 (xs @ ys) s = crc32 ys (crc32 xs s)"
  by (simp add: crc32_foldl)

lemma crc32_range:
  assumes "0 \<le> s" "s < 2 ^ 32"
  shows "0 \<le> crc32 bs s \<and> crc32 bs s < 2 ^ 32"
proof -
  have "crc32 bs s = uint (crc_ref (word_of_int s) bs)"
    using crc32_ref [of bs "word_of_int s"] crc_range_uint [OF assms] by simp
  then show ?thesis using uint_lt2p [of "crc_ref (word_of_int s) bs"] by simp
qed

section \<open>Injectivity and error detection\<close>

lemma ucast_byte_inj: "(ucast b :: 32 word) = ucast b' \<Longrightarrow> b = (b' :: byte)"
  by (metis uint_ucast_byte word_uint_eqI)

lemma crc32_step_word:
  assumes "0 \<le> s" "s < 2 ^ 32"
  shows "crc32_step s b = uint (crc_ref_step (word_of_int s) b)"
  using crc32_step_ref [of "word_of_int s" b] crc_range_uint [OF assms] by simp

text \<open>The interface of a checksum, discharged for the code's \<open>crc32\<close>.\<close>

interpretation crc: byte_checksum crc32_step "\<lambda>s. 0 \<le> s \<and> s < 2 ^ 32"
proof unfold_locales
  fix s :: int and b :: byte
  assume "0 \<le> s \<and> s < 2 ^ 32"
  then show "0 \<le> crc32_step s b \<and> crc32_step s b < 2 ^ 32"
    using crc32_range [of s "[b]"] by simp
next
  fix s s' :: int and b :: byte
  assume s: "0 \<le> s \<and> s < 2 ^ 32" and s': "0 \<le> s' \<and> s' < 2 ^ 32"
    and eq: "crc32_step s b = crc32_step s' b"
  then have "crc_ref_step (word_of_int s) b = crc_ref_step (word_of_int s') b"
    by (auto simp: crc32_step_word intro: word_uint_eqI)
  then have "(word_of_int s :: 32 word) = word_of_int s'"
    by (simp add: crc_ref_step_def crc_bits_inj xor_right_cancel)
  then show "s = s'" using s s' by (metis crc_range_uint)
next
  fix s :: int and b b' :: byte
  assume "0 \<le> s \<and> s < 2 ^ 32" and "crc32_step s b = crc32_step s b'"
  then have "crc_ref_step (word_of_int s) b = crc_ref_step (word_of_int s) b'"
    by (auto simp: crc32_step_word intro: word_uint_eqI)
  then have "(ucast b :: 32 word) = ucast b'"
    by (simp add: crc32_step_word crc_ref_step_def crc_bits_inj xor_left_cancel)
  then show "b = b'" by (rule ucast_byte_inj)
qed

text \<open>Four bytes enter the register as one 32-bit word, so no change within four bytes is lost.\<close>

lemma crc_bits_shift_in:
  assumes "drop_bit n (push_bit n y) = y"
  shows "(crc_bit ^^ n) x XOR y = (crc_bit ^^ n) (x XOR push_bit n y)"
proof -
  have "(crc_bit ^^ n) (push_bit n y) = y"
    using crc_bits_low_zero [of n "push_bit n y"] assms by (auto simp: bit_simps)
  then show ?thesis by (simp add: crc_bits_xor)
qed

lemma crc_ref_step_shift:
  assumes "n \<le> 24"
  shows "crc_ref_step ((crc_bit ^^ n) x) b = (crc_bit ^^ (8 + n)) (x XOR push_bit n (ucast b))"
proof -
  have "drop_bit n (push_bit n (ucast b :: 32 word)) = ucast b"
    using assms by (intro bit_eqI) (auto simp: bit_simps dest: bit_imp_le_length)
  then show ?thesis
    by (simp add: crc_ref_step_def crc_bits_shift_in funpow_add del: funpow.simps)
qed

definition word_of_4 :: "byte \<Rightarrow> byte \<Rightarrow> byte \<Rightarrow> byte \<Rightarrow> 32 word" where
  "word_of_4 a b c d = ((ucast a XOR push_bit 8 (ucast b)) XOR push_bit 16 (ucast c))
     XOR push_bit 24 (ucast d)"

lemma crc_ref_4: "crc_ref s [a, b, c, d] = (crc_bit ^^ 32) (s XOR word_of_4 a b c d)"
  using crc_ref_step_shift [of 0 s a] crc_ref_step_shift [of 8 _ b]
    crc_ref_step_shift [of 16 _ c] crc_ref_step_shift [of 24 _ d]
  by (simp add: crc_ref_def word_of_4_def xor.assoc del: funpow.simps)

lemma word_of_4_inj:
  assumes "word_of_4 a b c d = word_of_4 a' b' c' d'"
  shows "a = a' \<and> b = b' \<and> c = c' \<and> d = d'"
proof -
  have bits: "bit (word_of_4 a b c d) n =
      (if n < 8 then bit a n else if n < 16 then bit b (n - 8)
       else if n < 24 then bit c (n - 16) else n < 32 \<and> bit d (n - 24))" for a b c d :: byte and n
    by (auto simp: word_of_4_def bit_simps dest: bit_imp_le_length)
  have "bit a n = bit a' n" if "n < 8" for n
    using that assms bits [of a b c d n] bits [of a' b' c' d' n] by simp
  moreover have "bit b n = bit b' n" if "n < 8" for n
    using that assms bits [of a b c d "n + 8"] bits [of a' b' c' d' "n + 8"] by simp
  moreover have "bit c n = bit c' n" if "n < 8" for n
    using that assms bits [of a b c d "n + 16"] bits [of a' b' c' d' "n + 16"] by simp
  moreover have "bit d n = bit d' n" if "n < 8" for n
    using that assms bits [of a b c d "n + 24"] bits [of a' b' c' d' "n + 24"] by simp
  ultimately show ?thesis by (auto intro!: bit_word_eqI)
qed

lemma crc32_window_inj:
  assumes s: "0 \<le> s" "s < 2 ^ 32" and len: "length w = 4" "length w' = 4"
    and eq: "crc32 w s = crc32 w' s"
  shows "w = w'"
proof -
  obtain a b c d where w: "w = [a, b, c, d]" using len(1) by (auto simp: eval_nat_numeral length_Suc_conv)
  obtain a' b' c' d' where w': "w' = [a', b', c', d']" using len(2) by (auto simp: eval_nat_numeral length_Suc_conv)
  have "crc_ref (word_of_int s) w = crc_ref (word_of_int s) w'"
    using eq crc32_ref [of w "word_of_int s"] crc32_ref [of w' "word_of_int s"] crc_range_uint [OF s]
    by (auto intro: word_uint_eqI)
  then have "word_of_4 a b c d = word_of_4 a' b' c' d'"
    by (simp only: w w' crc_ref_4 crc_bits_inj xor_left_cancel)
  then show ?thesis using word_of_4_inj w w' by blast
qed

section \<open>Properties\<close>

text \<open>C13. The table-driven \<open>crc32\<close> of \<^verbatim>\<open>utils.py\<close>, on unbounded Python integers, computes the
  bitwise CRC-32 register (polynomial 0xEDB88320, reflected) from every 32-bit seed, on every
  input; in particular its 256 table entries are the right ones and the result is a 32-bit value.\<close>

theorem crc32_computes_register:
  assumes "0 \<le> s" "s < 2 ^ 32"
  shows "crc32 bs s = uint (crc_ref (word_of_int s) bs)"
  using crc32_ref [of bs "word_of_int s"] crc_range_uint [OF assms] by simp

lemma crc32_computes_register_witness:
  "crc32 [0x68, 0x65, 0x6C, 0x6C, 0x6F] 0 = 0xF032519B \<and>
   uint (crc_ref (word_of_int 0) [0x68, 0x65, 0x6C, 0x6C, 0x6F]) = 0xF032519B"
proof -
  have "crc32 [0x68, 0x65, 0x6C, 0x6C, 0x6F] 0 = 0xF032519B"
    by (simp add: crc32_step_def crctab_def)
  then show ?thesis using crc32_computes_register [of 0 "[0x68, 0x65, 0x6C, 0x6C, 0x6F]"] by simp
qed

text \<open>C37. Error detection: two byte strings that differ only within four consecutive bytes have
  different CRCs, whatever precedes and follows the change, from every 32-bit seed.\<close>

theorem crc32_detects_burst:
  assumes "0 \<le> s" "s < 2 ^ 32" and "length w = 4" "length w' = 4" and "w \<noteq> w'"
  shows "crc32 (pre @ w @ post) s \<noteq> crc32 (pre @ w' @ post) s"
proof
  let ?s = "crc32 pre s"
  have s: "0 \<le> ?s \<and> ?s < 2 ^ 32" using assms(1,2) by (rule crc32_range)
  assume "crc32 (pre @ w @ post) s = crc32 (pre @ w' @ post) s"
  then have "crc32 w ?s = crc32 w' ?s"
    using s crc32_range [of ?s w] crc32_range [of ?s w']
    by (auto simp: crc32_append crc32_foldl [of post] dest: crc.fold_inj_state [rotated 2])
  with s assms(3-5) show False by (blast dest: crc32_window_inj)
qed

lemma crc32_detects_burst_witness:
  "crc32 ([1] @ [2, 3, 4, 5] @ [6]) 0 \<noteq> crc32 ([1] @ [2, 3, 5, 4] @ [6]) 0"
  by (rule crc32_detects_burst) simp_all

end
