(* ===== verification/Messages.thy ===== *)
theory Messages
  imports Prelude
begin

text \<open>
  The vocabulary of the bootloader protocol (\<^verbatim>\<open>protocol.py\<close>): opcodes, device-info items, response
  codes, the \<open>Command\<close> constructors with their argument checks, the expected lengths and timeouts,
  and the byte encodings of commands and responses. \<open>command\<close> and \<open>response\<close> are the two
  dataclasses; enum lookups by value raise \<open>ValueError\<close> as in Python.
\<close>

section \<open>Opcodes\<close>

datatype opcode =
    OP_IN_SYNC | OP_EOC | OP_OK | OP_FAILED | OP_INVALID | OP_BAD_SILICON_REV
  | OP_NOP | OP_GET_SYNC | OP_GET_DEVICE | OP_CHIP_ERASE | OP_CHIP_VERIFY | OP_PROG_MULTI
  | OP_READ_MULTI | OP_GET_CRC | OP_GET_OTP | OP_GET_SN | OP_GET_CHIP | OP_SET_BOOT_DELAY
  | OP_GET_CHIP_DES | OP_GET_WRITE_PTR | OP_REBOOT | OP_DEBUG | OP_SET_BAUD

fun opcode_value :: "opcode \<Rightarrow> byte" where
  "opcode_value OP_IN_SYNC = 0x12"
| "opcode_value OP_EOC = 0x20"
| "opcode_value OP_OK = 0x10"
| "opcode_value OP_FAILED = 0x11"
| "opcode_value OP_INVALID = 0x13"
| "opcode_value OP_BAD_SILICON_REV = 0x14"
| "opcode_value OP_NOP = 0x00"
| "opcode_value OP_GET_SYNC = 0x21"
| "opcode_value OP_GET_DEVICE = 0x22"
| "opcode_value OP_CHIP_ERASE = 0x23"
| "opcode_value OP_CHIP_VERIFY = 0x24"
| "opcode_value OP_PROG_MULTI = 0x27"
| "opcode_value OP_READ_MULTI = 0x28"
| "opcode_value OP_GET_CRC = 0x29"
| "opcode_value OP_GET_OTP = 0x2A"
| "opcode_value OP_GET_SN = 0x2B"
| "opcode_value OP_GET_CHIP = 0x2C"
| "opcode_value OP_SET_BOOT_DELAY = 0x2D"
| "opcode_value OP_GET_CHIP_DES = 0x2E"
| "opcode_value OP_GET_WRITE_PTR = 0x2F"
| "opcode_value OP_REBOOT = 0x30"
| "opcode_value OP_DEBUG = 0x31"
| "opcode_value OP_SET_BAUD = 0x33"

definition opcodes :: "opcode list" where
  "opcodes = [OP_IN_SYNC, OP_EOC, OP_OK, OP_FAILED, OP_INVALID, OP_BAD_SILICON_REV, OP_NOP,
     OP_GET_SYNC, OP_GET_DEVICE, OP_CHIP_ERASE, OP_CHIP_VERIFY, OP_PROG_MULTI, OP_READ_MULTI,
     OP_GET_CRC, OP_GET_OTP, OP_GET_SN, OP_GET_CHIP, OP_SET_BOOT_DELAY, OP_GET_CHIP_DES,
     OP_GET_WRITE_PTR, OP_REBOOT, OP_DEBUG, OP_SET_BAUD]"

text \<open>\<open>OpCode(b)\<close>: the member with that value, or \<open>ValueError\<close>.\<close>

definition opcode_of :: "byte \<Rightarrow> opcode result" where
  "opcode_of b = (case find (\<lambda>c. opcode_value c = b) opcodes of
     Some c \<Rightarrow> Inr c | None \<Rightarrow> Inl (ValueError ''not a valid OpCode''))"

lemma opcode_value_inj: "opcode_value c = opcode_value d \<Longrightarrow> c = d"
  by (cases c; cases d) simp_all

lemma opcode_of_value [simp]: "opcode_of (opcode_value c) = Inr c"
  by (cases c) (simp_all add: opcode_of_def opcodes_def)

text \<open>\<open>OpCode\<close> is an \<open>IntEnum\<close>: its members are ordered by value.\<close>

instantiation opcode :: linorder
begin
definition less_eq_opcode :: "opcode \<Rightarrow> opcode \<Rightarrow> bool" where
  "less_eq_opcode c d \<longleftrightarrow> opcode_value c \<le> opcode_value d"
definition less_opcode :: "opcode \<Rightarrow> opcode \<Rightarrow> bool" where
  "less_opcode c d \<longleftrightarrow> opcode_value c < opcode_value d"
instance
  by standard (auto simp: less_eq_opcode_def less_opcode_def intro: opcode_value_inj)
end

definition PROG_MULTI_MAX_PAYLOAD_LENGTH :: nat where
  "PROG_MULTI_MAX_PAYLOAD_LENGTH = 252"

datatype device_info_item = BL_REV | BOARD_ID | BOARD_REV | FLASH_SIZE

fun device_info_value :: "device_info_item \<Rightarrow> byte" where
  "device_info_value BL_REV = 0x01"
| "device_info_value BOARD_ID = 0x02"
| "device_info_value BOARD_REV = 0x03"
| "device_info_value FLASH_SIZE = 0x04"

definition device_info_of :: "byte \<Rightarrow> device_info_item result" where
  "device_info_of b = (case find (\<lambda>c. device_info_value c = b) [BL_REV, BOARD_ID, BOARD_REV, FLASH_SIZE] of
     Some c \<Rightarrow> Inr c | None \<Rightarrow> Inl (ValueError ''not a valid DeviceInfoItem''))"

lemma device_info_of_value [simp]: "device_info_of (device_info_value c) = Inr c"
  by (cases c) (simp_all add: device_info_of_def)

datatype response_type = RT_OK | RT_FAILED | RT_INVALID | RT_BAD_SILICON_REV

fun response_type_opcode :: "response_type \<Rightarrow> opcode" where
  "response_type_opcode RT_OK = OP_OK"
| "response_type_opcode RT_FAILED = OP_FAILED"
| "response_type_opcode RT_INVALID = OP_INVALID"
| "response_type_opcode RT_BAD_SILICON_REV = OP_BAD_SILICON_REV"

definition response_type_of :: "byte \<Rightarrow> response_type result" where
  "response_type_of b =
     (case find (\<lambda>t. opcode_value (response_type_opcode t) = b)
        [RT_OK, RT_FAILED, RT_INVALID, RT_BAD_SILICON_REV] of
      Some t \<Rightarrow> Inr t | None \<Rightarrow> Inl (ValueError ''not a valid ResponseType''))"

lemma response_type_of_value [simp]:
  "response_type_of (opcode_value (response_type_opcode t)) = Inr t"
  by (cases t) (simp_all add: response_type_of_def)

section \<open>Commands\<close>

record command =
  cmd_type :: opcode
  cmd_args :: bytes

definition Command :: "opcode \<Rightarrow> bytes \<Rightarrow> command" where
  "Command t args = \<lparr>cmd_type = t, cmd_args = args\<rparr>"

lemma Command_simps [simp]:
  "cmd_type (Command t args) = t" "cmd_args (Command t args) = args"
  by (simp_all add: Command_def)

definition Command_erase_flash_memory :: command where
  "Command_erase_flash_memory = Command OP_CHIP_ERASE []"

definition Command_get_chip_description :: command where
  "Command_get_chip_description = Command OP_GET_CHIP_DES []"

definition Command_get_chip_type :: command where
  "Command_get_chip_type = Command OP_GET_CHIP []"

definition Command_get_crc :: command where
  "Command_get_crc = Command OP_GET_CRC []"

definition Command_get_device_info :: "device_info_item \<Rightarrow> command" where
  "Command_get_device_info item = Command OP_GET_DEVICE [device_info_value item]"

definition Command_get_sync :: command where
  "Command_get_sync = Command OP_GET_SYNC []"

definition Command_get_write_pointer :: command where
  "Command_get_write_pointer = Command OP_GET_WRITE_PTR []"

definition Command_program_bytes :: "bytes \<Rightarrow> command result" where
  "Command_program_bytes data =
     (if length data > PROG_MULTI_MAX_PAYLOAD_LENGTH
      then Inl (RuntimeError ''payload too large, maximum allowed size is 252 bytes'')
      else Inr (Command OP_PROG_MULTI data))"

definition Command_read_word_from_otp_area :: "int \<Rightarrow> command result" where
  "Command_read_word_from_otp_area address =
     map_sum id (Command OP_GET_OTP) (to_bytes_le 4 address)"

definition Command_read_word_from_serial_number_area :: "int \<Rightarrow> command result" where
  "Command_read_word_from_serial_number_area address =
     map_sum id (Command OP_GET_SN) (to_bytes_le 4 address)"

definition Command_reboot :: command where
  "Command_reboot = Command OP_REBOOT []"

definition Command_set_boot_delay :: "int \<Rightarrow> command result" where
  "Command_set_boot_delay delay =
     (if delay < 0 \<or> delay > 255
      then Inl (RuntimeError ''invalid boot delay, must be between 0 and 255'')
      else Inr (Command OP_SET_BOOT_DELAY [word_of_int delay]))"

definition Command_set_baud_rate :: "int \<Rightarrow> command result" where
  "Command_set_baud_rate baud_rate = map_sum id (Command OP_SET_BAUD) (to_bytes_le 4 baud_rate)"

definition GET_SYNC :: command where
  "GET_SYNC = Command_get_sync"

text \<open>The expected length of the arguments; negative for a length byte in front of them.\<close>

definition payload_length :: "command \<Rightarrow> int" where
  "payload_length c =
     (let code = cmd_type c in
      if code \<in> {OP_GET_OTP, OP_GET_SN, OP_SET_BAUD} then 4
      else if code \<in> {OP_GET_DEVICE, OP_SET_BOOT_DELAY} then 1
      else if code = OP_PROG_MULTI then -1
      else 0)"

text \<open>The expected length of the answer without the sync marker; negative for a length prefix.\<close>

definition response_length :: "command \<Rightarrow> int" where
  "response_length c =
     (let code = cmd_type c in
      if code = OP_GET_CHIP_DES then -1
      else if code \<in> {OP_GET_CRC, OP_GET_OTP, OP_GET_SN, OP_GET_DEVICE, OP_GET_CRC,
                       OP_GET_CHIP, OP_GET_WRITE_PTR} then 4
      else 0)"

text \<open>Timeouts are in milliseconds.\<close>

definition suggested_timeout :: "command \<Rightarrow> nat" where
  "suggested_timeout c =
     (if cmd_type c = OP_CHIP_ERASE then 20000
      else if cmd_type c = OP_GET_CRC then 3000
      else 500)"

definition command_to_bytes :: "command \<Rightarrow> bytes result" where
  "command_to_bytes c =
     (if payload_length c < 0
      then (if length (cmd_args c) > 255 then Inl (RuntimeError ''arguments too long'')
            else Inr (opcode_value (cmd_type c) # word_of_nat (length (cmd_args c)) # cmd_args c
                      @ [opcode_value OP_EOC]))
      else Inr (opcode_value (cmd_type c) # cmd_args c @ [opcode_value OP_EOC]))"

section \<open>Responses\<close>

record response =
  resp_type :: response_type
  resp_payload :: bytes

definition Response :: "response_type \<Rightarrow> bytes \<Rightarrow> response" where
  "Response t payload = \<lparr>resp_type = t, resp_payload = payload\<rparr>"

lemma Response_simps [simp]:
  "resp_type (Response t payload) = t" "resp_payload (Response t payload) = payload"
  by (simp_all add: Response_def)

lemma Response_inject [simp]: "Response t x = Response u y \<longleftrightarrow> t = u \<and> x = y"
  by (simp add: Response_def)

definition Response_success :: "bytes \<Rightarrow> response" where
  "Response_success payload = Response RT_OK payload"

definition Response_failure :: response where
  "Response_failure = Response RT_FAILED []"

definition Response_invalid :: response where
  "Response_invalid = Response RT_INVALID []"

definition Response_from_opcode :: "byte \<Rightarrow> bytes \<Rightarrow> response result" where
  "Response_from_opcode code payload = map_sum id (\<lambda>t. Response t payload) (response_type_of code)"

definition get_payload_or_raise_exception :: "response \<Rightarrow> bytes result" where
  "get_payload_or_raise_exception r =
     (if resp_type r = RT_BAD_SILICON_REV then Inl (RuntimeError ''bad silicon revision'')
      else if resp_type r = RT_INVALID then Inl (RuntimeError ''invalid operation'')
      else if resp_type r = RT_FAILED then Inl (RuntimeError ''operation failed'')
      else Inr (resp_payload r))"

definition response_successful :: "response \<Rightarrow> bool" where
  "response_successful r \<longleftrightarrow> resp_type r = RT_OK"

definition response_to_bytes :: "response \<Rightarrow> bytes" where
  "response_to_bytes r =
     (if resp_type r = RT_OK
      then resp_payload r @ [opcode_value OP_IN_SYNC, opcode_value OP_OK]
      else [opcode_value OP_IN_SYNC, opcode_value (response_type_opcode (resp_type r))])"

end
