(* ===== verification/Protocol.thy ===== *)
theory Protocol
  imports Messages
begin

text \<open>
  The \<open>Protocol\<close> state machine of \<^verbatim>\<open>protocol.py\<close>, which reassembles responses from the bytes of
  the transport and decides when a command may be sent. Operations that may raise return a
  \<open>result\<close> together with the state after the call, since the object keeps the changes made
  before the exception. The lemmas give the invariant between the fields, the conservation of
  received bytes and the reassembly of a response from any fragmentation.
\<close>

section \<open>State\<close>

datatype event =
    NeedMoreData
  | ExcessData bytes
  | ConnectionClosed
  | CommandEvent command
  | ResponseEvent response

datatype protocol_state =
    PS_IDLE | PS_IN_SYNC | PS_WAIT_RESPONSE_LENGTH | PS_WAIT_RESPONSE | PS_WAIT_SYNC | PS_ERROR

record protocol =
  pr_buffer :: bytes
  pr_buffer_closed :: bool
  pr_payload :: bytes
  pr_state :: protocol_state
  pr_bytes_expected :: int

section \<open>Operations\<close>

definition reset :: "protocol \<Rightarrow> protocol" where
  "reset p = p\<lparr>pr_buffer := [], pr_buffer_closed := False, pr_state := PS_IDLE\<rparr>"

text \<open>A new object: the class attributes, then \<open>reset()\<close>.\<close>

definition Protocol :: protocol where
  "Protocol = reset \<lparr>pr_buffer = [], pr_buffer_closed = False, pr_payload = [],
     pr_state = PS_IDLE, pr_bytes_expected = 0\<rparr>"

definition feed :: "bytes \<Rightarrow> protocol \<Rightarrow> unit result \<times> protocol" where
  "feed data p =
     (if data \<noteq> [] then
        (if pr_buffer_closed p then (Inl (RuntimeError ''receiver closed''), p)
         else (Inr (), p\<lparr>pr_buffer := pr_buffer p @ data\<rparr>))
      else (Inr (), p\<lparr>pr_buffer_closed := True\<rparr>))"

definition in_sync :: "protocol \<Rightarrow> bool" where
  "in_sync p \<longleftrightarrow> pr_state p = PS_IN_SYNC"

definition move_to_error_state :: "protocol \<Rightarrow> protocol" where
  "move_to_error_state p = p\<lparr>pr_payload := [], pr_state := PS_ERROR, pr_bytes_expected := 0\<rparr>"

definition move_to_in_sync_state :: "protocol \<Rightarrow> protocol" where
  "move_to_in_sync_state p = p\<lparr>pr_payload := [], pr_state := PS_IN_SYNC, pr_bytes_expected := 0\<rparr>"

definition purge_excess_data :: "nat option \<Rightarrow> protocol \<Rightarrow> event option \<times> protocol" where
  "purge_excess_data up_to p =
     (let n = (case up_to of None \<Rightarrow> length (pr_buffer p)
                | Some k \<Rightarrow> min k (length (pr_buffer p)))
      in if pr_payload p \<noteq> [] \<or> n > 0
         then (Some (ExcessData (pr_payload p @ take n (pr_buffer p))),
               p\<lparr>pr_buffer := drop n (pr_buffer p), pr_payload := []\<rparr>)
         else (None, p))"

definition start_waiting_for_sync :: "protocol \<Rightarrow> protocol" where
  "start_waiting_for_sync p = p\<lparr>pr_state := PS_WAIT_SYNC, pr_bytes_expected := 2\<rparr>"

definition start_waiting_for_response :: "int \<Rightarrow> protocol \<Rightarrow> protocol" where
  "start_waiting_for_response len p =
     (if len < 0 then p\<lparr>pr_payload := [], pr_state := PS_WAIT_RESPONSE_LENGTH, pr_bytes_expected := 4\<rparr>
      else if len = 0 then start_waiting_for_sync p
      else p\<lparr>pr_payload := [], pr_state := PS_WAIT_RESPONSE, pr_bytes_expected := len\<rparr>)"

text \<open>
  \<open>next_event\<close>, stage by stage. The body of its \<open>while True\<close> is a chain of \<open>if\<close>s that fall
  through from one waiting state to the next and end in a \<open>return\<close> on every path, so the loop
  never takes a second turn.
\<close>

definition accepted_codes :: bytes where
  "accepted_codes = map opcode_value [OP_OK, OP_FAILED, OP_INVALID]"

definition next_event_sync :: "protocol \<Rightarrow> event option result \<times> protocol" where
  "next_event_sync p =
     (if pr_state p = PS_WAIT_SYNC then
        if \<not> pr_bytes_expected p > 0 then (Inl AssertionError, p)
        else if pr_buffer p = [] then (Inr (Some NeedMoreData), p)
        else let sync_index = bytes_find (opcode_value OP_IN_SYNC) (pr_buffer p) in
          if sync_index > 0 then apfst Inr (purge_excess_data (Some (nat sync_index)) p)
          else if sync_index < 0 then
            (case purge_excess_data None p of
               (Some e, p') \<Rightarrow> (Inr (Some e), p')
             | (None, p') \<Rightarrow> (Inr (Some NeedMoreData), p'))
          else if length (pr_buffer p) < 2 then (Inr (Some NeedMoreData), p)
          else let code = pr_buffer p ! 1 in
            if code \<notin> set accepted_codes
            then apfst Inr (purge_excess_data (Some 2) p)
            else let p1 = p\<lparr>pr_buffer := drop 2 (pr_buffer p)\<rparr>; payload = pr_payload p1
              in (map_sum id (\<lambda>r. Some (ResponseEvent r)) (Response_from_opcode code payload),
                  move_to_in_sync_state p1)
      else apfst Inr (purge_excess_data None p))"

definition next_event_response :: "protocol \<Rightarrow> event option result \<times> protocol" where
  "next_event_response p =
     (if pr_state p = PS_WAIT_RESPONSE then
        if \<not> pr_bytes_expected p > 0 then (Inl AssertionError, p)
        else if int (length (pr_buffer p)) < pr_bytes_expected p then (Inr (Some NeedMoreData), p)
        else next_event_sync (start_waiting_for_sync
          (p\<lparr>pr_buffer := drop (nat (pr_bytes_expected p)) (pr_buffer p),
             pr_payload := take (nat (pr_bytes_expected p)) (pr_buffer p)\<rparr>))
      else next_event_sync p)"

definition next_event_length :: "protocol \<Rightarrow> event option result \<times> protocol" where
  "next_event_length p =
     (if pr_state p = PS_WAIT_RESPONSE_LENGTH then
        if \<not> pr_bytes_expected p > 0 then (Inl AssertionError, p)
        else if int (length (pr_buffer p)) < pr_bytes_expected p then (Inr (Some NeedMoreData), p)
        else next_event_response (start_waiting_for_response (from_bytes_le (take 4 (pr_buffer p)))
          (p\<lparr>pr_buffer := drop (nat (pr_bytes_expected p)) (pr_buffer p)\<rparr>))
      else next_event_response p)"

definition next_event :: "protocol \<Rightarrow> event option result \<times> protocol" where
  "next_event p =
     (if pr_buffer p = [] \<and> pr_buffer_closed p then (Inr (Some ConnectionClosed), p)
      else next_event_length p)"

definition send :: "event \<Rightarrow> protocol \<Rightarrow> bytes result \<times> protocol" where
  "send ev p =
     (case ev of
        CommandEvent c \<Rightarrow>
          if \<not> in_sync p \<and> cmd_type c \<noteq> OP_GET_SYNC
          then (Inl (LocalProtocolError ''need to send GET_SYNC before sending more commands''), p)
          else (case command_to_bytes c of
                  Inl e \<Rightarrow> (Inl e, p)
                | Inr bs \<Rightarrow> (Inr bs, start_waiting_for_response (response_length c) p))
      | _ \<Rightarrow> (Inl (LocalProtocolError ''event cannot be sent''), p))"

definition send_failed :: "protocol \<Rightarrow> protocol" where
  "send_failed p = p\<lparr>pr_state := PS_ERROR\<rparr>"

text \<open>The bytes received and not yet reported, in order.\<close>

definition held_bytes :: "protocol \<Rightarrow> bytes" where
  "held_bytes p = pr_payload p @ pr_buffer p"

section \<open>The invariant between the fields\<close>

definition protocol_inv :: "protocol \<Rightarrow> bool" where
  "protocol_inv p \<longleftrightarrow>
     (pr_state p \<in> {PS_WAIT_RESPONSE_LENGTH, PS_WAIT_RESPONSE, PS_WAIT_SYNC} \<longrightarrow> pr_bytes_expected p > 0)
     \<and> (pr_state p = PS_WAIT_RESPONSE_LENGTH \<longrightarrow> pr_bytes_expected p = 4)
     \<and> (pr_state p \<in> {PS_WAIT_RESPONSE_LENGTH, PS_WAIT_RESPONSE, PS_IN_SYNC} \<longrightarrow> pr_payload p = [])"

lemmas protocol_op_defs = reset_def feed_def send_failed_def move_to_in_sync_state_def
  start_waiting_for_sync_def start_waiting_for_response_def in_sync_def

lemma protocol_inv_init: "protocol_inv Protocol"
  by (simp add: protocol_inv_def Protocol_def reset_def)

lemma protocol_inv_reset: "protocol_inv (reset p)"
  by (simp add: protocol_inv_def reset_def)

lemma protocol_inv_send_failed: "protocol_inv (send_failed p)"
  by (simp add: protocol_inv_def send_failed_def)

lemma protocol_inv_feed: "protocol_inv p \<Longrightarrow> protocol_inv (snd (feed data p))"
  by (auto simp: protocol_inv_def feed_def)

lemma protocol_inv_start_response: "protocol_inv (start_waiting_for_response n p)"
  by (simp add: protocol_inv_def protocol_op_defs)

lemma protocol_inv_send: "protocol_inv p \<Longrightarrow> protocol_inv (snd (send ev p))"
  by (auto simp: send_def protocol_inv_start_response split: event.splits sum.splits)

lemma protocol_inv_in_sync: "protocol_inv (move_to_in_sync_state p)"
  by (simp add: protocol_inv_def move_to_in_sync_state_def)

lemma protocol_inv_purge:
  assumes "purge_excess_data n p = (e, p')" and "protocol_inv p"
  shows "protocol_inv p'"
proof -
  have "p' = p \<or> (\<exists>b. p' = p\<lparr>pr_buffer := b, pr_payload := []\<rparr>)"
    using assms(1) unfolding purge_excess_data_def Let_def by (metis snd_conv)
  with assms(2) show ?thesis by (elim disjE exE) (simp_all add: protocol_inv_def)
qed

section \<open>What the synchronisation stage can do\<close>

lemma code_is_response:
  assumes "code \<in> set accepted_codes"
  obtains t where "t \<noteq> RT_BAD_SILICON_REV" "code = opcode_value (response_type_opcode t)"
proof -
  have "\<exists>t. t \<noteq> RT_BAD_SILICON_REV \<and> code = opcode_value (response_type_opcode t)"
    using assms by (auto simp: accepted_codes_def intro: exI [of _ RT_OK] exI [of _ RT_FAILED] exI [of _ RT_INVALID])
  then show ?thesis using that by blast
qed

lemma sync_marker_at_front:
  "bytes_find m buf = 0 \<Longrightarrow> \<not> length buf < 2 \<Longrightarrow> buf = m # buf ! 1 # drop 2 buf"
  by (cases buf; cases "tl buf") (auto simp: Let_def split: if_splits)

lemma purge_nonempty:
  assumes "pr_buffer p \<noteq> []" and "n = None \<or> (\<exists>k > 0. n = Some k)"
  obtains d p' where "purge_excess_data n p = (Some (ExcessData d), p')" "d \<noteq> []"
  using assms by (auto simp: purge_excess_data_def Let_def)

lemma next_event_sync_cases [consumes 1, case_names assert need excess none response]:
  assumes ev: "next_event_sync p = (r, p')"
  obtains "pr_state p = PS_WAIT_SYNC" "\<not> pr_bytes_expected p > 0" "r = Inl AssertionError" "p' = p"
  | "pr_state p = PS_WAIT_SYNC" "r = Inr (Some NeedMoreData)" "p' = p"
    "pr_buffer p = [] \<or> pr_buffer p = [opcode_value OP_IN_SYNC]"
  | n d where "purge_excess_data n p = (Some (ExcessData d), p')" "r = Inr (Some (ExcessData d))"
    "d \<noteq> []"
  | "pr_state p \<noteq> PS_WAIT_SYNC" "held_bytes p = []" "r = Inr None" "p' = p"
  | t rest where "pr_state p = PS_WAIT_SYNC" "t \<noteq> RT_BAD_SILICON_REV"
    "pr_buffer p = opcode_value OP_IN_SYNC # opcode_value (response_type_opcode t) # rest"
    "r = Inr (Some (ResponseEvent (Response t (pr_payload p))))"
    "p' = move_to_in_sync_state (p\<lparr>pr_buffer := rest\<rparr>)"
proof (cases "pr_state p = PS_WAIT_SYNC \<and> pr_bytes_expected p > 0 \<and> pr_buffer p \<noteq> []")
  case False
  show ?thesis
  proof (cases "pr_state p = PS_WAIT_SYNC")
    case True
    with False ev show ?thesis by (auto simp: next_event_sync_def split: if_splits intro: that(1,2))
  next
    case other: False
    show ?thesis
    proof (cases "held_bytes p = []")
      case True
      with ev other show ?thesis
        by (intro that(4)) (auto simp: next_event_sync_def purge_excess_data_def held_bytes_def)
    next
      case False
      with ev other show ?thesis
        by (intro that(3) [of None]) (auto simp: next_event_sync_def purge_excess_data_def held_bytes_def)
    qed
  qed
next
  case True
  let ?i = "bytes_find (opcode_value OP_IN_SYNC) (pr_buffer p)"
  consider "?i > 0" | "?i < 0" | "?i = 0" by linarith
  then show ?thesis
  proof cases
    case 1
    obtain d q where q: "purge_excess_data (Some (nat ?i)) p = (Some (ExcessData d), q)" "d \<noteq> []"
      using True 1 purge_nonempty [of p "Some (nat ?i)"] by (metis zero_less_nat_eq)
    with True 1 ev have "r = Inr (Some (ExcessData d))" "p' = q"
      by (auto simp: next_event_sync_def Let_def)
    with q show ?thesis by (intro that(3) [of "Some (nat ?i)" d]) simp_all
  next
    case 2
    obtain d q where q: "purge_excess_data None p = (Some (ExcessData d), q)" "d \<noteq> []"
      using True purge_nonempty [of p None] by metis
    with True 2 ev have "r = Inr (Some (ExcessData d))" "p' = q"
      by (auto simp: next_event_sync_def Let_def)
    with q show ?thesis by (intro that(3) [of "None" d]) simp_all
  next
    case 3
    show ?thesis
    proof (cases "length (pr_buffer p) < 2")
      case short: True
      with 3 True have "pr_buffer p = [opcode_value OP_IN_SYNC]"
        by (cases "pr_buffer p") (auto simp: Let_def split: if_splits)
      with 3 True ev show ?thesis by (intro that(2)) (auto simp: next_event_sync_def)
    next
      case long: False
      let ?code = "pr_buffer p ! 1"
      have buf: "pr_buffer p = opcode_value OP_IN_SYNC # ?code # drop 2 (pr_buffer p)"
        using 3 long by (rule sync_marker_at_front)
      show ?thesis
      proof (cases "?code \<in> set accepted_codes")
        case resp: True
        then obtain t where t: "t \<noteq> RT_BAD_SILICON_REV" "?code = opcode_value (response_type_opcode t)"
          by (rule code_is_response)
        have "next_event_sync p =
            (map_sum id (\<lambda>r. Some (ResponseEvent r)) (Response_from_opcode ?code (pr_payload p)),
             move_to_in_sync_state (p\<lparr>pr_buffer := drop 2 (pr_buffer p)\<rparr>))"
          using 3 True long resp by (simp add: next_event_sync_def Let_def)
        with t(2) ev have
          "r = Inr (Some (ResponseEvent (Response t (pr_payload p))))"
          "p' = move_to_in_sync_state (p\<lparr>pr_buffer := drop 2 (pr_buffer p)\<rparr>)"
          by (simp_all add: Response_from_opcode_def)
        with True t buf show ?thesis by (intro that(5)) auto
      next
        case False
        obtain d q where q: "purge_excess_data (Some 2) p = (Some (ExcessData d), q)" "d \<noteq> []"
          using True purge_nonempty [of p "Some 2"] by (metis zero_less_numeral)
        with 3 True long False ev have "r = Inr (Some (ExcessData d))" "p' = q"
          by (auto simp: next_event_sync_def Let_def)
        with q show ?thesis by (intro that(3) [of "Some 2" d]) simp_all
      qed
    qed
  qed
qed

section \<open>The invariant is kept and nothing raises\<close>

lemma next_event_sync_inv:
  assumes "protocol_inv p" and "next_event_sync p = (r, p')"
  shows "protocol_inv p' \<and> (\<exists>e. r = Inr e)"
  using assms(2)
proof (cases rule: next_event_sync_cases)
  case assert
  with assms(1) show ?thesis by (simp add: protocol_inv_def)
next
  case (excess n d)
  with assms(1) show ?thesis by (simp add: protocol_inv_purge)
qed (use assms(1) in \<open>simp_all add: protocol_inv_in_sync\<close>)

lemma next_event_response_inv:
  assumes "protocol_inv p" and "next_event_response p = (r, p')"
  shows "protocol_inv p' \<and> (\<exists>e. r = Inr e)"
proof (cases "pr_state p = PS_WAIT_RESPONSE")
  case True
  have "protocol_inv (start_waiting_for_sync q)" for q
    by (simp add: protocol_inv_def start_waiting_for_sync_def)
  moreover have "pr_bytes_expected p > 0" using True assms(1) by (simp add: protocol_inv_def)
  ultimately show ?thesis using True assms
    by (auto simp: next_event_response_def split: if_splits dest: next_event_sync_inv [rotated])
next
  case False
  with assms show ?thesis by (simp add: next_event_response_def next_event_sync_inv)
qed

lemma next_event_inv:
  assumes "protocol_inv p" and "next_event p = (r, p')"
  shows "protocol_inv p' \<and> (\<exists>e. r = Inr e)"
proof (cases "pr_state p = PS_WAIT_RESPONSE_LENGTH")
  case True
  moreover have "pr_bytes_expected p > 0" using True assms(1) by (simp add: protocol_inv_def)
  ultimately show ?thesis using assms
    by (auto simp: next_event_def next_event_length_def split: if_splits
        dest: next_event_response_inv [OF protocol_inv_start_response])
next
  case False
  with assms show ?thesis
    by (auto simp: next_event_def next_event_length_def next_event_response_inv split: if_splits)
qed

section \<open>Reachable states\<close>

datatype protocol_op = Feed bytes | NextEvent | Send event | SendFailed | Reset

fun protocol_exec :: "protocol_op \<Rightarrow> protocol \<Rightarrow> protocol" where
  "protocol_exec (Feed data) p = snd (feed data p)"
| "protocol_exec NextEvent p = snd (next_event p)"
| "protocol_exec (Send ev) p = snd (send ev p)"
| "protocol_exec SendFailed p = send_failed p"
| "protocol_exec Reset p = reset p"

inductive protocol_reachable :: "protocol \<Rightarrow> bool" where
  init: "protocol_reachable Protocol"
| exec: "protocol_reachable p \<Longrightarrow> protocol_reachable (protocol_exec op p)"

lemma protocol_inv_exec: "protocol_inv p \<Longrightarrow> protocol_inv (protocol_exec op p)"
  using next_event_inv [of p]
  by (cases op) (auto intro: protocol_inv_feed protocol_inv_send
      protocol_inv_send_failed protocol_inv_reset simp: prod_eq_iff)

lemma protocol_reachable_inv: "protocol_reachable p \<Longrightarrow> protocol_inv p"
  by (induction rule: protocol_reachable.induct) (auto intro: protocol_inv_init protocol_inv_exec)

section \<open>Conservation of received bytes\<close>

text \<open>The bytes that an event reports, in the order they were received.\<close>

fun event_bytes :: "event option \<Rightarrow> bytes" where
  "event_bytes (Some (ExcessData d)) = d"
| "event_bytes (Some (ResponseEvent r)) =
     resp_payload r @ [opcode_value OP_IN_SYNC, opcode_value (response_type_opcode (resp_type r))]"
| "event_bytes _ = []"

lemma purge_conserves:
  "purge_excess_data n p = (e, p') \<Longrightarrow> held_bytes p = event_bytes e @ held_bytes p'"
  by (auto simp: purge_excess_data_def held_bytes_def Let_def split: if_splits)

lemma next_event_sync_conserves:
  assumes "next_event_sync p = (Inr e, p')"
  shows "held_bytes p = event_bytes e @ held_bytes p'"
  using assms
proof (cases rule: next_event_sync_cases)
  case (excess n d)
  then show ?thesis using purge_conserves by simp
qed (simp_all add: held_bytes_def move_to_in_sync_state_def)

lemma next_event_response_conserves:
  assumes "protocol_inv p" "next_event_response p = (Inr e, p')"
  shows "held_bytes p = event_bytes e @ held_bytes p'"
proof (cases "pr_state p = PS_WAIT_RESPONSE \<and> \<not> int (length (pr_buffer p)) < pr_bytes_expected p")
  case True
  let ?q = "start_waiting_for_sync
     (p\<lparr>pr_buffer := drop (nat (pr_bytes_expected p)) (pr_buffer p),
        pr_payload := take (nat (pr_bytes_expected p)) (pr_buffer p)\<rparr>)"
  from True assms have "next_event_sync ?q = (Inr e, p')"
    by (auto simp: next_event_response_def split: if_splits)
  then have "held_bytes ?q = event_bytes e @ held_bytes p'" by (rule next_event_sync_conserves)
  with True assms(1) show ?thesis
    by (simp add: held_bytes_def start_waiting_for_sync_def protocol_inv_def)
next
  case False
  with assms show ?thesis
    by (auto simp: next_event_response_def next_event_sync_conserves split: if_splits)
qed

text \<open>The length prefix of a variable-length answer is consumed without being reported.\<close>

definition length_prefix :: "protocol \<Rightarrow> bytes" where
  "length_prefix p = (if pr_state p = PS_WAIT_RESPONSE_LENGTH \<and> 4 \<le> length (pr_buffer p)
     then take 4 (pr_buffer p) else [])"

lemma start_waiting_for_response_held:
  "pr_payload p = [] \<Longrightarrow> held_bytes (start_waiting_for_response n p) = pr_buffer p"
  by (simp add: held_bytes_def protocol_op_defs)

lemma next_event_conserves:
  assumes inv: "protocol_inv p" and ev: "next_event p = (Inr e, p')"
  shows "held_bytes p = length_prefix p @ event_bytes e @ held_bytes p'"
proof (cases "pr_state p = PS_WAIT_RESPONSE_LENGTH \<and> 4 \<le> length (pr_buffer p)")
  case True
  let ?q = "start_waiting_for_response (from_bytes_le (take 4 (pr_buffer p)))
     (p\<lparr>pr_buffer := drop 4 (pr_buffer p)\<rparr>)"
  from True inv have p: "pr_bytes_expected p = 4" "pr_payload p = []" "pr_buffer p \<noteq> []"
    by (auto simp: protocol_inv_def)
  from True p ev have "next_event_response ?q = (Inr e, p')"
    by (auto simp: next_event_def next_event_length_def)
  then have "held_bytes ?q = event_bytes e @ held_bytes p'"
    by (rule next_event_response_conserves [OF protocol_inv_start_response])
  moreover have "held_bytes ?q = drop 4 (pr_buffer p)"
    using p by (simp add: start_waiting_for_response_held)
  moreover have "held_bytes p = take 4 (pr_buffer p) @ drop 4 (pr_buffer p)"
    using p by (simp add: held_bytes_def)
  ultimately show ?thesis using True by (simp add: length_prefix_def)
next
  case False
  then have prefix: "length_prefix p = []" by (auto simp: length_prefix_def)
  show ?thesis
  proof (cases "pr_state p = PS_WAIT_RESPONSE_LENGTH \<or> pr_buffer p = [] \<and> pr_buffer_closed p")
    case True
    then have "p' = p \<and> event_bytes e = []"
      using inv ev False by (auto simp: protocol_inv_def next_event_def next_event_length_def split: if_splits)
    with prefix show ?thesis by simp
  next
    case False
    with ev have "next_event_response p = (Inr e, p')"
      by (auto simp: next_event_def next_event_length_def)
    with prefix show ?thesis using next_event_response_conserves [OF inv] by simp
  qed
qed

section \<open>Reassembly of a response from any fragmentation\<close>

text \<open>The transport delivers a chunk, the caller asks for the next event.\<close>

definition poll :: "bytes \<Rightarrow> protocol \<Rightarrow> event option result \<times> protocol" where
  "poll chunk p = (let (_, p1) = feed chunk p in next_event p1)"

fun poll_all :: "bytes list \<Rightarrow> protocol \<Rightarrow> event option result list \<times> protocol" where
  "poll_all [] p = ([], p)"
| "poll_all (c # cs) p = (let (r, p1) = poll c p; (rs, p2) = poll_all cs p1 in (r # rs, p2))"

text \<open>A response on the wire: length prefix (for a negative \<open>k\<close>), payload, sync marker, code.\<close>

definition response_frame :: "int \<Rightarrow> response \<Rightarrow> bytes" where
  "response_frame k r =
     (if k < 0 then le_digits 4 (int (length (resp_payload r))) else []) @ resp_payload r
     @ [opcode_value OP_IN_SYNC, opcode_value (response_type_opcode (resp_type r))]"

definition fits_frame :: "int \<Rightarrow> response \<Rightarrow> bool" where
  "fits_frame k r \<longleftrightarrow> resp_type r \<noteq> RT_BAD_SILICON_REV \<and>
     (if k < 0 then int (length (resp_payload r)) < 2 ^ 32 else int (length (resp_payload r)) = k)"

text \<open>The machine with \<open>pre\<close> received of a frame with payload length \<open>n\<close>.\<close>

definition partly_received :: "nat \<Rightarrow> bytes \<Rightarrow> protocol" where
  "partly_received n pre =
     (if length pre < n
      then \<lparr>pr_buffer = pre, pr_buffer_closed = False, pr_payload = [],
             pr_state = PS_WAIT_RESPONSE, pr_bytes_expected = int n\<rparr>
      else \<lparr>pr_buffer = drop n pre, pr_buffer_closed = False, pr_payload = take n pre,
             pr_state = PS_WAIT_SYNC, pr_bytes_expected = 2\<rparr>)"

definition synced :: protocol where
  "synced = \<lparr>pr_buffer = [], pr_buffer_closed = False, pr_payload = [],
     pr_state = PS_IN_SYNC, pr_bytes_expected = 0\<rparr>"

lemma sync_stage_partial:
  assumes "pr_state p = PS_WAIT_SYNC" "pr_bytes_expected p = 2"
    and "pr_buffer p = [] \<or> pr_buffer p = [opcode_value OP_IN_SYNC]"
  shows "next_event_sync p = (Inr (Some NeedMoreData), p)"
  using assms by (auto simp: next_event_sync_def)

lemma sync_stage_complete:
  assumes "pr_state p = PS_WAIT_SYNC" "pr_bytes_expected p = 2" "t \<noteq> RT_BAD_SILICON_REV"
    and "pr_buffer p = opcode_value OP_IN_SYNC # opcode_value (response_type_opcode t) # rest"
  shows "next_event_sync p = (Inr (Some (ResponseEvent (Response t (pr_payload p)))),
     move_to_in_sync_state (p\<lparr>pr_buffer := rest\<rparr>))"
proof -
  have "opcode_value (response_type_opcode t) \<in> set accepted_codes"
    using assms(3) by (cases t) (simp_all add: accepted_codes_def)
  then show ?thesis using assms(1,2,4)
    by (simp add: next_event_sync_def Let_def Response_from_opcode_def del: opcode_value.simps)
qed

lemma two_bytes_prefix:
  "t @ u = [a, b] \<Longrightarrow> u \<noteq> [] \<Longrightarrow> t = [] \<or> t = [a]"
  by (cases t; cases "tl t") auto

text \<open>Both waiting states, once the bytes \<open>pre\<close> are there.\<close>

lemma response_stage_step:
  assumes q: "q = \<lparr>pr_buffer = pre, pr_buffer_closed = False, pr_payload = [],
         pr_state = PS_WAIT_RESPONSE, pr_bytes_expected = int n\<rparr> \<and> 0 < n
      \<or> q = \<lparr>pr_buffer = drop n pre, pr_buffer_closed = False, pr_payload = take n pre,
         pr_state = PS_WAIT_SYNC, pr_bytes_expected = 2\<rparr> \<and> n \<le> length pre"
    and t: "t \<noteq> RT_BAD_SILICON_REV"
    and pre: "payload @ [opcode_value OP_IN_SYNC, opcode_value (response_type_opcode t)] = pre @ suf"
    and n: "length payload = n"
  shows "next_event_response q =
    (if suf = [] then (Inr (Some (ResponseEvent (Response t payload))), synced)
     else (Inr (Some NeedMoreData), partly_received n pre))"
proof (cases "length pre < n")
  case True
  with q pre n have "q = partly_received n pre" "suf \<noteq> []"
    by (auto simp: partly_received_def dest: arg_cong [where f = length])
  with True show ?thesis by (auto simp: next_event_response_def partly_received_def)
next
  case False
  let ?w = "\<lparr>pr_buffer = drop n pre, pr_buffer_closed = False, pr_payload = payload,
     pr_state = PS_WAIT_SYNC, pr_bytes_expected = 2\<rparr>"
  let ?tail = "[opcode_value OP_IN_SYNC, opcode_value (response_type_opcode t)]"
  have split: "take n pre = payload" "drop n pre @ suf = ?tail"
    using False n arg_cong [OF pre, of "take n"] arg_cong [OF pre, of "drop n"] by simp_all
  have "next_event_response q = next_event_sync ?w"
    using q False split(1) by (auto simp: next_event_response_def start_waiting_for_sync_def)
  moreover have "partly_received n pre = ?w" using False split(1) by (simp add: partly_received_def)
  moreover have "next_event_sync ?w = (Inr (Some (ResponseEvent (Response t payload))), synced)"
    if "suf = []"
    using sync_stage_complete [of ?w t "[]"] that split(2) t
    by (simp add: synced_def move_to_in_sync_state_def)
  moreover have "next_event_sync ?w = (Inr (Some NeedMoreData), ?w)" if "suf \<noteq> []"
    using two_bytes_prefix [OF split(2) that] by (intro sync_stage_partial) auto
  ultimately show ?thesis by simp
qed

text \<open>The machine with \<open>pre\<close> received of the answer to a command with \<open>response_length\<close> \<open>k\<close>.\<close>

definition awaiting :: "int \<Rightarrow> bytes \<Rightarrow> protocol" where
  "awaiting k pre =
     (if k < 0 then
        if length pre < 4
        then \<lparr>pr_buffer = pre, pr_buffer_closed = False, pr_payload = [],
               pr_state = PS_WAIT_RESPONSE_LENGTH, pr_bytes_expected = 4\<rparr>
        else partly_received (nat (from_bytes_le (take 4 pre))) (drop 4 pre)
      else partly_received (nat k) pre)"

lemma awaiting_start:
  "pr_buffer p = [] \<Longrightarrow> \<not> pr_buffer_closed p \<Longrightarrow> pr_payload p = [] \<Longrightarrow>
   start_waiting_for_response k p = awaiting k []"
  by (cases p) (auto simp: awaiting_def partly_received_def protocol_op_defs)

lemma poll_partly_received:
  assumes t: "t \<noteq> RT_BAD_SILICON_REV" and n: "length payload = n"
    and pre: "payload @ [opcode_value OP_IN_SYNC, opcode_value (response_type_opcode t)]
      = pre @ chunk @ suf" and "chunk \<noteq> []"
  shows "poll chunk (partly_received n pre) =
    (if suf = [] then (Inr (Some (ResponseEvent (Response t payload))), synced)
     else (Inr (Some NeedMoreData), partly_received n (pre @ chunk)))"
proof -
  let ?q = "(partly_received n pre)\<lparr>pr_buffer := pr_buffer (partly_received n pre) @ chunk\<rparr>"
  have "poll chunk (partly_received n pre) = next_event_response ?q"
    using \<open>chunk \<noteq> []\<close>
    by (auto simp: poll_def feed_def next_event_def next_event_length_def partly_received_def)
  moreover have "?q = \<lparr>pr_buffer = pre @ chunk, pr_buffer_closed = False, pr_payload = [],
         pr_state = PS_WAIT_RESPONSE, pr_bytes_expected = int n\<rparr> \<and> 0 < n
      \<or> ?q = \<lparr>pr_buffer = drop n (pre @ chunk), pr_buffer_closed = False, pr_payload = take n (pre @ chunk),
         pr_state = PS_WAIT_SYNC, pr_bytes_expected = 2\<rparr> \<and> n \<le> length (pre @ chunk)"
    by (auto simp: partly_received_def)
  ultimately show ?thesis using response_stage_step [OF _ t _ n, of ?q "pre @ chunk" suf] pre by simp
qed

lemma poll_awaiting_prefix:
  assumes t: "t \<noteq> RT_BAD_SILICON_REV" and n: "length payload = n" "int n < 2 ^ 32" and k: "k < 0"
    and pre: "le_digits 4 (int n) @ payload @
      [opcode_value OP_IN_SYNC, opcode_value (response_type_opcode t)] = pre @ chunk @ suf"
    and short: "length pre < 4" and chunk: "chunk \<noteq> []"
  shows "poll chunk (awaiting k pre) =
    (if suf = [] then (Inr (Some (ResponseEvent (Response t payload))), synced)
     else (Inr (Some NeedMoreData), awaiting k (pre @ chunk)))"
proof (cases "length (pre @ chunk) < 4")
  case True
  with pre have "suf \<noteq> []" by (auto dest: arg_cong [where f = length])
  with True short chunk k show ?thesis
    by (simp add: poll_def feed_def awaiting_def next_event_def next_event_length_def)
next
  case False
  let ?b = "pre @ chunk"
  have head: "take 4 ?b = le_digits 4 (int n)" and tail: "payload @
      [opcode_value OP_IN_SYNC, opcode_value (response_type_opcode t)] = drop 4 ?b @ suf"
    using False arg_cong [OF pre, of "take 4"] arg_cong [OF pre, of "drop 4"] by simp_all
  have len: "from_bytes_le (take 4 ?b) = int n"
    using n(2) by (simp only: head codec_simps) simp
  let ?q = "start_waiting_for_response (int n) \<lparr>pr_buffer = drop 4 ?b, pr_buffer_closed = False,
     pr_payload = [], pr_state = PS_WAIT_RESPONSE_LENGTH, pr_bytes_expected = 4\<rparr>"
  have "poll chunk (awaiting k pre) = next_event_response ?q"
    using short chunk k False len
    by (simp add: poll_def feed_def awaiting_def next_event_def next_event_length_def)
  moreover have "awaiting k ?b = partly_received n (drop 4 ?b)"
    using k False len by (simp add: awaiting_def)
  ultimately show ?thesis
    using response_stage_step [OF _ t tail n(1), of ?q]
    by (cases "n = 0") (auto simp: protocol_op_defs)
qed

lemma poll_awaiting:
  assumes fits: "fits_frame k r" and pre: "response_frame k r = pre @ chunk @ suf"
    and chunk: "chunk \<noteq> []"
  shows "poll chunk (awaiting k pre) =
    (if suf = [] then (Inr (Some (ResponseEvent r)), synced)
     else (Inr (Some NeedMoreData), awaiting k (pre @ chunk)))"
proof -
  obtain t payload where r: "r = Response t payload" by (cases r) (auto simp: Response_def)
  let ?n = "length payload"
  let ?tail = "payload @ [opcode_value OP_IN_SYNC, opcode_value (response_type_opcode t)]"
  from fits r have t: "t \<noteq> RT_BAD_SILICON_REV" by (simp add: fits_frame_def)
  show ?thesis
  proof (cases "k < 0")
    case False
    with fits pre r have k: "k = int ?n" and "?tail = pre @ chunk @ suf"
      by (simp_all add: fits_frame_def response_frame_def)
    with poll_partly_received [OF t refl _ chunk] r show ?thesis by (simp add: awaiting_def)
  next
    case True
    with fits pre r have n: "int ?n < 2 ^ 32" and frame: "le_digits 4 (int ?n) @ ?tail = pre @ chunk @ suf"
      by (simp_all add: fits_frame_def response_frame_def)
    show ?thesis
    proof (cases "length pre < 4")
      case short: True
      with poll_awaiting_prefix [OF t refl n True frame short chunk] r show ?thesis by simp
    next
      case long: False
      have head: "take 4 pre = le_digits 4 (int ?n)" and tail: "?tail = drop 4 pre @ chunk @ suf"
        using long arg_cong [OF frame, of "take 4"] arg_cong [OF frame, of "drop 4"] by simp_all
      have len: "from_bytes_le (take 4 pre) = int ?n" using n by (simp only: head codec_simps) simp
      have "awaiting k (pre @ bs) = partly_received ?n (drop 4 pre @ bs)" for bs
        using True long len by (simp add: awaiting_def)
      from this [of "[]"] this [of chunk] show ?thesis
        using poll_partly_received [OF t refl tail chunk] r by simp
    qed
  qed
qed

lemma poll_all_awaiting:
  "fits_frame k r \<Longrightarrow> response_frame k r = pre @ concat chunks \<Longrightarrow> [] \<notin> set chunks \<Longrightarrow> chunks \<noteq> [] \<Longrightarrow>
   poll_all chunks (awaiting k pre) =
     (replicate (length chunks - 1) (Inr (Some NeedMoreData)) @ [Inr (Some (ResponseEvent r))], synced)"
proof (induction chunks arbitrary: pre)
  case (Cons c cs)
  from Cons.prems have step: "poll c (awaiting k pre) =
    (if concat cs = [] then (Inr (Some (ResponseEvent r)), synced)
     else (Inr (Some NeedMoreData), awaiting k (pre @ c)))"
    by (intro poll_awaiting) auto
  show ?case
  proof (cases cs)
    case Nil
    with step show ?thesis by simp
  next
    case (Cons c' cs')
    with Cons.prems have cs: "concat cs \<noteq> []" "[] \<notin> set cs" "cs \<noteq> []" by auto
    then have "poll c (awaiting k pre) = (Inr (Some NeedMoreData), awaiting k (pre @ c))"
      using step by simp
    moreover have "poll_all cs (awaiting k (pre @ c)) =
        (replicate (length cs - 1) (Inr (Some NeedMoreData)) @ [Inr (Some (ResponseEvent r))], synced)"
      using cs Cons.prems by (intro Cons.IH) simp_all
    moreover have "length cs = Suc (length cs - 1)" using cs(3) by (cases cs) simp_all
    ultimately show ?thesis by (simp add: replicate_Suc [symmetric] del: replicate_Suc)
  qed
qed simp

section \<open>Sending\<close>

lemma send_command_ok:
  assumes "in_sync p \<or> cmd_type c = OP_GET_SYNC" and "command_to_bytes c = Inr bs"
  shows "send (CommandEvent c) p = (Inr bs, start_waiting_for_response (response_length c) p)"
  using assms by (auto simp: send_def)

lemma purge_state: "purge_excess_data n p = (e, p') \<Longrightarrow> pr_state p' = pr_state p"
  by (auto simp: purge_excess_data_def Let_def split: if_splits)

lemma next_event_sync_syncs:
  "next_event_sync p = (r, p') \<Longrightarrow> \<not> in_sync p \<Longrightarrow> in_sync p' \<Longrightarrow> \<exists>x. r = Inr (Some (ResponseEvent x))"
  by (erule next_event_sync_cases) (auto simp: in_sync_def dest: purge_state)

lemma next_event_response_syncs:
  assumes "next_event_response p = (r, p')" "\<not> in_sync p" "in_sync p'"
  shows "\<exists>x. r = Inr (Some (ResponseEvent x))"
proof (rule ccontr)
  assume none: "\<nexists>x. r = Inr (Some (ResponseEvent x))"
  have "next_event_sync q \<noteq> (r, p')" if "\<not> in_sync q" for q
    using next_event_sync_syncs [of q r p'] that assms(3) none by blast
  with assms show False
    by (auto simp: next_event_response_def in_sync_def start_waiting_for_sync_def split: if_splits)
qed

lemma next_event_syncs:
  assumes "next_event p = (r, p')" "\<not> in_sync p" "in_sync p'"
  shows "\<exists>x. r = Inr (Some (ResponseEvent x))"
proof (rule ccontr)
  assume none: "\<nexists>x. r = Inr (Some (ResponseEvent x))"
  have "next_event_response q \<noteq> (r, p')" if "\<not> in_sync q" for q
    using next_event_response_syncs [of q r p'] that assms(3) none by blast
  moreover have "\<not> in_sync (start_waiting_for_response n q)" for n q
    by (simp add: protocol_op_defs)
  ultimately show False using assms
    by (auto simp: next_event_def next_event_length_def split: if_splits)
qed

section \<open>Properties\<close>

text \<open>C22. No call sequence on a fresh \<open>Protocol\<close> object (feeding bytes, polling, sending, failing to
  send, resetting, in any order) can make \<open>next_event\<close> raise: its assertions on
  \<open>_bytes_expected\<close> always hold and the response code it decodes is always a known one.\<close>

theorem next_event_never_raises:
  assumes "protocol_reachable p"
  shows "\<exists>ev. fst (next_event p) = Inr ev"
  using next_event_inv [OF protocol_reachable_inv [OF assms]] by (simp add: prod_eq_iff)

lemma next_event_never_raises_witness:
  "\<exists>ev. fst (next_event (protocol_exec (Feed [1]) Protocol)) = Inr ev"
  by (rule next_event_never_raises) (intro protocol_reachable.intros)

text \<open>C21. Byte conservation: in every reachable state, what the machine holds before \<open>next_event\<close>
  (the pending payload, then the buffer) is exactly the consumed length prefix, if any, then the
  bytes the event reports, then what it holds afterwards: no received byte is lost, duplicated
  or reordered.\<close>

theorem next_event_conserves_bytes:
  assumes "protocol_reachable p" and "next_event p = (Inr e, p')"
  shows "held_bytes p = length_prefix p @ event_bytes e @ held_bytes p'"
  using assms by (intro next_event_conserves protocol_reachable_inv)

lemma next_event_conserves_bytes_witness:
  "held_bytes (protocol_exec (Feed [1]) Protocol) =
     length_prefix (protocol_exec (Feed [1]) Protocol) @ event_bytes (Some (ExcessData [1])) @
     held_bytes Protocol"
proof (rule next_event_conserves_bytes)
  show "protocol_reachable (protocol_exec (Feed [1]) Protocol)"
    by (intro protocol_reachable.intros)
  show "next_event (protocol_exec (Feed [1]) Protocol) = (Inr (Some (ExcessData [1])), Protocol)"
    by (simp add: Protocol_def reset_def feed_def next_event_def next_event_length_def
        next_event_response_def next_event_sync_def purge_excess_data_def)
qed

text \<open>C2. Reassembly: after a command is sent from a clean synchronised state, its answer is
  reported as one \<open>Response\<close> however the transport fragments it. Every poll before the last
  chunk asks for more data, the last one returns the response, and the machine is back in sync
  with nothing left over. Covers fixed-length, empty and length-prefixed answers.\<close>

theorem response_reassembled:
  assumes "command_to_bytes c = Inr bs" and "fits_frame (response_length c) r"
    and "concat chunks = response_frame (response_length c) r" and "[] \<notin> set chunks"
  shows "poll_all chunks (snd (send (CommandEvent c) synced)) =
    (replicate (length chunks - 1) (Inr (Some NeedMoreData)) @ [Inr (Some (ResponseEvent r))], synced)"
proof -
  have "snd (send (CommandEvent c) synced) = awaiting (response_length c) []"
    using assms(1) by (simp add: send_command_ok in_sync_def synced_def awaiting_start)
  moreover have "chunks \<noteq> []" using assms(3) by (auto simp: response_frame_def)
  ultimately show ?thesis using poll_all_awaiting [of "response_length c" r "[]" chunks] assms by simp
qed

lemma response_reassembled_witness:
  "poll_all [[14], [0, 0], [0, 1, 2], [3, 4, 5, 6, 7, 8, 9, 10, 11, 12, 13, 14, 0x12], [0x10]]
     (snd (send (CommandEvent Command_get_chip_description) synced)) =
   (replicate 4 (Inr (Some NeedMoreData)) @
      [Inr (Some (ResponseEvent (Response_success [1, 2, 3, 4, 5, 6, 7, 8, 9, 10, 11, 12, 13, 14])))], synced)"
  using response_reassembled [of Command_get_chip_description "[0x2E, 0x20]"
      "Response_success [1, 2, 3, 4, 5, 6, 7, 8, 9, 10, 11, 12, 13, 14]"
      "[[14], [0, 0], [0, 1, 2], [3, 4, 5, 6, 7, 8, 9, 10, 11, 12, 13, 14, 0x12], [0x10]]"]
  by (simp add: Command_get_chip_description_def command_to_bytes_def payload_length_def
      response_length_def fits_frame_def response_frame_def Response_success_def eval_nat_numeral)

text \<open>C23. The sync guard: while the machine is out of sync it encodes no command but \<open>GET_SYNC\<close>, and
  no operation brings it back in sync except a \<open>next_event\<close> that returns a \<open>Response\<close>; so after an
  error, a reset or excess data nothing is sent to the device before it has answered a sync request.\<close>

theorem sync_regained_only_by_response:
  assumes "\<not> in_sync p"
  shows "(\<forall>c bs q. send (CommandEvent c) p = (Inr bs, q) \<longrightarrow> cmd_type c = OP_GET_SYNC) \<and>
    (\<forall>op. in_sync (protocol_exec op p) \<longrightarrow>
       op = NextEvent \<and> (\<exists>r. fst (next_event p) = Inr (Some (ResponseEvent r))))"
proof (intro conjI allI impI)
  fix c bs q assume "send (CommandEvent c) p = (Inr bs, q)"
  then show "cmd_type c = OP_GET_SYNC" using assms by (auto simp: send_def split: if_splits)
next
  fix op assume sync: "in_sync (protocol_exec op p)"
  show "op = NextEvent" using sync assms
    by (cases op) (auto simp: send_def protocol_op_defs split: event.splits sum.splits if_splits)
  with sync show "\<exists>r. fst (next_event p) = Inr (Some (ResponseEvent r))"
    using next_event_syncs [of p] assms by (auto simp: prod_eq_iff)
qed

lemma sync_regained_only_by_response_witness:
  "(\<nexists>bs q. send (CommandEvent Command_get_crc) Protocol = (Inr bs, q))
    \<and> \<not> in_sync (protocol_exec (Feed [0x12, 0x10]) Protocol)"
proof -
  have "\<not> in_sync Protocol" by (simp add: in_sync_def Protocol_def reset_def)
  note facts = sync_regained_only_by_response [OF this]
  have "\<nexists>bs q. send (CommandEvent Command_get_crc) Protocol = (Inr bs, q)"
    using facts [THEN conjunct1, rule_format, of Command_get_crc] by (fastforce simp: Command_get_crc_def)
  moreover have "\<not> in_sync (protocol_exec (Feed [0x12, 0x10]) Protocol)"
    using facts [THEN conjunct2, rule_format, of "Feed [0x12, 0x10]"] by blast
  ultimately show ?thesis ..
qed

text \<open>A failure or "invalid" reply to a command whose answer carries four payload bytes is not
  recognised: the machine takes the two bytes of the reply for the start of the payload and asks
  for more data, so the caller sees a timeout instead of the error.\<close>

theorem failure_reply_taken_for_payload:
  assumes "command_to_bytes c = Inr bs" and "response_length c = 4" and "resp_type r \<noteq> RT_OK"
  shows "fst (poll (response_to_bytes r) (snd (send (CommandEvent c) synced))) = Inr (Some NeedMoreData)"
  using assms
  by (simp add: send_command_ok in_sync_def synced_def start_waiting_for_response_def response_to_bytes_def
      poll_def feed_def next_event_def next_event_length_def next_event_response_def)

lemma failure_reply_taken_for_payload_witness:
  "fst (poll (response_to_bytes Response_invalid) (snd (send (CommandEvent Command_get_crc) synced)))
     = Inr (Some NeedMoreData)"
  by (rule failure_reply_taken_for_payload)
     (simp_all add: Command_get_crc_def command_to_bytes_def payload_length_def response_length_def
       Response_invalid_def)

text \<open>\<open>reset()\<close> keeps a payload that was already taken from the buffer: if the answer's payload
  arrives but its sync marker does not, the first event after the reset reports the stale payload
  as excess data.\<close>

theorem reset_keeps_stale_payload:
  assumes "pr_payload p \<noteq> []"
  shows "fst (next_event (reset p)) = Inr (Some (ExcessData (pr_payload p)))"
  using assms
  by (simp add: reset_def next_event_def next_event_length_def next_event_response_def
      next_event_sync_def purge_excess_data_def)

lemma reset_keeps_stale_payload_witness:
  "fst (next_event (reset (snd (poll [1, 2, 3, 4] (snd (send (CommandEvent Command_get_crc) synced))))))
     = Inr (Some (ExcessData [1, 2, 3, 4]))"
proof -
  have p: "snd (poll [1, 2, 3, 4] (snd (send (CommandEvent Command_get_crc) synced))) =
      \<lparr>pr_buffer = [], pr_buffer_closed = False, pr_payload = [1, 2, 3, 4],
        pr_state = PS_WAIT_SYNC, pr_bytes_expected = 2\<rparr>"
    by (simp add: Command_get_crc_def send_command_ok in_sync_def synced_def command_to_bytes_def
        payload_length_def response_length_def start_waiting_for_response_def start_waiting_for_sync_def
        poll_def feed_def next_event_def next_event_length_def next_event_response_def next_event_sync_def)
  show ?thesis
    using reset_keeps_stale_payload [of "snd (poll [1, 2, 3, 4] (snd (send (CommandEvent Command_get_crc) synced)))"]
    by (simp add: p)
qed

text \<open>The fourth response code is never accepted: an answer that ends in
  \<open>BAD_SILICON_REV\<close> is reported as excess data, so the branch that raises
  "bad silicon revision" cannot be reached through the machine.\<close>

theorem bad_silicon_rev_is_excess:
  "fst (poll (response_to_bytes (Response RT_BAD_SILICON_REV [])) (awaiting 0 [])) =
     Inr (Some (ExcessData [opcode_value OP_IN_SYNC, opcode_value OP_BAD_SILICON_REV]))"
  by (simp add: response_to_bytes_def poll_def awaiting_def partly_received_def feed_def next_event_def
      next_event_length_def next_event_response_def next_event_sync_def accepted_codes_def
      purge_excess_data_def)

end
