(* ===== verification/Effects.thy ===== *)
theory Effects
  imports Prelude
begin

text \<open>
  Code that awaits I/O. An effectful operation maps a state to \<open>None\<close> when it never returns
  (it blocks or loops for ever), else to its result or exception with the state after it. The
  transport is the abstract class \<open>Transport\<close> of \<^verbatim>\<open>io/base.py\<close>, over an arbitrary world \<open>'w\<close>: its
  implementations call sockets and serial ports, so the model takes them as a parameter. A
  timeout (milliseconds) given to \<open>tr_receive\<close> is that of the enclosing \<open>fail_after\<close>;
  its expiry is the result \<open>Inl TimeoutError\<close>.
\<close>

type_synonym ('s, 'a) eff = "'s \<Rightarrow> ('a result \<times> 's) option"

record 'w transport =
  tr_send :: "bytes \<Rightarrow> ('w, unit) eff"
  tr_receive :: "nat option \<Rightarrow> ('w, bytes) eff"

section \<open>Sequencing\<close>

definition eff_return :: "'a \<Rightarrow> ('s, 'a) eff" where
  "eff_return a s = Some (Inr a, s)"

definition eff_raise :: "exn \<Rightarrow> ('s, 'a) eff" where
  "eff_raise e s = Some (Inl e, s)"

definition eff_bind :: "('s, 'a) eff \<Rightarrow> ('a \<Rightarrow> ('s, 'b) eff) \<Rightarrow> ('s, 'b) eff" where
  "eff_bind m f s = Option.bind (m s)
     (\<lambda>(r, s'). case r of Inl e \<Rightarrow> Some (Inl e, s') | Inr a \<Rightarrow> f a s')"

text \<open>\<open>try: m except e: h(e)\<close>, with the state kept as it is when the exception is raised.\<close>

definition eff_catch :: "('s, 'a) eff \<Rightarrow> (exn \<Rightarrow> ('s, 'a) eff) \<Rightarrow> ('s, 'a) eff" where
  "eff_catch m h s = Option.bind (m s)
     (\<lambda>(r, s'). case r of Inl e \<Rightarrow> h e s' | Inr a \<Rightarrow> Some (Inr a, s'))"

definition eff_get :: "('s \<Rightarrow> 'a) \<Rightarrow> ('s, 'a) eff" where
  "eff_get f s = Some (Inr (f s), s)"

definition eff_modify :: "('s \<Rightarrow> 's) \<Rightarrow> ('s, unit) eff" where
  "eff_modify f s = Some (Inr (), f s)"

text \<open>A pure computation that may raise.\<close>

definition eff_result :: "'a result \<Rightarrow> ('s, 'a) eff" where
  "eff_result r s = Some (r, s)"

lemma eff_simps [simp]:
  "eff_return a s = Some (Inr a, s)"
  "eff_raise e s = Some (Inl e, s)"
  "eff_get f s = Some (Inr (f s), s)"
  "eff_modify g s = Some (Inr (), g s)"
  "eff_result r s = Some (r, s)"
  by (simp_all add: eff_return_def eff_raise_def eff_get_def eff_modify_def eff_result_def)

lemma eff_bind_run:
  "m s = Some (Inr a, s') \<Longrightarrow> eff_bind m f s = f a s'"
  "m s = Some (Inl e, s') \<Longrightarrow> eff_bind m f s = Some (Inl e, s')"
  "m s = None \<Longrightarrow> eff_bind m f s = None"
  by (simp_all add: eff_bind_def)

lemma eff_catch_run:
  "m s = Some (Inr a, s') \<Longrightarrow> eff_catch m h s = Some (Inr a, s')"
  "m s = Some (Inl e, s') \<Longrightarrow> eff_catch m h s = h e s'"
  "m s = None \<Longrightarrow> eff_catch m h s = None"
  by (simp_all add: eff_catch_def)

lemma eff_bind_cases [consumes 1, case_names raised returned]:
  assumes "eff_bind m f s = Some (r, s')"
  obtains e where "m s = Some (Inl e, s')" "r = Inl e"
  | a s1 where "m s = Some (Inr a, s1)" "f a s1 = Some (r, s')"
  using assms by (cases "m s"; cases "fst (the (m s))") (auto simp: eff_bind_def)

lemma eff_catch_cases [consumes 1, case_names returned raised]:
  assumes "eff_catch m h s = Some (r, s')"
  obtains a where "m s = Some (Inr a, s')" "r = Inr a"
  | e s1 where "m s = Some (Inl e, s1)" "h e s1 = Some (r, s')"
  using assms by (cases "m s"; cases "fst (the (m s))") (auto simp: eff_catch_def)

lemma eff_bind_simps [simp]:
  "eff_bind (eff_return a) f = f a"
  "eff_bind (eff_raise e) f = eff_raise e"
  "eff_bind (eff_get h) k s = k (h s) s"
  "eff_bind (eff_modify g) f' s = f' () (g s)"
  "eff_bind (eff_result (Inr a)) f = f a"
  "eff_bind (eff_result (Inl e)) f = eff_raise e"
  by (auto simp: eff_bind_def fun_eq_iff)

end
