(* ===== verification/Firmware.thy ===== *)
theory Firmware
  imports Complex_Main Crc32
begin

text \<open>
  The firmware image of \<^verbatim>\<open>firmware.py\<close>: \<open>FirmwareBase\<close> with its lazily computed, cached CRC and its
  metadata dictionary, and \<open>APJFirmware\<close> that fills them from a file. JSON parsing, base64
  decoding and zlib decompression are library calls and arguments of \<open>load_image\<close>.
\<close>

section \<open>Metadata\<close>

datatype json =
    JNull | JBool bool | JInt int | JFloat rat | JString string
  | JArray "json list" | JObject "(string \<times> json) list"

text \<open>\<open>int(s)\<close> of an ASCII string: surrounding white space, a sign, digits grouped by single underscores.\<close>

definition is_space :: "char \<Rightarrow> bool" where
  "is_space c \<longleftrightarrow> of_char c \<in> {9, 10, 11, 12, 13, 28, 29, 30, 31, 32 :: nat}"

definition strip :: "string \<Rightarrow> string" where
  "strip s = rev (dropWhile is_space (rev (dropWhile is_space s)))"

definition is_digit :: "char \<Rightarrow> bool" where
  "is_digit c \<longleftrightarrow> 48 \<le> (of_char c :: nat) \<and> (of_char c :: nat) \<le> 57"

fun int_digits :: "string \<Rightarrow> bool \<Rightarrow> int \<Rightarrow> int option" where
  "int_digits [] after_digit acc = (if after_digit then Some acc else None)"
| "int_digits (c # cs) after_digit acc =
     (if is_digit c then int_digits cs True (acc * 10 + (of_char c - 48))
      else if c = CHR ''_'' \<and> after_digit then int_digits cs False acc
      else None)"

definition py_int :: "string \<Rightarrow> int result" where
  "py_int s =
     (case (case strip s of
              [] \<Rightarrow> None
            | c # cs \<Rightarrow>
                if c = CHR ''-'' then map_option uminus (int_digits cs False 0)
                else if c = CHR ''+'' then int_digits cs False 0
                else int_digits (c # cs) False 0) of
        Some i \<Rightarrow> Inr i
      | None \<Rightarrow> Inl (ValueError ''invalid literal for int()''))"

text \<open>\<open>int(value)\<close> on a metadata value.\<close>

fun int_of_json :: "json \<Rightarrow> int result" where
  "int_of_json (JInt i) = Inr i"
| "int_of_json (JBool b) = Inr (of_bool b)"
| "int_of_json (JFloat q) = Inr (if q < 0 then - \<lfloor>- q\<rfloor> else \<lfloor>q\<rfloor>)"
| "int_of_json (JString s) = py_int s"
| "int_of_json _ = Inl (OtherException ''TypeError'')"

section \<open>FirmwareBase\<close>

record firmware =
  fw_crc_cache :: "int option"
  fw_image_data :: "bytes option"
  fw_metadata :: "string \<rightharpoonup> json"

definition FirmwareBase :: firmware where
  "FirmwareBase = \<lparr>fw_crc_cache = None, fw_image_data = None, fw_metadata = Map.empty\<rparr>"

definition board_id :: "firmware \<Rightarrow> int result" where
  "board_id fw = (case fw_metadata fw ''board_id'' of
     None \<Rightarrow> Inl (OtherException ''KeyError'') | Some v \<Rightarrow> int_of_json v)"

definition board_revision :: "firmware \<Rightarrow> int option result" where
  "board_revision fw = (case fw_metadata fw ''board_revision'' of
     None \<Rightarrow> Inr None
   | Some v \<Rightarrow> if v = JNull then Inr None else map_sum id Some (int_of_json v))"

definition fw_image :: "firmware \<Rightarrow> bytes result" where
  "fw_image fw = (case fw_image_data fw of
     None \<Rightarrow> Inl (RuntimeError ''image has not been loaded yet'') | Some bs \<Rightarrow> Inr bs)"

definition fw_crc :: "firmware \<Rightarrow> int result \<times> firmware" where
  "fw_crc fw = (case fw_crc_cache fw of
     Some c \<Rightarrow> (Inr c, fw)
   | None \<Rightarrow> (case fw_image fw of
       Inl e \<Rightarrow> (Inl e, fw)
     | Inr bs \<Rightarrow> (Inr (crc32 bs 0), fw\<lparr>fw_crc_cache := Some (crc32 bs 0)\<rparr>)))"

text \<open>\<open>fw_image_size\<close> is whatever the metadata holds under that key, else the image's length.\<close>

definition fw_image_size :: "firmware \<Rightarrow> json result" where
  "fw_image_size fw =
     (let size = (case fw_metadata fw ''image_size'' of None \<Rightarrow> JNull | Some v \<Rightarrow> v)
      in if size = JNull then map_sum id (\<lambda>bs. JInt (int (length bs))) (fw_image fw) else Inr size)"

definition clear_metadata :: "firmware \<Rightarrow> firmware" where
  "clear_metadata fw = fw\<lparr>fw_metadata := Map.empty\<rparr>"

definition set_image :: "bytes \<Rightarrow> firmware \<Rightarrow> firmware" where
  "set_image img fw = fw\<lparr>fw_crc_cache := None, fw_image_data := Some img\<rparr>"

definition update_metadata :: "(string \<rightharpoonup> json) \<Rightarrow> firmware \<Rightarrow> firmware" where
  "update_metadata kwds fw = fw\<lparr>fw_metadata := fw_metadata fw ++ kwds\<rparr>"

definition process_loaded_image_and_metadata ::
  "bytes \<Rightarrow> (string \<rightharpoonup> json) \<Rightarrow> firmware \<Rightarrow> firmware" where
  "process_loaded_image_and_metadata img md fw =
     update_metadata md (set_image img (clear_metadata fw))"

section \<open>APJFirmware\<close>

text \<open>\<open>_load_image\<close>: the parameters are \<open>json.load\<close>, \<open>base64.b64decode\<close> and \<open>zlib.decompress\<close>;
  \<open>obj.pop("image")\<close> removes the key from the metadata.\<close>

definition load_image ::
  "('fp \<Rightarrow> (string \<rightharpoonup> json) result) \<Rightarrow> (json \<Rightarrow> bytes result) \<Rightarrow> (bytes \<Rightarrow> bytes result) \<Rightarrow>
   'fp \<Rightarrow> (bytes \<times> (string \<rightharpoonup> json)) result" where
  "load_image json_load b64decode decompress fp =
     (case json_load fp of
        Inl e \<Rightarrow> Inl e
      | Inr obj \<Rightarrow> (case obj ''image'' of
          None \<Rightarrow> Inl (OtherException ''KeyError'')
        | Some v \<Rightarrow> (case b64decode v of
            Inl e \<Rightarrow> Inl e
          | Inr raw \<Rightarrow> (case decompress raw of
              Inl e \<Rightarrow> Inl e
            | Inr img \<Rightarrow> Inr (img, obj(''image'' := None))))))"

definition read_sync ::
  "('fp \<Rightarrow> (string \<rightharpoonup> json) result) \<Rightarrow> (json \<Rightarrow> bytes result) \<Rightarrow> (bytes \<Rightarrow> bytes result) \<Rightarrow>
   'fp \<Rightarrow> firmware \<Rightarrow> unit result \<times> firmware" where
  "read_sync json_load b64decode decompress fp fw =
     (case load_image json_load b64decode decompress fp of
        Inl e \<Rightarrow> (Inl e, fw)
      | Inr (img, md) \<Rightarrow> (Inr (), process_loaded_image_and_metadata img md fw))"

text \<open>\<open>read\<close> runs \<open>_load_image\<close> in a worker thread, with the same effect.\<close>

definition read_async ::
  "('fp \<Rightarrow> (string \<rightharpoonup> json) result) \<Rightarrow> (json \<Rightarrow> bytes result) \<Rightarrow> (bytes \<Rightarrow> bytes result) \<Rightarrow>
   'fp \<Rightarrow> firmware \<Rightarrow> unit result \<times> firmware" where
  "read_async json_load b64decode decompress fp fw =
     (case load_image json_load b64decode decompress fp of
        Inl e \<Rightarrow> (Inl e, fw)
      | Inr (img, md) \<Rightarrow> (Inr (), process_loaded_image_and_metadata img md fw))"

text \<open>\<open>load_firmware\<close>; \<open>open_file\<close> is the built-in \<open>open\<close>.\<close>

definition load_firmware ::
  "(string \<Rightarrow> 'fp result) \<Rightarrow> ('fp \<Rightarrow> (string \<rightharpoonup> json) result) \<Rightarrow> (json \<Rightarrow> bytes result) \<Rightarrow> (bytes \<Rightarrow> bytes result) \<Rightarrow>
   string \<Rightarrow> firmware result" where
  "load_firmware open_file json_load b64decode decompress source =
     (case open_file source of
        Inl e \<Rightarrow> Inl e
      | Inr fp \<Rightarrow> (case read_async json_load b64decode decompress fp FirmwareBase of
          (Inl e, _) \<Rightarrow> Inl e
        | (Inr _, fw) \<Rightarrow> Inr fw))"

section \<open>The cache is coherent\<close>

definition firmware_inv :: "firmware \<Rightarrow> bool" where
  "firmware_inv fw \<longleftrightarrow> (\<forall>c. fw_crc_cache fw = Some c \<longrightarrow>
     (\<exists>img. fw_image_data fw = Some img \<and> c = crc32 img 0))"

lemma firmware_inv_init: "firmware_inv FirmwareBase"
  by (simp add: firmware_inv_def FirmwareBase_def)

lemma firmware_inv_crc: "firmware_inv fw \<Longrightarrow> firmware_inv (snd (fw_crc fw))"
  by (auto simp: firmware_inv_def fw_crc_def fw_image_def split: option.splits)

lemma firmware_inv_process: "firmware_inv (process_loaded_image_and_metadata img md fw)"
  by (simp add: firmware_inv_def process_loaded_image_and_metadata_def update_metadata_def
      set_image_def)

lemma firmware_inv_read_sync:
  "firmware_inv fw \<Longrightarrow> firmware_inv (snd (read_sync jl bd dc fp fw))"
  by (auto simp: read_sync_def firmware_inv_process split: sum.splits)

lemma crc_value:
  "firmware_inv fw \<Longrightarrow> fw_image_data fw = Some img \<Longrightarrow> fst (fw_crc fw) = Inr (crc32 img 0)"
  by (auto simp: firmware_inv_def fw_crc_def fw_image_def split: option.splits)

lemma crc_frame:
  "fw_image_data (snd (fw_crc fw)) = fw_image_data fw" "fw_metadata (snd (fw_crc fw)) = fw_metadata fw"
  by (auto simp: fw_crc_def split: option.splits sum.splits)

section \<open>Properties\<close>

text \<open>Any sequence of reads and CRC requests on one firmware object.\<close>

datatype 'fp firmware_op = ReadSync 'fp | AskCrc

fun firmware_exec ::
  "('fp \<Rightarrow> (string \<rightharpoonup> json) result) \<Rightarrow> (json \<Rightarrow> bytes result) \<Rightarrow> (bytes \<Rightarrow> bytes result) \<Rightarrow>
   'fp firmware_op \<Rightarrow> firmware \<Rightarrow> firmware" where
  "firmware_exec jl bd dc (ReadSync fp) fw = snd (read_sync jl bd dc fp fw)"
| "firmware_exec jl bd dc AskCrc fw = snd (fw_crc fw)"

lemma firmware_inv_run: "firmware_inv fw \<Longrightarrow> firmware_inv (fold (firmware_exec jl bd dc) ops fw)"
proof (induction ops arbitrary: fw)
  case (Cons op ops)
  have "firmware_inv (firmware_exec jl bd dc op fw)"
    using Cons.prems by (cases op) (auto intro: firmware_inv_read_sync firmware_inv_crc)
  then show ?case by (simp add: Cons.IH)
qed simp

text \<open>The cached CRC is never stale: after any sequence of loads (of different files, failing or
  not) and CRC requests on a firmware object, \<open>crc\<close> returns the CRC-32 of the image that the object
  holds now, and raises \"image has not been loaded yet\" exactly when there is none.\<close>

theorem crc_never_stale:
  "fst (fw_crc (fold (firmware_exec jl bd dc) ops FirmwareBase)) =
     (case fw_image_data (fold (firmware_exec jl bd dc) ops FirmwareBase) of
        Some img \<Rightarrow> Inr (crc32 img 0)
      | None \<Rightarrow> Inl (RuntimeError ''image has not been loaded yet''))"
proof -
  let ?fw = "fold (firmware_exec jl bd dc) ops FirmwareBase"
  have "firmware_inv ?fw" by (rule firmware_inv_run [OF firmware_inv_init])
  then show ?thesis
    by (auto simp: firmware_inv_def fw_crc_def fw_image_def split: option.splits)
qed

end
