(* ===== verification/Mock.thy ===== *)
theory Mock
  imports Complex_Main Effects Messages Crc32
begin

text \<open>
  The mock bootloader of \<^verbatim>\<open>mock.py\<close>, the repository's executable account of the device side:
  command parsing from the transport, the simulated flash memory with its wrapping write pointer,
  the command handlers and the serving loop. The state of the object is the record \<open>mock\<close>; its
  methods that await run on the pair of object and transport world. \<open>random()\<close> is the stream
  \<open>mk_random\<close>. The sleep that simulates a delayed confirmation changes no state and is left out.
\<close>

section \<open>State\<close>

record mock =
  mk_buffer :: bytes
  mk_drop_next_response :: bool
  mk_flash_memory :: bytes
  mk_write_ptr :: nat
  mk_serial_number :: bytes
  mk_should_exit :: bool
  mk_simulate_desync :: bool
  mk_random :: "nat \<Rightarrow> rat"

definition MockBootloader :: "(nat \<Rightarrow> rat) \<Rightarrow> nat \<Rightarrow> mock" where
  "MockBootloader rnd flash_memory_size =
     \<lparr>mk_buffer = [], mk_drop_next_response = False,
      mk_flash_memory = replicate flash_memory_size 0xFF, mk_write_ptr = 0,
      mk_serial_number = [0xC0, 0xFF, 0xEE, 0x00, 0xDE, 0xAD, 0xBE, 0xEF, 0x00, 0xC0, 0xFF, 0xEE],
      mk_should_exit = False, mk_simulate_desync = False, mk_random = rnd\<rparr>"

definition drop_next_response :: "mock \<Rightarrow> mock" where
  "drop_next_response m = m\<lparr>mk_drop_next_response := True\<rparr>"

definition set_write_pointer :: "nat \<Rightarrow> mock \<Rightarrow> mock" where
  "set_write_pointer value m = m\<lparr>mk_write_ptr := value\<rparr>"

section \<open>Flash memory\<close>

text \<open>
  \<open>_write_to_flash_memory\<close>. \<open>data[:-excess]\<close> and \<open>data[-excess:]\<close> are \<open>take\<close> and \<open>drop\<close> at
  \<open>len(data) - excess\<close>, clipped at 0 as Python's slices are (truncating subtraction on \<open>nat\<close>).
  With an empty flash the second recursive call gets the whole data back for ever, which
  Python ends with \<open>RecursionError\<close>, the pointer being 0 by then.
\<close>

function write_to_flash_memory :: "bytes \<Rightarrow> mock \<Rightarrow> unit result \<times> mock" where
  "write_to_flash_memory data m =
     (if data = [] then (Inr (), m)
      else if mk_flash_memory m = [] then (Inl RecursionError, m\<lparr>mk_write_ptr := 0\<rparr>)
      else
        let start = mk_write_ptr m;
            end = start + length data;
            excess = int end - int (length (mk_flash_memory m))
        in if excess \<le> 0 then
             let m1 = m\<lparr>mk_flash_memory := take start (mk_flash_memory m) @ data @ drop end (mk_flash_memory m),
                        mk_write_ptr := end\<rparr>
             in if mk_simulate_desync m1 \<and> mk_write_ptr m1 \<ge> 4096 then
                  let p = mk_random m1 0; m2 = m1\<lparr>mk_random := \<lambda>n. mk_random m1 (Suc n)\<rparr>
                  in if p < 1 / 100 then (Inl SimulatedPacketLossError, m2)
                     else if p < 2 / 100 then (Inl SimulatedPacketDelayError, m2)
                     else (Inr (), m2)
                else (Inr (), m1)
           else (case write_to_flash_memory (take (length data - nat excess) data) m of
               (Inl e, m1) \<Rightarrow> (Inl e, m1)
             | (Inr _, m1) \<Rightarrow>
                 write_to_flash_memory (drop (length data - nat excess) data) (m1\<lparr>mk_write_ptr := 0\<rparr>)))"
  by pat_completeness auto
termination
proof (relation "measures [\<lambda>(data, m). length data, \<lambda>(data, m). mk_write_ptr m]", goal_cases)
  case 1
  show ?case by simp
next
  case (2 data m start e excess)
  then have "0 < length data" "0 < nat excess" by simp_all
  then have "length data - nat excess < length data" by linarith
  then show ?case by simp
next
  case (3 data m start e excess)
  then have "0 < length data" "0 < length (mk_flash_memory m)" by simp_all
  moreover have "excess = int (mk_write_ptr m) + int (length data) - int (length (mk_flash_memory m))"
    using 3 by simp
  ultimately have "length data - (length data - nat excess) < length data \<or>
      length data - (length data - nat excess) = length data \<and> 0 < mk_write_ptr m"
    by linarith
  moreover have "mk_write_ptr (q\<lparr>mk_write_ptr := 0\<rparr>) = 0" for q :: mock by simp
  ultimately show ?case by (simp only: in_measures length_drop prod.case) blast
qed

declare write_to_flash_memory.simps [simp del]

section \<open>Command handlers\<close>

definition chip_description :: bytes where
  "chip_description = map of_char ''STM32F7,mock''"

definition handle_command :: "command \<Rightarrow> mock \<Rightarrow> bytes result \<times> mock" where
  "handle_command c m =
     (let t = cmd_type c in
      if t = OP_GET_SYNC then (Inr [], m)
      else if t = OP_GET_DEVICE then
        (case cmd_args c of
           [] \<Rightarrow> (Inl (OtherException ''IndexError''), m)
         | a # _ \<Rightarrow>
           (case device_info_of a of
              Inl e \<Rightarrow> (Inl e, m)
            | Inr item \<Rightarrow>
                let value = (case item of
                      BL_REV \<Rightarrow> if mk_simulate_desync m then 6 else 5
                    | BOARD_ID \<Rightarrow> 9
                    | BOARD_REV \<Rightarrow> 0
                    | FLASH_SIZE \<Rightarrow> int (length (mk_flash_memory m)))
                in (to_bytes_le 4 value, m)))
      else if t = OP_GET_CHIP then (Inr [0x09], m)
      else if t = OP_GET_CHIP_DES then
        (map_sum id (\<lambda>len. len @ chip_description)
           (to_bytes_le 4 (int (length chip_description))), m)
      else if t = OP_GET_OTP then (Inr [0xFF, 0xFF, 0xFF, 0xFF], m)
      else if t = OP_GET_SN then
        (if length (cmd_args c) \<noteq> 4 then (Inl InvalidCommandError, m)
         else
           let address = nat (from_bytes_le (cmd_args c));
               word = take 4 (drop address (mk_serial_number m))
           in (Inr (rev (word @ replicate (4 - length word) 0)), m))
      else if t = OP_CHIP_ERASE then
        (Inr [], m\<lparr>mk_flash_memory := replicate (length (mk_flash_memory m)) 0xFF, mk_write_ptr := 0\<rparr>)
      else if t = OP_PROG_MULTI then
        (case write_to_flash_memory (cmd_args c) m of
           (Inl e, m1) \<Rightarrow> (Inl e, m1) | (Inr _, m1) \<Rightarrow> (Inr [], m1))
      else if t = OP_GET_CRC then (to_bytes_le 4 (crc32 (mk_flash_memory m) 0), m)
      else if t = OP_GET_WRITE_PTR then (to_bytes_le 4 (int (mk_write_ptr m)), m)
      else if t = OP_REBOOT then (Inr [], m\<lparr>mk_should_exit := True\<rparr>)
      else (Inl InvalidCommandError, m))"

section \<open>Reading commands\<close>

partial_function (option) read_exactly ::
  "'w transport \<Rightarrow> nat option \<Rightarrow> nat \<Rightarrow> (mock \<times> 'w, bytes) eff" where
  "read_exactly T timeout len s =
     (case s of (m, w) \<Rightarrow>
      if length (mk_buffer m) < len then
        Option.bind (tr_receive T timeout w) (\<lambda>(r, w1).
          case r of
            Inl e \<Rightarrow> Some (Inl e, (m, w1))
          | Inr bytes_read \<Rightarrow>
              read_exactly T timeout len (m\<lparr>mk_buffer := mk_buffer m @ bytes_read\<rparr>, w1))
      else Some (Inr (take len (mk_buffer m)), (m\<lparr>mk_buffer := drop len (mk_buffer m)\<rparr>, w)))"

definition read_byte :: "'w transport \<Rightarrow> nat option \<Rightarrow> (mock \<times> 'w, byte) eff" where
  "read_byte T timeout = eff_bind (read_exactly T timeout 1) (\<lambda>data. eff_return (data ! 0))"

definition read_eoc :: "'w transport \<Rightarrow> nat \<Rightarrow> (mock \<times> 'w, unit) eff" where
  "read_eoc T timeout = eff_bind (read_byte T (Some timeout)) (\<lambda>next_byte.
     if next_byte \<noteq> opcode_value OP_EOC then eff_raise InvalidCommandError else eff_return ())"

text \<open>What follows a valid command byte: length, arguments and end marker.\<close>

definition read_arguments :: "'w transport \<Rightarrow> opcode \<Rightarrow> (mock \<times> 'w, command) eff" where
  "read_arguments T opcode =
     (let partial_command = Command opcode [] in
      eff_bind
        (if payload_length partial_command < 0
         then eff_bind (read_byte T (Some 100)) (\<lambda>b. eff_return (uint b))
         else eff_return (payload_length partial_command))
        (\<lambda>payload_len.
           eff_bind
             (if payload_len > 0 then read_exactly T (Some 100) (nat payload_len) else eff_return [])
             (\<lambda>payload. eff_bind (read_eoc T 2) (\<lambda>_. eff_return (Command opcode payload)))))"

partial_function (option) receive_next_command ::
  "'w transport \<Rightarrow> (mock \<times> 'w, command) eff" where
  "receive_next_command T s =
     Option.bind (read_byte T None s) (\<lambda>(r, s1).
       case r of
         Inl e \<Rightarrow> Some (Inl e, s1)
       | Inr command_byte \<Rightarrow>
           (case opcode_of command_byte of
              Inl _ \<Rightarrow> receive_next_command T s1
            | Inr opcode \<Rightarrow>
                if opcode \<le> OP_EOC then receive_next_command T s1
                else read_arguments T opcode s1))"

section \<open>The serving loop\<close>

text \<open>The response to a received command, \<open>None\<close> where the loss of the packet is simulated.\<close>

definition respond :: "command \<Rightarrow> mock \<Rightarrow> response option \<times> mock" where
  "respond c m =
     (case handle_command c m of
        (Inr payload, m1) \<Rightarrow> (Some (Response_success payload), m1)
      | (Inl e, m1) \<Rightarrow>
          (if e = InvalidCommandError then Some Response_invalid
           else if e = SimulatedPacketLossError then None
           else if e = SimulatedPacketDelayError then Some (Response_success [])
           else Some Response_failure, m1))"

text \<open>One turn of the loop in \<open>run\<close>.\<close>

definition run_once :: "'w transport \<Rightarrow> (mock \<times> 'w, unit) eff" where
  "run_once T s =
     Option.bind (receive_next_command T s) (\<lambda>(r, (m, w)).
       case (case r of
               Inl e \<Rightarrow> if e = InvalidCommandError \<or> e = TimeoutError
                        then Inr (Some Response_invalid, m) else Inl e
             | Inr c \<Rightarrow> Inr (respond c m)) of
         Inl e \<Rightarrow> Some (Inl e, (m, w))
       | Inr (resp, m1) \<Rightarrow>
           let (resp2, m2) = (if mk_drop_next_response m1
                              then (None, m1\<lparr>mk_drop_next_response := False\<rparr>) else (resp, m1))
           in (case resp2 of
                 None \<Rightarrow> Some (Inr (), (m2, w))
               | Some x \<Rightarrow> map_option (\<lambda>(r2, w2). (r2, (m2, w2))) (tr_send T (response_to_bytes x) w)))"

partial_function (option) run :: "'w transport \<Rightarrow> (mock \<times> 'w, unit) eff" where
  "run T s =
     (if mk_should_exit (fst s) then Some (Inr (), s)
      else Option.bind (run_once T s) (\<lambda>(r, s1).
        case r of Inl e \<Rightarrow> Some (Inl e, s1) | Inr _ \<Rightarrow> run T s1))"

section \<open>Writing to the flash memory\<close>

lemma write_nil [simp]: "write_to_flash_memory [] m = (Inr (), m)"
  by (subst write_to_flash_memory.simps) simp

text \<open>The memory after a write that does not wrap.\<close>

definition overwrite :: "nat \<Rightarrow> 'a list \<Rightarrow> 'a list \<Rightarrow> 'a list" where
  "overwrite start data xs = take start xs @ data @ drop (start + length data) xs"

lemma length_overwrite [simp]:
  "start + length data \<le> length xs \<Longrightarrow> length (overwrite start data xs) = length xs"
  by (simp add: overwrite_def)

lemma overwrite_nil [simp]: "overwrite n [] xs = xs"
  by (simp add: overwrite_def)

lemma nth_overwrite:
  "start + length data \<le> length xs \<Longrightarrow> j < length xs \<Longrightarrow> overwrite start data xs ! j =
     (if start \<le> j \<and> j < start + length data then data ! (j - start) else xs ! j)"
  by (auto simp: overwrite_def nth_append not_less min_def)

lemma write_fits:
  assumes "\<not> mk_simulate_desync m" "mk_write_ptr m + length data \<le> length (mk_flash_memory m)"
  shows "write_to_flash_memory data m = (Inr (), m\<lparr>
    mk_flash_memory := overwrite (mk_write_ptr m) data (mk_flash_memory m),
    mk_write_ptr := mk_write_ptr m + length data\<rparr>)"
proof (cases "data = []")
  case True
  then show ?thesis by simp
next
  case False
  with assms show ?thesis
    by (subst write_to_flash_memory.simps) (auto simp: Let_def overwrite_def)
qed

lemma write_wraps:
  fixes m data
  defines "n \<equiv> length (mk_flash_memory m) - mk_write_ptr m"
  assumes "\<not> mk_simulate_desync m" "mk_write_ptr m \<le> length (mk_flash_memory m)"
    and "length data \<le> length (mk_flash_memory m)"
    and "length (mk_flash_memory m) < mk_write_ptr m + length data"
  shows "write_to_flash_memory data m = (Inr (), m\<lparr>
    mk_flash_memory := overwrite 0 (drop n data)
      (overwrite (mk_write_ptr m) (take n data) (mk_flash_memory m)),
    mk_write_ptr := length data - n\<rparr>)"
proof -
  let ?F = "length (mk_flash_memory m)"
  let ?excess = "int (mk_write_ptr m + length data) - int ?F"
  have n: "length data - nat ?excess = n" and pos: "\<not> ?excess \<le> 0"
    and ne: "data \<noteq> []" "mk_flash_memory m \<noteq> []"
    using assms by auto
  have first: "write_to_flash_memory (take n data) m = (Inr (), m\<lparr>
      mk_flash_memory := overwrite (mk_write_ptr m) (take n data) (mk_flash_memory m),
      mk_write_ptr := mk_write_ptr m + length (take n data)\<rparr>)"
    using assms by (intro write_fits) auto
  let ?m1 = "m\<lparr>mk_flash_memory := overwrite (mk_write_ptr m) (take n data) (mk_flash_memory m),
      mk_write_ptr := 0\<rparr>"
  have second: "write_to_flash_memory (drop n data) ?m1 = (Inr (), ?m1\<lparr>
      mk_flash_memory := overwrite (mk_write_ptr ?m1) (drop n data) (mk_flash_memory ?m1),
      mk_write_ptr := mk_write_ptr ?m1 + length (drop n data)\<rparr>)"
    using assms by (intro write_fits) (auto simp: min_def)
  have "write_to_flash_memory data m = write_to_flash_memory (drop n data) ?m1"
    using ne pos n first by (subst write_to_flash_memory.simps) (simp add: Let_def)
  with second show ?thesis by simp
qed

text \<open>What every write keeps, simulated losses and wrap-around included.\<close>

definition mock_inv :: "mock \<Rightarrow> bool" where
  "mock_inv m \<longleftrightarrow> mk_write_ptr m \<le> length (mk_flash_memory m)"

lemma write_keeps:
  "write_to_flash_memory data m = (r, m') \<Longrightarrow>
     length (mk_flash_memory m') = length (mk_flash_memory m)
     \<and> mk_simulate_desync m' = mk_simulate_desync m \<and> mk_buffer m' = mk_buffer m
     \<and> mk_drop_next_response m' = mk_drop_next_response m
     \<and> mk_serial_number m' = mk_serial_number m \<and> mk_should_exit m' = mk_should_exit m
     \<and> (mock_inv m \<longrightarrow> mock_inv m')"
proof (induction data m arbitrary: r m' rule: write_to_flash_memory.induct)
  case (1 data m)
  let ?F = "length (mk_flash_memory m)"
  let ?excess = "int (mk_write_ptr m + length data) - int ?F"
  consider "data = []" | "data \<noteq> []" "mk_flash_memory m = []"
    | "data \<noteq> []" "mk_flash_memory m \<noteq> []" "?excess \<le> 0"
    | "data \<noteq> []" "mk_flash_memory m \<noteq> []" "\<not> ?excess \<le> 0" by blast
  then show ?case
  proof cases
    case 3
    with "1.prems" show ?thesis
      by (subst (asm) write_to_flash_memory.simps)
         (auto simp: Let_def mock_inv_def min_def split: if_splits)
  next
    case 4
    let ?k = "length data - nat ?excess"
    obtain r1 m1 where w1: "write_to_flash_memory (take ?k data) m = (r1, m1)" by fastforce
    note keep1 = "1.IH"(1) [OF 4(1,2) refl refl refl 4(3) w1]
    from "1.prems" 4 w1 have eq: "(case r1 of Inl e \<Rightarrow> (Inl e, m1)
        | Inr _ \<Rightarrow> write_to_flash_memory (drop ?k data) (m1\<lparr>mk_write_ptr := 0\<rparr>)) = (r, m')"
      by (subst (asm) write_to_flash_memory.simps) (simp add: Let_def)
    show ?thesis
    proof (cases r1)
      case (Inl e)
      with eq keep1 show ?thesis by simp
    next
      case (Inr u)
      with eq have "write_to_flash_memory (drop ?k data) (m1\<lparr>mk_write_ptr := 0\<rparr>) = (r, m')" by simp
      from "1.IH"(2) [OF 4(1,2) refl refl refl 4(3) w1 [symmetric] Inr this] keep1
      show ?thesis by (simp add: mock_inv_def)
    qed
  qed (use "1.prems" in \<open>subst (asm) write_to_flash_memory.simps, auto simp: mock_inv_def\<close>)+
qed

lemma handle_keeps:
  assumes "handle_command c m = (r, m')"
  shows "length (mk_flash_memory m') = length (mk_flash_memory m) \<and> mk_buffer m' = mk_buffer m
    \<and> mk_simulate_desync m' = mk_simulate_desync m \<and> mk_serial_number m' = mk_serial_number m
    \<and> mk_drop_next_response m' = mk_drop_next_response m \<and> (mock_inv m \<longrightarrow> mock_inv m')"
proof (cases "cmd_type c = OP_PROG_MULTI")
  case True
  obtain r1 m1 where "write_to_flash_memory (cmd_args c) m = (r1, m1)" by fastforce
  with write_keeps [OF this] True assms show ?thesis
    by (auto simp: handle_command_def Let_def split: sum.splits)
next
  case False
  with assms show ?thesis
    by (cases "cmd_type c")
       (auto simp: handle_command_def Let_def mock_inv_def split: list.splits sum.splits if_splits)
qed

section \<open>The frames the handlers produce\<close>

text \<open>A successful answer has the length the protocol expects for the command.\<close>

definition well_sized :: "command \<Rightarrow> bytes \<Rightarrow> bool" where
  "well_sized c payload \<longleftrightarrow>
     (if response_length c < 0
      then 4 \<le> length payload \<and> from_bytes_le (take 4 payload) = int (length payload) - 4
      else int (length payload) = response_length c)"

lemma to_bytes_le_length: "to_bytes_le n v = Inr bs \<Longrightarrow> length bs = n"
  by (auto simp: to_bytes_le_def split: if_splits)

lemma chip_description_sized:
  "map_sum id (\<lambda>len. len @ chip_description) (to_bytes_le 4 (int (length chip_description))) = Inr payload \<Longrightarrow>
   4 \<le> length payload \<and> from_bytes_le (take 4 payload) = int (length payload) - 4"
  by (auto simp: to_bytes_le_def codec_simps chip_description_def)

lemma handle_command_sized:
  assumes "handle_command c m = (Inr payload, m')" and "cmd_type c \<noteq> OP_GET_CHIP"
  shows "well_sized c payload"
proof (cases "cmd_type c")
  case OP_GET_CHIP_DES
  with assms chip_description_sized [of payload] show ?thesis
    by (simp add: handle_command_def Let_def well_sized_def response_length_def)
next
  case OP_GET_DEVICE
  with assms show ?thesis
    by (auto simp: handle_command_def Let_def well_sized_def response_length_def
        split: list.splits sum.splits dest: to_bytes_le_length)
next
  case OP_PROG_MULTI
  with assms show ?thesis
    by (auto simp: handle_command_def well_sized_def response_length_def split: sum.splits prod.splits)
next
  case OP_GET_SN
  with assms show ?thesis
    by (auto simp: handle_command_def Let_def well_sized_def response_length_def min_def split: if_splits)
qed (use assms in \<open>auto simp: handle_command_def Let_def well_sized_def response_length_def
      dest: to_bytes_le_length\<close>)

end
