(* ===== verification/Mock_Reader.thy ===== *)
theory Mock_Reader
  imports Mock
begin

text \<open>
  How the mock bootloader parses commands. The interface \<open>byte_source\<close> is what the parser needs of
  a transport: while bytes are pending, \<open>receive\<close> hands over a first part of them, in order, sends
  nothing and makes progress through the backlog. Under it the parser recovers every encoded command from any
  fragmentation and skips what is not a command byte. It is interpreted on the in-memory pipe that
  the tests of the repository connect to the mock.
\<close>

text \<open>The bytes at which the parser starts a command; it skips all others.\<close>

definition is_command_byte :: "byte \<Rightarrow> bool" where
  "is_command_byte b = (case opcode_of b of Inl _ \<Rightarrow> False | Inr opcode \<Rightarrow> OP_EOC < opcode)"

section \<open>The interface\<close>

locale byte_source =
  fixes T :: "'w transport"
    and pending :: "'w \<Rightarrow> bytes"
    and sent :: "'w \<Rightarrow> bytes list"
    and backlog :: "'w \<Rightarrow> nat"
  assumes delivers: "pending w \<noteq> [] \<Longrightarrow> \<exists>c w'. tr_receive T timeout w = Some (Inr c, w') \<and>
      pending w = c @ pending w' \<and> sent w' = sent w \<and> backlog w' < backlog w"
begin

lemma read_exactly_stream:
  "mk_buffer m @ pending w = xs @ rest \<Longrightarrow> length xs = n \<Longrightarrow>
   \<exists>b w'. read_exactly T timeout n (m, w) = Some (Inr xs, (m\<lparr>mk_buffer := b\<rparr>, w')) \<and>
     b @ pending w' = rest \<and> sent w' = sent w"
proof (induction "backlog w" arbitrary: m w rule: less_induct)
  case less
  show ?case
  proof (cases "length (mk_buffer m) < n")
    case True
    with less.prems have "pending w \<noteq> []" by auto
    then obtain c w' where c: "tr_receive T timeout w = Some (Inr c, w')"
      "pending w = c @ pending w'" "sent w' = sent w" "backlog w' < backlog w"
      using delivers by blast
    let ?m = "m\<lparr>mk_buffer := mk_buffer m @ c\<rparr>"
    have "\<exists>b w''. read_exactly T timeout n (?m, w') = Some (Inr xs, (?m\<lparr>mk_buffer := b\<rparr>, w'')) \<and>
        b @ pending w'' = rest \<and> sent w'' = sent w'"
      using c less.prems by (intro less.hyps) auto
    with True c show ?thesis by (subst read_exactly.simps) simp
  next
    case False
    then have "take n (mk_buffer m) = xs" "drop n (mk_buffer m) @ pending w = rest"
      using less.prems(2) arg_cong [OF less.prems(1), of "take n"] arg_cong [OF less.prems(1), of "drop n"]
      by simp_all
    with False show ?thesis by (subst read_exactly.simps) auto
  qed
qed

lemma read_byte_stream:
  assumes "mk_buffer m @ pending w = x # rest"
  obtains b w' where "read_byte T timeout (m, w) = Some (Inr x, (m\<lparr>mk_buffer := b\<rparr>, w'))"
    "b @ pending w' = rest" "sent w' = sent w"
proof -
  obtain b w' where "read_exactly T timeout 1 (m, w) = Some (Inr [x], (m\<lparr>mk_buffer := b\<rparr>, w'))"
    "b @ pending w' = rest" "sent w' = sent w"
    using read_exactly_stream [of m w "[x]" rest 1 timeout] assms by auto
  then show ?thesis by (intro that [of b w']) (simp_all add: read_byte_def eff_bind_run)
qed

lemma read_eoc_stream:
  assumes "mk_buffer m @ pending w = opcode_value OP_EOC # rest"
  obtains b w' where "read_eoc T timeout (m, w) = Some (Inr (), (m\<lparr>mk_buffer := b\<rparr>, w'))"
    "b @ pending w' = rest" "sent w' = sent w"
proof -
  obtain b w' where "read_byte T (Some timeout) (m, w) = Some (Inr (opcode_value OP_EOC), (m\<lparr>mk_buffer := b\<rparr>, w'))"
    "b @ pending w' = rest" "sent w' = sent w"
    by (rule read_byte_stream [OF assms])
  then show ?thesis by (intro that [of b w']) (simp_all add: read_eoc_def eff_bind_run)
qed

text \<open>An argument list the parser reads back: of the length the opcode announces.\<close>

lemma read_arguments_stream:
  assumes args: "if payload_length (Command t []) < 0 then length args \<le> 255
      else int (length args) = payload_length (Command t [])"
    and stream: "mk_buffer m @ pending w =
      (if payload_length (Command t []) < 0 then [word_of_nat (length args)] else []) @ args
        @ opcode_value OP_EOC # rest"
  obtains b w' where "read_arguments T t (m, w) = Some (Inr (Command t args), (m\<lparr>mk_buffer := b\<rparr>, w'))"
    "b @ pending w' = rest" "sent w' = sent w"
proof -
  let ?len = "if payload_length (Command t []) < 0
     then eff_bind (read_byte T (Some 100)) (\<lambda>b. eff_return (uint b))
     else eff_return (payload_length (Command t []))"
  have "uint (word_of_nat (length args) :: byte) = int (length args)" if "length args \<le> 255"
    using that by (simp add: unsigned_of_nat take_bit_nat_eq_self_iff)
  then obtain b1 w1 where len: "?len (m, w) = Some (Inr (int (length args)), (m\<lparr>mk_buffer := b1\<rparr>, w1))"
    "b1 @ pending w1 = args @ opcode_value OP_EOC # rest" "sent w1 = sent w"
  proof (cases "payload_length (Command t []) < 0")
    case True
    with stream have "mk_buffer m @ pending w = word_of_nat (length args) # args @ opcode_value OP_EOC # rest"
      by simp
    then obtain b1 w1 where "read_byte T (Some 100) (m, w) =
        Some (Inr (word_of_nat (length args)), (m\<lparr>mk_buffer := b1\<rparr>, w1))"
      "b1 @ pending w1 = args @ opcode_value OP_EOC # rest" "sent w1 = sent w"
      by (rule read_byte_stream)
    with True args \<open>length args \<le> 255 \<Longrightarrow> _\<close> show ?thesis
      by (intro that [of b1 w1]) (simp_all add: eff_bind_run)
  next
    case False
    with stream args show ?thesis by (intro that [of "mk_buffer m" w]) simp_all
  qed
  let ?m1 = "m\<lparr>mk_buffer := b1\<rparr>"
  let ?read = "if int (length args) > 0 then read_exactly T (Some 100) (nat (int (length args))) else eff_return []"
  obtain b2 w2 where read: "?read (?m1, w1) = Some (Inr args, (?m1\<lparr>mk_buffer := b2\<rparr>, w2))"
    "b2 @ pending w2 = opcode_value OP_EOC # rest" "sent w2 = sent w"
  proof (cases "args = []")
    case True
    with len show ?thesis by (intro that [of b1 w1]) simp_all
  next
    case False
    with len read_exactly_stream [of ?m1 w1 args "opcode_value OP_EOC # rest" "length args" "Some 100"] that
    show ?thesis by auto
  qed
  obtain b3 w3 where "read_eoc T 2 (?m1\<lparr>mk_buffer := b2\<rparr>, w2) = Some (Inr (), (m\<lparr>mk_buffer := b3\<rparr>, w3))"
    "b3 @ pending w3 = rest" "sent w3 = sent w"
    using read_eoc_stream [of "?m1\<lparr>mk_buffer := b2\<rparr>" w2 rest 2] read by auto
  with len(1) read(1) show ?thesis
    by (intro that [of b3 w3]) (simp_all add: read_arguments_def Let_def eff_bind_run)
qed

lemma receive_next_command_stream:
  assumes c: "OP_EOC < cmd_type c" "command_to_bytes c = Inr bs"
      "0 \<le> payload_length c \<Longrightarrow> int (length (cmd_args c)) = payload_length c"
    and junk: "\<forall>x \<in> set junk. \<not> is_command_byte x"
    and stream: "mk_buffer m @ pending w = junk @ bs @ rest"
  shows "\<exists>b w'. receive_next_command T (m, w) = Some (Inr c, (m\<lparr>mk_buffer := b\<rparr>, w')) \<and>
    b @ pending w' = rest \<and> sent w' = sent w"
  using junk stream
proof (induction junk arbitrary: m w)
  case Nil
  let ?t = "cmd_type c"
  have eq: "payload_length (Command ?t []) = payload_length c" "Command ?t (cmd_args c) = c"
    by (simp_all add: payload_length_def Command_def)
  let ?tail = "(if payload_length c < 0 then [word_of_nat (length (cmd_args c))] else []) @ cmd_args c
     @ opcode_value OP_EOC # rest"
  from c(2) Nil.prems(2) have "mk_buffer m @ pending w = opcode_value ?t # ?tail"
    by (auto simp: command_to_bytes_def split: if_splits)
  then obtain b1 w1 where 1: "read_byte T None (m, w) = Some (Inr (opcode_value ?t), (m\<lparr>mk_buffer := b1\<rparr>, w1))"
    "b1 @ pending w1 = ?tail" "sent w1 = sent w"
    by (rule read_byte_stream)
  have args: "if payload_length (Command ?t []) < 0 then length (cmd_args c) \<le> 255
      else int (length (cmd_args c)) = payload_length (Command ?t [])"
    using c(2,3) by (auto simp: eq command_to_bytes_def split: if_splits)
  obtain b2 w2 where 2: "read_arguments T ?t (m\<lparr>mk_buffer := b1\<rparr>, w1) =
      Some (Inr c, (m\<lparr>mk_buffer := b2\<rparr>, w2))" "b2 @ pending w2 = rest" "sent w2 = sent w"
    using read_arguments_stream [OF args, of "m\<lparr>mk_buffer := b1\<rparr>" w1 rest] 1 by (auto simp: eq)
  have "\<not> ?t \<le> OP_EOC" using c(1) by simp
  with 1 2 show ?case by (subst receive_next_command.simps) auto
next
  case (Cons x junk)
  then obtain b1 w1 where 1: "read_byte T None (m, w) = Some (Inr x, (m\<lparr>mk_buffer := b1\<rparr>, w1))"
    "b1 @ pending w1 = junk @ bs @ rest" "sent w1 = sent w"
    using read_byte_stream [of m w x "junk @ bs @ rest"] by (metis append_Cons)
  have "\<exists>b w'. receive_next_command T (m\<lparr>mk_buffer := b1\<rparr>, w1) =
      Some (Inr c, (m\<lparr>mk_buffer := b1\<rparr>\<lparr>mk_buffer := b\<rparr>, w')) \<and> b @ pending w' = rest \<and> sent w' = sent w1"
    using Cons.prems(1) 1(2) by (intro Cons.IH) auto
  with Cons.prems(1) 1 show ?case
    by (subst receive_next_command.simps) (auto simp: is_command_byte_def split: sum.splits)
qed

end

section \<open>The in-memory pipe\<close>

text \<open>
  \<open>InMemoryTransport\<close> of \<^verbatim>\<open>io/memory.py\<close> as its owner sees it: \<open>receive\<close> takes the next chunk of the
  incoming queue, \<open>send\<close> appends to the outgoing one. On an empty queue \<open>receive\<close> waits:
  until the enclosing timeout expires, or for ever.
\<close>

type_synonym pipe = "bytes list \<times> bytes list"

fun pipe_receive :: "nat option \<Rightarrow> (pipe, bytes) eff" where
  "pipe_receive timeout (c # incoming, outgoing) = Some (Inr c, (incoming, outgoing))"
| "pipe_receive (Some _) ([], outgoing) = Some (Inl TimeoutError, ([], outgoing))"
| "pipe_receive None ([], outgoing) = None"

fun pipe_send :: "bytes \<Rightarrow> (pipe, unit) eff" where
  "pipe_send data (incoming, outgoing) = Some (Inr (), (incoming, outgoing @ [data]))"

definition InMemoryTransport :: "pipe transport" where
  "InMemoryTransport = \<lparr>tr_send = pipe_send, tr_receive = pipe_receive\<rparr>"

lemma InMemoryTransport_simps [simp]:
  "tr_send InMemoryTransport = pipe_send" "tr_receive InMemoryTransport = pipe_receive"
  by (simp_all add: InMemoryTransport_def)

interpretation pipe: byte_source InMemoryTransport "\<lambda>w. concat (fst w)" snd "\<lambda>w. length (fst w)"
proof unfold_locales
  fix w :: pipe and timeout
  assume "concat (fst w) \<noteq> []"
  then obtain c cs out where "w = (c # cs, out)" by (cases w; cases "fst w") auto
  then show "\<exists>c w'. tr_receive InMemoryTransport timeout w = Some (Inr c, w') \<and>
      concat (fst w) = c @ concat (fst w') \<and> snd w' = snd w \<and> length (fst w') < length (fst w)"
    by simp
qed

section \<open>What one turn of the loop keeps\<close>

text \<open>Reading changes nothing of the object but its buffer.\<close>

definition same_device :: "mock \<Rightarrow> mock \<Rightarrow> bool" where
  "same_device m m' \<longleftrightarrow> m'\<lparr>mk_buffer := []\<rparr> = m\<lparr>mk_buffer := []\<rparr>"

lemma same_device_refl [simp]: "same_device m m"
  by (simp add: same_device_def)

lemma same_device_buffer [simp]: "same_device m (m\<lparr>mk_buffer := b\<rparr>)"
  "same_device (m\<lparr>mk_buffer := b\<rparr>) m' = same_device m m'"
  by (simp_all add: same_device_def)

lemma same_device_trans: "same_device a b \<Longrightarrow> same_device b c \<Longrightarrow> same_device a c"
  by (simp add: same_device_def)

lemma same_deviceD:
  assumes "same_device m m'"
  shows "mk_flash_memory m' = mk_flash_memory m" "mk_write_ptr m' = mk_write_ptr m"
    "mk_simulate_desync m' = mk_simulate_desync m" "mk_should_exit m' = mk_should_exit m"
proof -
  have eq: "m'\<lparr>mk_buffer := []\<rparr> = m\<lparr>mk_buffer := []\<rparr>" using assms by (simp add: same_device_def)
  show "mk_flash_memory m' = mk_flash_memory m" "mk_write_ptr m' = mk_write_ptr m"
    "mk_simulate_desync m' = mk_simulate_desync m" "mk_should_exit m' = mk_should_exit m"
    using arg_cong [OF eq, of mk_flash_memory] arg_cong [OF eq, of mk_write_ptr]
      arg_cong [OF eq, of mk_simulate_desync] arg_cong [OF eq, of mk_should_exit] by simp_all
qed

lemma read_exactly_frame:
  fixes T :: "'a transport"
  assumes "read_exactly T timeout n s = Some (r, s')"
  shows "same_device (fst s) (fst s')"
proof -
  have "same_device (fst s) (fst (snd (r, s')))"
  proof (rule read_exactly.raw_induct [OF _ assms, where P = "\<lambda>T timeout n s rs. same_device (fst s) (fst (snd rs))"])
    fix f :: "'a transport \<Rightarrow> nat option \<Rightarrow> nat \<Rightarrow> mock \<times> 'a \<Rightarrow> (bytes result \<times> mock \<times> 'a) option"
      and T :: "'a transport" and timeout n and s :: "mock \<times> 'a" and rs :: "bytes result \<times> mock \<times> 'a"
    assume IH: "\<And>T timeout n s rs. f T timeout n s = Some rs \<Longrightarrow> same_device (fst s) (fst (snd rs))"
    obtain m w r m' w' where s: "s = (m, w)" "rs = (r, m', w')" by (metis surj_pair)
    assume "(case s of (m, w) \<Rightarrow>
        if length (mk_buffer m) < n then
          Option.bind (tr_receive T timeout w) (\<lambda>(r, w1). case r of
              Inl e \<Rightarrow> Some (Inl e, m, w1)
            | Inr bytes_read \<Rightarrow> f T timeout n (m\<lparr>mk_buffer := mk_buffer m @ bytes_read\<rparr>, w1))
        else Some (Inr (take n (mk_buffer m)), m\<lparr>mk_buffer := drop n (mk_buffer m)\<rparr>, w)) = Some rs"
    then consider r1 where "tr_receive T timeout w = Some (Inl r1, w')" "m' = m"
      | c w1 where "f T timeout n (m\<lparr>mk_buffer := mk_buffer m @ c\<rparr>, w1) = Some (r, m', w')"
      | b where "m' = m\<lparr>mk_buffer := b\<rparr>"
      by (cases "tr_receive T timeout w"; cases "fst (the (tr_receive T timeout w))")
         (auto simp: s split: if_splits)
    then show "same_device (fst s) (fst (snd rs))" by cases (auto simp: s dest: IH)
  qed
  then show ?thesis by simp
qed

lemma eff_bind_frame:
  assumes "eff_bind g h s = Some (r, s')"
    and "\<And>r s'. g s = Some (r, s') \<Longrightarrow> same_device (fst s) (fst s')"
    and "\<And>a s1 r s'. g s = Some (Inr a, s1) \<Longrightarrow> h a s1 = Some (r, s') \<Longrightarrow> same_device (fst s1) (fst s')"
  shows "same_device (fst s) (fst s')"
proof -
  obtain r1 s1 where g: "g s = Some (r1, s1)" using assms(1) by (cases "g s") (auto simp: eff_bind_def)
  show ?thesis
  proof (cases r1)
    case (Inl e)
    with assms(1,2) g show ?thesis by (simp add: eff_bind_def)
  next
    case (Inr a)
    with assms(1) g have "h a s1 = Some (r, s')" by (simp add: eff_bind_def)
    with assms(2,3) g Inr show ?thesis by (blast intro: same_device_trans)
  qed
qed

lemma read_byte_frame: "read_byte T timeout s = Some (r, s') \<Longrightarrow> same_device (fst s) (fst s')"
  unfolding read_byte_def by (erule eff_bind_frame) (auto dest: read_exactly_frame)

lemma read_eoc_frame: "read_eoc T timeout s = Some (r, s') \<Longrightarrow> same_device (fst s) (fst s')"
  unfolding read_eoc_def by (erule eff_bind_frame) (auto dest: read_byte_frame split: if_splits)

lemma read_arguments_frame: "read_arguments T t s = Some (r, s') \<Longrightarrow> same_device (fst s) (fst s')"
  unfolding read_arguments_def Let_def
  by (erule eff_bind_frame)
     (auto elim!: eff_bind_frame dest: read_byte_frame read_exactly_frame read_eoc_frame split: if_splits)

lemma receive_next_command_frame:
  fixes T :: "'a transport"
  assumes "receive_next_command T s = Some (r, s')"
  shows "same_device (fst s) (fst s')"
proof -
  have "same_device (fst s) (fst (snd (r, s')))"
  proof (rule receive_next_command.raw_induct [OF _ assms, where P = "\<lambda>T s rs. same_device (fst s) (fst (snd rs))"])
    fix f :: "'a transport \<Rightarrow> mock \<times> 'a \<Rightarrow> (command result \<times> mock \<times> 'a) option"
      and T :: "'a transport" and s :: "mock \<times> 'a" and rs :: "command result \<times> mock \<times> 'a"
    assume IH: "\<And>T s rs. f T s = Some rs \<Longrightarrow> same_device (fst s) (fst (snd rs))"
    obtain r m' w' where rs: "rs = (r, m', w')" by (metis surj_pair)
    assume "Option.bind (read_byte T None s) (\<lambda>(r, s1). case r of
          Inl e \<Rightarrow> Some (Inl e, s1)
        | Inr b \<Rightarrow> (case opcode_of b of Inl _ \<Rightarrow> f T s1
            | Inr opcode \<Rightarrow> if opcode \<le> OP_EOC then f T s1 else read_arguments T opcode s1)) = Some rs"
    then obtain r1 m1 w1 where byte: "read_byte T None s = Some (r1, m1, w1)"
      and rest: "(case r1 of Inl e \<Rightarrow> Some (Inl e, m1, w1)
        | Inr b \<Rightarrow> (case opcode_of b of Inl _ \<Rightarrow> f T (m1, w1)
            | Inr opcode \<Rightarrow> if opcode \<le> OP_EOC then f T (m1, w1) else read_arguments T opcode (m1, w1)))
        = Some (r, m', w')"
      by (auto simp: bind_eq_Some_conv rs)
    from rest have "same_device m1 m'"
      by (auto split: sum.splits if_splits dest: IH read_arguments_frame)
    with read_byte_frame [OF byte] show "same_device (fst s) (fst (snd rs))" by (auto simp: rs intro: same_device_trans)
  qed
  then show ?thesis by simp
qed

section \<open>Properties of the reader\<close>

text \<open>C30. The mock bootloader parses every encoded command: from an in-memory transport that delivers the
  bytes in any fragmentation, after any bytes that do not start a command and whatever follows,
  the next command it receives is the one that was encoded, and the bytes behind it are untouched.\<close>

theorem mock_parses_commands:
  assumes "OP_EOC < cmd_type c" "command_to_bytes c = Inr bs"
    and "0 \<le> payload_length c \<Longrightarrow> int (length (cmd_args c)) = payload_length c"
    and "\<forall>x \<in> set junk. \<not> is_command_byte x"
    and "mk_buffer m @ concat chunks = junk @ bs @ rest"
  shows "\<exists>b chunks'. receive_next_command InMemoryTransport (m, (chunks, sent)) =
      Some (Inr c, (m\<lparr>mk_buffer := b\<rparr>, (chunks', sent))) \<and> b @ concat chunks' = rest"
  using pipe.receive_next_command_stream [OF assms(1-4), of m "(chunks, sent)" rest] assms(5) by simp

lemma mock_parses_commands_witness:
  "\<exists>b chunks'. receive_next_command InMemoryTransport
       (MockBootloader (\<lambda>_. 1) 16, ([[0x12, 0x27], [3], [1, 2], [3, 0x20, 0x21]], [])) =
      Some (Inr (Command OP_PROG_MULTI [1, 2, 3]), ((MockBootloader (\<lambda>_. 1) 16)\<lparr>mk_buffer := b\<rparr>, (chunks', [])))
      \<and> b @ concat chunks' = [0x21]"
  by (rule mock_parses_commands [where junk = "[0x12]" and bs = "[0x27, 3, 1, 2, 3, 0x20]"])
     (simp_all add: command_to_bytes_def payload_length_def is_command_byte_def opcode_of_def
       opcodes_def less_opcode_def MockBootloader_def)

text \<open>Writing to the simulated flash memory: a write of at most the size of the memory, with losses
  switched off, stores byte \<open>i\<close> of the data at address \<open>(pointer + i) mod size\<close>, changes nothing
  else, and leaves the pointer behind the last byte; when the write passes the end of the memory it
  continues at address 0.\<close>

theorem flash_write_wraps:
  assumes "\<not> mk_simulate_desync m" "mk_write_ptr m \<le> length (mk_flash_memory m)"
    and "length data \<le> length (mk_flash_memory m)"
    and "write_to_flash_memory data m = (r, m')"
  shows "r = Inr () \<and> length (mk_flash_memory m') = length (mk_flash_memory m) \<and>
    mk_write_ptr m' = (if mk_write_ptr m + length data \<le> length (mk_flash_memory m)
      then mk_write_ptr m + length data
      else mk_write_ptr m + length data - length (mk_flash_memory m)) \<and>
    (\<forall>j < length (mk_flash_memory m). mk_flash_memory m' ! j =
      (if mk_write_ptr m \<le> j \<and> j < mk_write_ptr m + length data then data ! (j - mk_write_ptr m)
       else if j + length (mk_flash_memory m) < mk_write_ptr m + length data
       then data ! (j + length (mk_flash_memory m) - mk_write_ptr m)
       else mk_flash_memory m ! j))"
proof (cases "mk_write_ptr m + length data \<le> length (mk_flash_memory m)")
  case True
  with assms write_fits [OF assms(1) True] show ?thesis by (auto simp: nth_overwrite)
next
  case False
  with assms(1-3) have "write_to_flash_memory data m = (Inr (), m\<lparr>
      mk_flash_memory := overwrite 0 (drop (length (mk_flash_memory m) - mk_write_ptr m) data)
        (overwrite (mk_write_ptr m) (take (length (mk_flash_memory m) - mk_write_ptr m) data) (mk_flash_memory m)),
      mk_write_ptr := length data - (length (mk_flash_memory m) - mk_write_ptr m)\<rparr>)"
    by (intro write_wraps) simp_all
  with False assms(2-4) show ?thesis by (auto simp: nth_overwrite min_def ac_simps)
qed

lemma flash_write_wraps_witness:
  "mk_write_ptr (snd (write_to_flash_memory [1, 2, 3] (set_write_pointer 3 (MockBootloader (\<lambda>_. 1) 4)))) = 2
   \<and> mk_flash_memory (snd (write_to_flash_memory [1, 2, 3] (set_write_pointer 3 (MockBootloader (\<lambda>_. 1) 4)))) ! 1 = 3"
  using flash_write_wraps [of "set_write_pointer 3 (MockBootloader (\<lambda>_. 1) 4)" "[1, 2, 3]"
     "fst (write_to_flash_memory [1, 2, 3] (set_write_pointer 3 (MockBootloader (\<lambda>_. 1) 4)))"
     "snd (write_to_flash_memory [1, 2, 3] (set_write_pointer 3 (MockBootloader (\<lambda>_. 1) 4)))"]
  by (simp add: set_write_pointer_def MockBootloader_def)

lemma respond_keeps:
  "respond c m = (x, m') \<Longrightarrow> length (mk_flash_memory m') = length (mk_flash_memory m) \<and> (mock_inv m \<longrightarrow> mock_inv m')"
  using handle_keeps [of c m] by (auto simp: respond_def split: prod.splits sum.splits)

text \<open>C35. One turn of the serving loop, on any transport, with simulated losses, dropped responses,
  malformed commands and exceptions, keeps the size of the flash memory and the write pointer
  inside it.\<close>

theorem serving_keeps_flash_bounds:
  assumes "run_once T (m, w) = Some (r, (m', w'))" and "mk_write_ptr m \<le> length (mk_flash_memory m)"
  shows "length (mk_flash_memory m') = length (mk_flash_memory m) \<and> mk_write_ptr m' \<le> length (mk_flash_memory m')"
proof -
  let ?keeps = "\<lambda>m1. length (mk_flash_memory m1) = length (mk_flash_memory m) \<and> mock_inv m1"
  from assms(1) obtain r1 m1 w1 where rcv: "receive_next_command T (m, w) = Some (r1, (m1, w1))"
    by (auto simp: run_once_def bind_eq_Some_conv)
  have "same_device m m1" using receive_next_command_frame [OF rcv] by simp
  then have m1: "?keeps m1" using assms(2) by (simp add: mock_inv_def same_deviceD)
  have resp: "?keeps m2" if "respond c m1 = (x, m2)" for c x m2
    using respond_keeps [OF that] m1 by simp
  have drop: "mock_inv (q\<lparr>mk_drop_next_response := b\<rparr>) = mock_inv q" for q b by (simp add: mock_inv_def)
  have "?keeps m'"
    using assms(1) rcv m1 resp
    by (auto simp: run_once_def drop Let_def split: sum.splits option.splits if_splits prod.splits)
  then show ?thesis by (simp add: mock_inv_def)
qed

lemma serving_keeps_flash_bounds_witness:
  "\<exists>m' w'. run_once InMemoryTransport (MockBootloader (\<lambda>_. 1) 2, ([[0x21, 0x20]], [])) = Some (Inr (), (m', w'))
     \<and> length (mk_flash_memory m') = 2 \<and> mk_write_ptr m' \<le> 2"
proof -
  let ?m = "MockBootloader (\<lambda>_. 1) 2"
  obtain b chunks' where "receive_next_command InMemoryTransport (?m, ([[0x21, 0x20]], [])) =
      Some (Inr Command_get_sync, (?m\<lparr>mk_buffer := b\<rparr>, (chunks', [])))"
    using pipe.receive_next_command_stream [of Command_get_sync "[0x21, 0x20]" "[]" ?m "([[0x21, 0x20]], [])" "[]"]
    by (auto simp: Command_get_sync_def command_to_bytes_def payload_length_def less_opcode_def MockBootloader_def)
  then obtain m' w' where run: "run_once InMemoryTransport (?m, ([[0x21, 0x20]], [])) = Some (Inr (), (m', w'))"
    by (auto simp: run_once_def respond_def handle_command_def Command_get_sync_def MockBootloader_def)
  from serving_keeps_flash_bounds [OF run] run show ?thesis by (auto simp: MockBootloader_def)
qed

text \<open>The hazard that the uploader has to survive: with losses simulated, a program command whose
  acknowledgment is lost has been executed all the same: its data is in the flash memory and the
  write pointer is behind it, only no response leaves the device.\<close>

theorem lost_acknowledgment_after_write:
  assumes "Command_program_bytes data = Inr c" "data \<noteq> []"
    and "mk_simulate_desync m" "mk_random m 0 < 1 / 100"
    and "4096 \<le> mk_write_ptr m + length data"
    and "mk_write_ptr m + length data \<le> length (mk_flash_memory m)"
    and "respond c m = (resp, m')"
  shows "resp = None \<and> mk_flash_memory m' = overwrite (mk_write_ptr m) data (mk_flash_memory m) \<and>
    mk_write_ptr m' = mk_write_ptr m + length data"
proof -
  have c: "c = Command OP_PROG_MULTI data" using assms(1) by (auto simp: Command_program_bytes_def split: if_splits)
  have "write_to_flash_memory data m = (Inl SimulatedPacketLossError, m\<lparr>
      mk_flash_memory := overwrite (mk_write_ptr m) data (mk_flash_memory m),
      mk_write_ptr := mk_write_ptr m + length data, mk_random := \<lambda>n. mk_random m (Suc n)\<rparr>)"
    using assms(2-6) by (subst write_to_flash_memory.simps) (auto simp: Let_def overwrite_def)
  with assms(7) show ?thesis by (auto simp: respond_def handle_command_def c)
qed

lemma lost_acknowledgment_after_write_witness:
  "fst (respond (Command OP_PROG_MULTI [1]) ((set_write_pointer 4095 (MockBootloader (\<lambda>_. 0) 5000))\<lparr>mk_simulate_desync := True\<rparr>)) = None"
  using lost_acknowledgment_after_write [of "[1]" "Command OP_PROG_MULTI [1]"
      "(set_write_pointer 4095 (MockBootloader (\<lambda>_. 0) 5000))\<lparr>mk_simulate_desync := True\<rparr>"]
  by (cases "respond (Command OP_PROG_MULTI [1]) ((set_write_pointer 4095 (MockBootloader (\<lambda>_. 0) 5000))\<lparr>mk_simulate_desync := True\<rparr>)")
     (simp add: Command_program_bytes_def PROG_MULTI_MAX_PAYLOAD_LENGTH_def set_write_pointer_def MockBootloader_def)

end
