(* ===== verification/X25.thy ===== *)
theory X25
  imports Checksum
begin

text \<open>
  The packet checksum of \<^verbatim>\<open>mavlink.py\<close>: the class \<open>x25crc\<close> on Python integers, its equality with the
  bitwise CRC-16/MCRF4XX register (reflected polynomial 0x8408), and the second interpretation of
  the checksum interface.
\<close>

section \<open>The code\<close>

text \<open>One round of the loop of \<open>accumulate\<close>.\<close>

definition x25_step :: "int \<Rightarrow> byte \<Rightarrow> int" where
  "x25_step accum b =
     (let tmp1 = uint b XOR (accum AND 0xFF);
          tmp2 = (tmp1 XOR push_bit 4 tmp1) AND 0xFF
      in drop_bit 8 accum XOR push_bit 8 tmp2 XOR push_bit 3 tmp2 XOR drop_bit 4 tmp2)"

fun accumulate :: "bytes \<Rightarrow> int \<Rightarrow> int" where
  "accumulate [] accum = accum"
| "accumulate (b # buf) accum = accumulate buf (x25_step accum b)"

definition x25crc :: "bytes \<Rightarrow> int" where
  "x25crc buf = accumulate buf 0xFFFF"

section \<open>The bitwise reference\<close>

definition x25_ref_step :: "16 word \<Rightarrow> byte \<Rightarrow> 16 word" where
  "x25_ref_step s b = (lfsr 0x8408 ^^ 8) (s XOR ucast b)"

text \<open>The contribution of the low byte, which the code computes without a table.\<close>

definition x25_low :: "int \<Rightarrow> int" where
  "x25_low i = (let t = (i XOR push_bit 4 i) AND 0xFF in push_bit 8 t XOR push_bit 3 t XOR drop_bit 4 t)"

lemma x25_low_generated: "table_from (lfsr_int 0x8408 8) 0 (map (\<lambda>n. x25_low (int n)) [0..<256])"
  by code_simp

lemma x25_low_lfsr: "n < 256 \<Longrightarrow> x25_low (int n) = lfsr_int 0x8408 8 (int n)"
  using table_from_nth [OF x25_low_generated, of n] by simp

lemma x25_low_ref:
  assumes "uint i < 256"
  shows "x25_low (uint i) = uint ((lfsr 0x8408 ^^ 8) (i :: 16 word))"
proof -
  have "uint i = int (unat i)" by simp
  moreover have "unat i < 256" using assms by (metis calculation of_nat_less_iff of_nat_numeral)
  ultimately show ?thesis using x25_low_lfsr [of "unat i"] by (simp add: uint_lfsrs del: of_nat_unat)
qed

lemma mask_8_16: "(mask 8 :: 16 word) = 0xFF"
  by (simp add: mask_eq_exp_minus_1)

lemma uint_mask_8_less: "uint (x AND mask 8 :: 16 word) < 256"
proof -
  have "uint (x AND mask 8) \<le> uint (mask 8 :: 16 word)"
    by (metis word_and_le1 word_le_def)
  then show ?thesis by (simp add: mask_8_16)
qed

lemma uint_ucast_16: "uint (ucast b :: 16 word) = uint (b :: byte)"
  using uint_byte_bounds [of b] by (simp add: unsigned_ucast_eq take_bit_int_eq_self_iff)

lemma x25_step_low: "x25_step accum b = drop_bit 8 accum XOR x25_low (uint b XOR (accum AND 0xFF))"
  by (simp add: x25_step_def x25_low_def Let_def xor.assoc)

lemma x25_step_ref: "x25_step (uint s) b = uint (x25_ref_step s b)"
proof -
  let ?x = "s XOR ucast b :: 16 word"
  let ?i = "?x AND mask 8"
  have "?i = ucast b XOR (s AND mask 8)"
    by (rule bit_eqI) (auto simp: bit_simps dest: bit_imp_le_length)
  then have i: "uint ?i = uint b XOR (uint s AND 0xFF)"
    by (simp add: unsigned_xor_eq unsigned_and_eq uint_ucast_16 mask_8_16)
  have "drop_bit 8 ?x = drop_bit 8 s"
    by (rule bit_eqI) (auto simp: bit_simps dest: bit_imp_le_length)
  moreover have "take_bit 16 (uint s) = uint s"
    using uint_lt2p [of s] by (simp add: take_bit_int_eq_self_iff)
  ultimately have hi: "uint (drop_bit 8 ?x) = drop_bit 8 (uint s)"
    by (simp only: unsigned_drop_bit_eq) simp
  have "uint (x25_ref_step s b) = uint ((lfsr 0x8408 ^^ 8) ?i) XOR uint (drop_bit 8 ?x)"
    by (simp only: x25_ref_step_def lfsr_byte_table [of _ ?x] unsigned_xor_eq)
  then show ?thesis
    by (simp only: x25_step_low hi i [symmetric] x25_low_ref [OF uint_mask_8_less, of ?x] xor.commute)
qed

lemma accumulate_foldl: "accumulate bs s = foldl x25_step s bs"
  by (induction bs arbitrary: s) auto

lemma accumulate_ref: "accumulate bs (uint s) = uint (foldl x25_ref_step s bs)"
  by (induction bs arbitrary: s) (auto simp: x25_step_ref)

lemma x25_range_uint: "0 \<le> s \<Longrightarrow> s < 2 ^ 16 \<Longrightarrow> uint (word_of_int s :: 16 word) = s"
  by (simp add: uint_word_of_int)

lemma x25_step_word:
  assumes "0 \<le> s" "s < 2 ^ 16"
  shows "x25_step s b = uint (x25_ref_step (word_of_int s) b)"
  using x25_step_ref [of "word_of_int s" b] x25_range_uint [OF assms] by simp

lemma x25_poly_top: "bit (0x8408 :: 16 word) (LENGTH(16) - 1)"
  by simp

text \<open>The interface of a checksum, discharged for \<open>x25crc\<close>.\<close>

interpretation x25: byte_checksum x25_step "\<lambda>s. 0 \<le> s \<and> s < 2 ^ 16"
proof unfold_locales
  fix s :: int and b :: byte
  assume "0 \<le> s \<and> s < 2 ^ 16"
  then show "0 \<le> x25_step s b \<and> x25_step s b < 2 ^ 16"
    using uint_lt2p [of "x25_ref_step (word_of_int s) b"] by (simp add: x25_step_word)
next
  fix s s' :: int and b :: byte
  assume s: "0 \<le> s \<and> s < 2 ^ 16" and s': "0 \<le> s' \<and> s' < 2 ^ 16"
    and "x25_step s b = x25_step s' b"
  then have "x25_ref_step (word_of_int s) b = x25_ref_step (word_of_int s') b"
    by (auto simp: x25_step_word intro: word_uint_eqI)
  then have "(word_of_int s :: 16 word) = word_of_int s'"
    by (simp only: x25_ref_step_def lfsrs_inj [OF x25_poly_top] xor_right_cancel)
  then show "s = s'" using s s' by (metis x25_range_uint)
next
  fix s :: int and b b' :: byte
  assume "0 \<le> s \<and> s < 2 ^ 16" and "x25_step s b = x25_step s b'"
  then have "x25_ref_step (word_of_int s) b = x25_ref_step (word_of_int s) b'"
    by (auto simp: x25_step_word intro: word_uint_eqI)
  then have "(ucast b :: 16 word) = ucast b'"
    by (simp only: x25_ref_step_def lfsrs_inj [OF x25_poly_top] xor_left_cancel)
  then show "b = b'" by (metis uint_ucast_16 word_uint_eqI)
qed

lemma x25crc_bounds: "0 \<le> x25crc bs" "x25crc bs < 2 ^ 16"
  using x25.fold_valid [of "0xFFFF" bs] by (simp_all add: x25crc_def accumulate_foldl)

section \<open>Properties\<close>

text \<open>C38. \<open>x25crc\<close>, which updates a Python integer with shifts that are never cut to 16 bits, computes
  the bitwise CRC-16/MCRF4XX register (initial value 0xFFFF) on every input, so its result always
  fits the two bytes it is packed into; and changing any single byte of a message changes it.\<close>

theorem x25crc_computes_register:
  "x25crc bs = uint (foldl x25_ref_step 0xFFFF bs) \<and> (b \<noteq> b' \<longrightarrow> x25crc (pre @ b # post) \<noteq> x25crc (pre @ b' # post))"
proof
  show "x25crc bs = uint (foldl x25_ref_step 0xFFFF bs)"
    using accumulate_ref [of bs "0xFFFF"] by (simp add: x25crc_def)
  show "b \<noteq> b' \<longrightarrow> x25crc (pre @ b # post) \<noteq> x25crc (pre @ b' # post)"
    using x25.single_byte_change [of "0xFFFF" pre b post b'] by (auto simp: x25crc_def accumulate_foldl)
qed

lemma x25crc_computes_register_witness:
  "x25crc [0x31, 0x32] = uint (foldl x25_ref_step 0xFFFF [0x31, 0x32]) \<and> x25crc [0x31, 0x32] \<noteq> x25crc [0x31, 0x33]"
  using x25crc_computes_register [of "[0x31, 0x32]" "0x32" "0x33" "[0x31]" "[]"] by simp

end
