(* ===== verification/Struct_Codec.thy ===== *)
theory Struct_Codec
  imports Prelude
begin

text \<open>
  The part of Python's \<open>struct\<close> module that \<^verbatim>\<open>mavlink.py\<close> uses, in little-endian formats without
  padding: a format is the list of its items, packing raises \<open>struct.error\<close> on a value that is out of
  range, unpacking on a buffer that has not the size of the format. A \<open>float\<close> that passes through
  a 4-byte item is modelled by its IEEE binary32 pattern.
\<close>

datatype fmt = FmtB | FmtH | FmtI | FmtInt32 | FmtF | FmtS nat

text \<open>\<open>VStr\<close> stands for a decoded text field, whose contents no modelled code reads.\<close>

datatype field = VInt int | VFloat "32 word" | VBytes bytes | VStr

fun fmt_size :: "fmt \<Rightarrow> nat" where
  "fmt_size FmtB = 1"
| "fmt_size FmtH = 2"
| "fmt_size FmtI = 4"
| "fmt_size FmtInt32 = 4"
| "fmt_size FmtF = 4"
| "fmt_size (FmtS n) = n"

definition calcsize :: "fmt list \<Rightarrow> nat" where
  "calcsize fs = sum_list (map fmt_size fs)"

text \<open>The binary32 pattern of a small natural number (exact below \<open>2 ^ 24\<close>).\<close>

definition float32_of_int :: "int \<Rightarrow> 32 word" where
  "float32_of_int n =
     (if n \<le> 0 then 0
      else let e = length (takeWhile (\<lambda>k. 2 ^ k \<le> n) [0..<24]) - 1
           in word_of_int ((int e + 127) * 2 ^ 23 + (n - 2 ^ e) * 2 ^ (23 - e)))"

fun pack_field :: "fmt \<Rightarrow> field \<Rightarrow> bytes result" where
  "pack_field FmtB (VInt v) = (if 0 \<le> v \<and> v < 2 ^ 8 then Inr (le_digits 1 v) else Inl StructError)"
| "pack_field FmtH (VInt v) = (if 0 \<le> v \<and> v < 2 ^ 16 then Inr (le_digits 2 v) else Inl StructError)"
| "pack_field FmtI (VInt v) = (if 0 \<le> v \<and> v < 2 ^ 32 then Inr (le_digits 4 v) else Inl StructError)"
| "pack_field FmtInt32 (VInt v) =
     (if - (2 ^ 31) \<le> v \<and> v < 2 ^ 31 then Inr (le_digits 4 v) else Inl StructError)"
| "pack_field FmtF (VFloat w) = Inr (le_digits 4 (uint w))"
| "pack_field (FmtS n) (VBytes bs) = Inr (take n bs @ replicate (n - length bs) 0)"
| "pack_field _ _ = Inl StructError"

fun struct_pack :: "(fmt \<times> field) list \<Rightarrow> bytes result" where
  "struct_pack [] = Inr []"
| "struct_pack ((f, v) # fvs) =
     (case pack_field f v of Inl e \<Rightarrow> Inl e
      | Inr bs \<Rightarrow> map_sum id (\<lambda>rest. bs @ rest) (struct_pack fvs))"

fun unpack_field :: "fmt \<Rightarrow> bytes \<Rightarrow> field" where
  "unpack_field FmtF bs = VFloat (word_of_int (from_bytes_le bs))"
| "unpack_field (FmtS n) bs = VBytes bs"
| "unpack_field FmtInt32 bs =
     (let v = from_bytes_le bs in VInt (if v < 2 ^ 31 then v else v - 2 ^ 32))"
| "unpack_field _ bs = VInt (from_bytes_le bs)"

fun unpack_fields :: "fmt list \<Rightarrow> bytes \<Rightarrow> field list" where
  "unpack_fields [] bs = []"
| "unpack_fields (f # fs) bs =
     unpack_field f (take (fmt_size f) bs) # unpack_fields fs (drop (fmt_size f) bs)"

definition struct_unpack :: "fmt list \<Rightarrow> bytes \<Rightarrow> field list result" where
  "struct_unpack fs bs = (if length bs = calcsize fs then Inr (unpack_fields fs bs) else Inl StructError)"

section \<open>Packing and unpacking are inverse\<close>

text \<open>A fixed-size bytes item comes back padded or cut to its size.\<close>

fun stored :: "fmt \<Rightarrow> field \<Rightarrow> field" where
  "stored (FmtS n) (VBytes bs) = VBytes (take n bs @ replicate (n - length bs) 0)"
| "stored _ v = v"

lemma pack_field_length: "pack_field f v = Inr bs \<Longrightarrow> length bs = fmt_size f"
  by (induction f v rule: pack_field.induct) (auto simp: min_def split: if_splits)

lemma mod_negative: "- m \<le> v \<Longrightarrow> v < 0 \<Longrightarrow> v mod m = v + m" for v m :: int
  by (metis add.commute mod_add_self2 mod_pos_pos_trivial add_increasing2 diff_ge_0_iff_ge
      add_less_same_cancel2 diff_minus_eq_add)

lemma signed_digits:
  assumes "- (2 ^ 31) \<le> v" "v < 2 ^ 31"
  shows "(let u = from_bytes_le (le_digits 4 v) in if u < 2 ^ 31 then u else u - 2 ^ 32) = v"
proof (cases "0 \<le> v")
  case True
  with assms show ?thesis by (simp add: codec_simps)
next
  case False
  with assms have "v mod 256 ^ 4 = v + 2 ^ 32" using mod_negative [of "256 ^ 4" v] by simp
  with False assms show ?thesis by (simp only: codec_simps Let_def) simp
qed

lemma unpack_pack_field: "pack_field f v = Inr bs \<Longrightarrow> unpack_field f bs = stored f v"
proof (induction f v rule: pack_field.induct)
  case (4 v)
  then have "bs = le_digits 4 v" "- (2 ^ 31) \<le> v" "v < 2 ^ 31" by (auto split: if_splits)
  with signed_digits [of v] show ?case by (simp only: unpack_field.simps stored.simps Let_def)
next
  case (5 w)
  have "uint w mod 4294967296 = uint w" using uint_lt2p [of w] by simp
  with 5 show ?case by (auto simp: codec_simps)
qed (auto simp: codec_simps uint_word_of_int_byte split: if_splits)

lemma struct_pack_cons:
  assumes "struct_pack ((f, v) # fvs) = Inr bs"
  obtains b bs' where "pack_field f v = Inr b" "struct_pack fvs = Inr bs'" "bs = b @ bs'"
  using assms by (cases "struct_pack fvs") (auto split: sum.splits)

lemma struct_pack_length: "struct_pack fvs = Inr bs \<Longrightarrow> length bs = calcsize (map fst fvs)"
proof (induction fvs arbitrary: bs)
  case (Cons fv fvs)
  obtain f v where "fv = (f, v)" by (cases fv)
  with Cons show ?case
    by (auto simp: calcsize_def dest: pack_field_length elim!: struct_pack_cons simp del: struct_pack.simps)
qed (simp add: calcsize_def)

lemma unpack_fields_pack:
  "struct_pack fvs = Inr bs \<Longrightarrow> unpack_fields (map fst fvs) (bs @ rest) = map (\<lambda>(f, v). stored f v) fvs"
proof (induction fvs arbitrary: bs)
  case (Cons fv fvs)
  obtain f v where fv: "fv = (f, v)" by (cases fv)
  with Cons.prems obtain b bs' where b: "pack_field f v = Inr b" "struct_pack fvs = Inr bs'" "bs = b @ bs'"
    using struct_pack_cons by metis
  then have "fmt_size f = length b" using pack_field_length by simp
  with b Cons.IH [OF b(2)] fv unpack_pack_field [OF b(1)] show ?case by simp
qed simp

end
