(* ===== verification/Mavlink.thy ===== *)
theory Mavlink
  imports X25 Struct_Codec
begin

text \<open>
  The MAVLink 1 and 2 codec of \<^verbatim>\<open>mavlink.py\<close>: packet headers, the four message classes with their
  wire formats, packing (with the trailing-zero truncation of MAVLink 2), the byte-stream parser
  with its bad-data recovery, decoding with checksum and signature checks. SHA-256 (\<open>hashlib\<close>)
  is an argument \<open>sha256\<close> of the signing operations. Texts of errors leave out interpolated numbers.
\<close>

section \<open>Headers\<close>

definition PROTOCOL_MARKER_V1 :: byte where "PROTOCOL_MARKER_V1 = 0xFE"
definition PROTOCOL_MARKER_V2 :: byte where "PROTOCOL_MARKER_V2 = 0xFD"
definition HEADER_LEN_V1 :: nat where "HEADER_LEN_V1 = 6"
definition HEADER_LEN_V2 :: nat where "HEADER_LEN_V2 = 10"
definition MAVLINK_SIGNATURE_BLOCK_LEN :: nat where "MAVLINK_SIGNATURE_BLOCK_LEN = 13"
definition MAVLINK_IFLAG_SIGNED :: int where "MAVLINK_IFLAG_SIGNED = 1"

lemmas mavlink_constants [simp] = PROTOCOL_MARKER_V1_def PROTOCOL_MARKER_V2_def
  HEADER_LEN_V1_def HEADER_LEN_V2_def MAVLINK_SIGNATURE_BLOCK_LEN_def MAVLINK_IFLAG_SIGNED_def

record mav_header =
  mh_msg_id :: int
  mh_incompat_flags :: int
  mh_compat_flags :: int
  mh_mlen :: int
  mh_seq :: int
  mh_source_system :: int
  mh_source_component :: int

definition MAVLinkHeader :: "int \<Rightarrow> int \<Rightarrow> int \<Rightarrow> int \<Rightarrow> int \<Rightarrow> int \<Rightarrow> int \<Rightarrow> mav_header" where
  "MAVLinkHeader msg_id incompat_flags compat_flags mlen seq source_system source_component =
     \<lparr>mh_msg_id = msg_id, mh_incompat_flags = incompat_flags, mh_compat_flags = compat_flags,
      mh_mlen = mlen, mh_seq = seq, mh_source_system = source_system,
      mh_source_component = source_component\<rparr>"

definition header_pack :: "bool \<Rightarrow> mav_header \<Rightarrow> bytes result" where
  "header_pack force_mavlink1 h =
     (if \<not> force_mavlink1 then
        struct_pack [(FmtB, VInt 253), (FmtB, VInt (mh_mlen h)), (FmtB, VInt (mh_incompat_flags h)),
          (FmtB, VInt (mh_compat_flags h)), (FmtB, VInt (mh_seq h)), (FmtB, VInt (mh_source_system h)),
          (FmtB, VInt (mh_source_component h)), (FmtH, VInt (mh_msg_id h AND 0xFFFF)),
          (FmtB, VInt (drop_bit 16 (mh_msg_id h)))]
      else
        struct_pack [(FmtB, VInt (uint PROTOCOL_MARKER_V1)), (FmtB, VInt (mh_mlen h)), (FmtB, VInt (mh_seq h)),
          (FmtB, VInt (mh_source_system h)), (FmtB, VInt (mh_source_component h)),
          (FmtB, VInt (mh_msg_id h))])"

section \<open>Messages\<close>

text \<open>The message classes with the arguments of their constructors.\<close>

datatype mav_body =
    MAVLinkHeartbeatMessage (hb_type: int) (hb_autopilot: int) (hb_base_mode: int)
      (hb_custom_mode: int) (hb_system_status: int) (hb_mavlink_version: int)
  | MAVLinkCommandLongMessage (cl_target_system: int) (cl_target_component: int) (cl_command: int)
      (cl_confirmation: int) (cl_param1: "32 word") (cl_param2: "32 word") (cl_param3: "32 word")
      (cl_param4: "32 word") (cl_param5: "32 word") (cl_param6: "32 word") (cl_param7: "32 word")
  | MAVLinkCommandACKMessage (ca_command: int) (ca_result: int) (ca_progress: int)
      (ca_result_param2: int) (ca_target_system: int) (ca_target_component: int)
  | MAVLinkParamSetMessage (ps_target_system: int) (ps_target_component: int) (ps_param_id: bytes)
      (ps_param_value: "32 word") (ps_param_type: int)
  | MAVLinkBadData (bd_data: bytes) (bd_reason: exn)
  | MAVLinkUnknownMessage (um_msg_id: int) (um_data: bytes)

definition MAV_CMD_PREFLIGHT_REBOOT_SHUTDOWN :: int where "MAV_CMD_PREFLIGHT_REBOOT_SHUTDOWN = 246"
definition MAV_CMD_FLASH_BOOTLOADER :: int where "MAV_CMD_FLASH_BOOTLOADER = 42650"
definition MAVLINK_MSG_ID_BAD_DATA :: int where "MAVLINK_MSG_ID_BAD_DATA = -1"
definition MAVLINK_MSG_ID_UNKNOWN :: int where "MAVLINK_MSG_ID_UNKNOWN = -2"
definition MAVLINK_MSG_ID_HEARTBEAT :: int where "MAVLINK_MSG_ID_HEARTBEAT = 0"
definition MAVLINK_MSG_ID_PARAM_SET :: int where "MAVLINK_MSG_ID_PARAM_SET = 23"
definition MAVLINK_MSG_ID_COMMAND_LONG :: int where "MAVLINK_MSG_ID_COMMAND_LONG = 76"
definition MAVLINK_MSG_ID_COMMAND_ACK :: int where "MAVLINK_MSG_ID_COMMAND_ACK = 77"

lemmas msg_id_constants [simp] = MAVLINK_MSG_ID_BAD_DATA_def MAVLINK_MSG_ID_UNKNOWN_def
  MAVLINK_MSG_ID_HEARTBEAT_def MAVLINK_MSG_ID_PARAM_SET_def MAVLINK_MSG_ID_COMMAND_LONG_def
  MAVLINK_MSG_ID_COMMAND_ACK_def

fun class_msg_id :: "mav_body \<Rightarrow> int" where
  "class_msg_id (MAVLinkHeartbeatMessage _ _ _ _ _ _) = MAVLINK_MSG_ID_HEARTBEAT"
| "class_msg_id (MAVLinkCommandLongMessage _ _ _ _ _ _ _ _ _ _ _) = MAVLINK_MSG_ID_COMMAND_LONG"
| "class_msg_id (MAVLinkCommandACKMessage _ _ _ _ _ _) = MAVLINK_MSG_ID_COMMAND_ACK"
| "class_msg_id (MAVLinkParamSetMessage _ _ _ _ _) = MAVLINK_MSG_ID_PARAM_SET"
| "class_msg_id (MAVLinkBadData _ _) = MAVLINK_MSG_ID_BAD_DATA"
| "class_msg_id (MAVLinkUnknownMessage _ _) = MAVLINK_MSG_ID_UNKNOWN"

record mav_message =
  mm_body :: mav_body
  mm_header :: mav_header
  mm_payload :: "bytes option"
  mm_msgbuf :: "bytes option"
  mm_crc :: "int option"
  mm_signed :: bool
  mm_link_id :: "byte option"

text \<open>Construction; the two pseudo-messages keep the raw data as their buffer.\<close>

definition MAVLinkMessage :: "mav_body \<Rightarrow> mav_message" where
  "MAVLinkMessage body =
     \<lparr>mm_body = body, mm_header = MAVLinkHeader (class_msg_id body) 0 0 0 0 0 0, mm_payload = None,
      mm_msgbuf = (case body of MAVLinkBadData d _ \<Rightarrow> Some d | MAVLinkUnknownMessage _ d \<Rightarrow> Some d | _ \<Rightarrow> None),
      mm_crc = None, mm_signed = False, mm_link_id = None\<rparr>"

definition get_msg_id :: "mav_message \<Rightarrow> int" where
  "get_msg_id m = mh_msg_id (mm_header m)"

definition is_heartbeat :: "mav_message \<Rightarrow> bool" where
  "is_heartbeat m \<longleftrightarrow> (case mm_body m of MAVLinkHeartbeatMessage _ _ _ _ _ _ \<Rightarrow> True | _ \<Rightarrow> False)"

text \<open>What the \<open>pack\<close> method of each class packs, in wire order, and the dispatch on the class.\<close>

definition heartbeat_fields :: "int \<Rightarrow> int \<Rightarrow> int \<Rightarrow> int \<Rightarrow> int \<Rightarrow> int \<Rightarrow> (fmt \<times> field) list" where
  "heartbeat_fields type autopilot base_mode custom_mode system_status mavlink_version =
     [(FmtI, VInt custom_mode), (FmtB, VInt type), (FmtB, VInt autopilot), (FmtB, VInt base_mode),
      (FmtB, VInt system_status), (FmtB, VInt mavlink_version)]"

definition command_long_fields ::
  "int \<Rightarrow> int \<Rightarrow> int \<Rightarrow> int \<Rightarrow> 32 word list \<Rightarrow> (fmt \<times> field) list" where
  "command_long_fields target_system target_component command confirmation params =
     map (\<lambda>p. (FmtF, VFloat p)) params @
     [(FmtH, VInt command), (FmtB, VInt target_system), (FmtB, VInt target_component), (FmtB, VInt confirmation)]"

definition command_ack_fields :: "int \<Rightarrow> int \<Rightarrow> int \<Rightarrow> int \<Rightarrow> int \<Rightarrow> int \<Rightarrow> (fmt \<times> field) list" where
  "command_ack_fields command res progress result_param2 target_system target_component =
     [(FmtH, VInt command), (FmtB, VInt res), (FmtB, VInt progress), (FmtInt32, VInt result_param2),
      (FmtB, VInt target_system), (FmtB, VInt target_component)]"

definition param_set_fields :: "int \<Rightarrow> int \<Rightarrow> bytes \<Rightarrow> 32 word \<Rightarrow> int \<Rightarrow> (fmt \<times> field) list" where
  "param_set_fields target_system target_component param_id param_value param_type =
     [(FmtF, VFloat param_value), (FmtB, VInt target_system), (FmtB, VInt target_component),
      (FmtS 16, VBytes param_id), (FmtB, VInt param_type)]"

fun wire_fields :: "mav_body \<Rightarrow> (byte \<times> (fmt \<times> field) list) result" where
  "wire_fields (MAVLinkHeartbeatMessage t a b c s v) = Inr (50, heartbeat_fields t a b c s v)"
| "wire_fields (MAVLinkCommandLongMessage ts tc c cf p1 p2 p3 p4 p5 p6 p7) =
     Inr (152, command_long_fields ts tc c cf [p1, p2, p3, p4, p5, p6, p7])"
| "wire_fields (MAVLinkCommandACKMessage c r p rp ts tc) = Inr (143, command_ack_fields c r p rp ts tc)"
| "wire_fields (MAVLinkParamSetMessage ts tc i v t) = Inr (168, param_set_fields ts tc i v t)"
| "wire_fields _ = Inl (OtherException ''NotImplementedError'')"

text \<open>The class attributes that decoding uses; every field of the four classes has length 1.\<close>

record message_type =
  mt_msgname :: string
  mt_fieldtypes :: "string list"
  mt_format :: "fmt list"
  mt_orders :: "nat list"
  mt_crc_extra :: byte

definition heartbeat_class :: message_type where
  "heartbeat_class =
     \<lparr>mt_msgname = ''HEARTBEAT'',
      mt_fieldtypes = [''uint8_t'', ''uint8_t'', ''uint8_t'', ''uint32_t'', ''uint8_t'', ''uint8_t''],
      mt_format = [FmtI, FmtB, FmtB, FmtB, FmtB, FmtB], mt_orders = [1, 2, 3, 0, 4, 5], mt_crc_extra = 50\<rparr>"

definition command_long_class :: message_type where
  "command_long_class =
     \<lparr>mt_msgname = ''COMMAND_LONG'',
      mt_fieldtypes = [''uint8_t'', ''uint8_t'', ''uint16_t'', ''uint8_t'', ''float'', ''float'', ''float'',
        ''float'', ''float'', ''float'', ''float''],
      mt_format = [FmtF, FmtF, FmtF, FmtF, FmtF, FmtF, FmtF, FmtH, FmtB, FmtB, FmtB],
      mt_orders = [8, 9, 7, 10, 0, 1, 2, 3, 4, 5, 6], mt_crc_extra = 152\<rparr>"

definition command_ack_class :: message_type where
  "command_ack_class =
     \<lparr>mt_msgname = ''COMMAND_ACK'',
      mt_fieldtypes = [''uint16_t'', ''uint8_t'', ''uint8_t'', ''int32_t'', ''uint8_t'', ''uint8_t''],
      mt_format = [FmtH, FmtB, FmtB, FmtInt32, FmtB, FmtB], mt_orders = [0, 1, 2, 3, 4, 5], mt_crc_extra = 143\<rparr>"

definition param_set_class :: message_type where
  "param_set_class =
     \<lparr>mt_msgname = ''PARAM_SET'',
      mt_fieldtypes = [''uint8_t'', ''uint8_t'', ''char'', ''float'', ''uint8_t''],
      mt_format = [FmtF, FmtB, FmtB, FmtS 16, FmtB], mt_orders = [1, 2, 3, 0, 4], mt_crc_extra = 168\<rparr>"

lemmas message_class_defs = heartbeat_class_def command_long_class_def command_ack_class_def param_set_class_def
  heartbeat_fields_def command_long_fields_def command_ack_fields_def param_set_fields_def

definition mavlink_map :: "int \<Rightarrow> message_type option" where
  "mavlink_map key =
     (if key = MAVLINK_MSG_ID_HEARTBEAT then Some heartbeat_class
      else if key = MAVLINK_MSG_ID_COMMAND_LONG then Some command_long_class
      else if key = MAVLINK_MSG_ID_COMMAND_ACK then Some command_ack_class
      else if key = MAVLINK_MSG_ID_PARAM_SET then Some param_set_class
      else None)"

text \<open>
  \<open>message_type(*msg_tuple)\<close>. The constructor of \<open>PARAM_SET\<close> splits its third argument at a bytes
  separator, so it raises \<open>TypeError\<close> on a decoded string; \<open>decode\<close> turns every exception of a
  constructor into a \<open>MAVError\<close>.
\<close>

fun int_of_field :: "field \<Rightarrow> int" where
  "int_of_field (VInt v) = v"
| "int_of_field _ = 0"

fun float_of_field :: "field \<Rightarrow> 32 word" where
  "float_of_field (VFloat w) = w"
| "float_of_field _ = 0"

definition construct_heartbeat :: "field list \<Rightarrow> mav_body" where
  "construct_heartbeat args = (let i = map int_of_field args in
     MAVLinkHeartbeatMessage (i ! 0) (i ! 1) (i ! 2) (i ! 3) (i ! 4) (i ! 5))"

definition construct_command_long :: "field list \<Rightarrow> mav_body" where
  "construct_command_long args = (let i = map int_of_field args; f = map float_of_field args in
     MAVLinkCommandLongMessage (i ! 0) (i ! 1) (i ! 2) (i ! 3)
       (f ! 4) (f ! 5) (f ! 6) (f ! 7) (f ! 8) (f ! 9) (f ! 10))"

definition construct_command_ack :: "field list \<Rightarrow> mav_body" where
  "construct_command_ack args = (let i = map int_of_field args in
     MAVLinkCommandACKMessage (i ! 0) (i ! 1) (i ! 2) (i ! 3) (i ! 4) (i ! 5))"

definition construct_param_set :: "field list \<Rightarrow> mav_body result" where
  "construct_param_set args =
     (case args ! 2 of
        VBytes param_id \<Rightarrow> Inr (MAVLinkParamSetMessage (int_of_field (args ! 0)) (int_of_field (args ! 1))
          param_id (float_of_field (args ! 3)) (int_of_field (args ! 4)))
      | _ \<Rightarrow> Inl (OtherException ''TypeError''))"

definition instantiate :: "int \<Rightarrow> field list \<Rightarrow> mav_body result" where
  "instantiate key args =
     (case (if key = MAVLINK_MSG_ID_HEARTBEAT then Inr (construct_heartbeat args)
            else if key = MAVLINK_MSG_ID_COMMAND_LONG then Inr (construct_command_long args)
            else if key = MAVLINK_MSG_ID_COMMAND_ACK then Inr (construct_command_ack args)
            else construct_param_set args) of
        Inr body \<Rightarrow> Inr body
      | Inl _ \<Rightarrow> Inl (MAVError ''Unable to instantiate MAVLink message''))"

section \<open>Protocol state\<close>

text \<open>The callback for unsigned packets is taken as a predicate on message ids.\<close>

record signing =
  sg_secret_key :: "bytes option"
  sg_timestamp :: int
  sg_link_id :: int
  sg_sign_outgoing :: bool
  sg_allow_unsigned_callback :: "(int \<Rightarrow> bool) option"
  sg_stream_timestamps :: "int \<times> int \<times> int \<Rightarrow> int option"
  sg_sig_count :: nat
  sg_badsig_count :: nat
  sg_goodsig_count :: nat
  sg_unsigned_count :: nat
  sg_reject_count :: nat

definition MAVLinkSigning :: signing where
  "MAVLinkSigning = \<lparr>sg_secret_key = None, sg_timestamp = 0, sg_link_id = 0, sg_sign_outgoing = False,
     sg_allow_unsigned_callback = None, sg_stream_timestamps = Map.empty, sg_sig_count = 0,
     sg_badsig_count = 0, sg_goodsig_count = 0, sg_unsigned_count = 0, sg_reject_count = 0\<rparr>"

record mavlink =
  mv_seq :: int
  mv_source_system :: int
  mv_source_component :: int
  mv_buf :: bytes
  mv_buf_index :: nat
  mv_expected_length :: nat
  mv_have_prefix_error :: bool
  mv_robust_parsing :: bool
  mv_signing :: signing

definition MAVLink :: "int \<Rightarrow> int \<Rightarrow> mavlink" where
  "MAVLink source_system source_component =
     \<lparr>mv_seq = 0, mv_source_system = source_system, mv_source_component = source_component,
      mv_buf = [], mv_buf_index = 0, mv_expected_length = HEADER_LEN_V1 + 2,
      mv_have_prefix_error = False, mv_robust_parsing = True, mv_signing = MAVLinkSigning\<rparr>"

definition buf_len :: "mavlink \<Rightarrow> nat" where
  "buf_len mv = length (mv_buf mv) - mv_buf_index mv"

definition bytes_needed :: "mavlink \<Rightarrow> int" where
  "bytes_needed mv = max 1 (int (mv_expected_length mv) - int (buf_len mv))"

section \<open>Packing\<close>

text \<open>\<open>while plen > 1 and payload[plen - 1] == 0: plen -= 1\<close>\<close>

fun strip_zeros :: "bytes \<Rightarrow> nat \<Rightarrow> nat" where
  "strip_zeros payload 0 = 0"
| "strip_zeros payload (Suc n) =
     (if Suc n > 1 \<and> payload ! n = 0 then strip_zeros payload n else Suc n)"

definition sign_packet ::
  "(bytes \<Rightarrow> bytes) \<Rightarrow> mavlink \<Rightarrow> mav_message \<Rightarrow> unit result \<times> mav_message \<times> mavlink" where
  "sign_packet sha256 mv m =
     (case (mm_msgbuf m, sg_secret_key (mv_signing mv)) of
        (Some buf, Some key) \<Rightarrow>
          let sg = mv_signing mv in
          if 0 \<le> sg_link_id sg \<and> sg_link_id sg < 2 ^ 8 \<and> 0 \<le> sg_timestamp sg \<and> sg_timestamp sg < 2 ^ 64 then
            let buf1 = buf @ take 7 (le_digits 1 (sg_link_id sg) @ le_digits 8 (sg_timestamp sg));
                sig = take 6 (sha256 (key @ buf1))
            in (Inr (), m\<lparr>mm_msgbuf := Some (buf1 @ sig)\<rparr>,
                mv\<lparr>mv_signing := sg\<lparr>sg_timestamp := sg_timestamp sg + 1\<rparr>\<rparr>)
          else (Inl StructError, m, mv)
      | _ \<Rightarrow> (Inl (OtherException ''TypeError''), m, mv))"

definition pack_msg ::
  "(bytes \<Rightarrow> bytes) \<Rightarrow> mavlink \<Rightarrow> byte \<Rightarrow> bytes \<Rightarrow> bool \<Rightarrow> mav_message \<Rightarrow> bytes result \<times> mav_message \<times> mavlink" where
  "pack_msg sha256 mv crc_extra payload force_mavlink1 m =
     (let plen = (if \<not> force_mavlink1 then strip_zeros payload (length payload) else length payload);
          payload1 = take plen payload;
          header = MAVLinkHeader (get_msg_id m)
            (if sg_sign_outgoing (mv_signing mv) then 0 OR MAVLINK_IFLAG_SIGNED else 0) 0
            (int (length payload1)) (mv_seq mv) (mv_source_system mv) (mv_source_component mv);
          m1 = m\<lparr>mm_payload := Some payload1, mm_header := header\<rparr>
      in case header_pack force_mavlink1 header of
           Inl e \<Rightarrow> (Inl e, m1, mv)
         | Inr hdr \<Rightarrow>
             let buf = hdr @ payload1;
                 crc = accumulate [crc_extra] (x25crc (drop 1 buf));
                 m2 = m1\<lparr>mm_msgbuf := Some (buf @ le_digits 2 crc), mm_crc := Some crc\<rparr>
             in if \<not> (0 \<le> crc \<and> crc < 2 ^ 16)
                then (Inl StructError, m1\<lparr>mm_msgbuf := Some buf, mm_crc := Some crc\<rparr>, mv)
                else if sg_sign_outgoing (mv_signing mv) \<and> \<not> force_mavlink1 then
                  (case sign_packet sha256 mv m2 of
                     (Inl e, m3, mv3) \<Rightarrow> (Inl e, m3, mv3)
                   | (Inr _, m3, mv3) \<Rightarrow> (Inr (the (mm_msgbuf m3)), m3, mv3))
                else (Inr (buf @ le_digits 2 crc), m2, mv))"

definition message_pack ::
  "(bytes \<Rightarrow> bytes) \<Rightarrow> mavlink \<Rightarrow> bool \<Rightarrow> mav_message \<Rightarrow> bytes result \<times> mav_message \<times> mavlink" where
  "message_pack sha256 mv force_mavlink1 m =
     (case wire_fields (mm_body m) of
        Inl e \<Rightarrow> (Inl e, m, mv)
      | Inr (crc_extra, vals) \<Rightarrow>
          (case struct_pack vals of
             Inl e \<Rightarrow> (Inl e, m, mv)
           | Inr payload \<Rightarrow> pack_msg sha256 mv crc_extra payload force_mavlink1 m))"

definition encode ::
  "(bytes \<Rightarrow> bytes) \<Rightarrow> bool \<Rightarrow> mav_message \<Rightarrow> mavlink \<Rightarrow> bytes result \<times> mav_message \<times> mavlink" where
  "encode sha256 force_mavlink1 m mv =
     (case message_pack sha256 mv force_mavlink1 m of
        (Inl e, m1, mv1) \<Rightarrow> (Inl e, m1, mv1)
      | (Inr buf, m1, mv1) \<Rightarrow> (Inr buf, m1, mv1\<lparr>mv_seq := (mv_seq mv1 + 1) mod 256\<rparr>))"

section \<open>Decoding\<close>

text \<open>\<open>xs[:-n]\<close> and \<open>xs[-n:]\<close> for positive \<open>n\<close>.\<close>

definition drop_last :: "nat \<Rightarrow> 'a list \<Rightarrow> 'a list" where
  "drop_last n xs = take (length xs - n) xs"

definition take_last :: "nat \<Rightarrow> 'a list \<Rightarrow> 'a list" where
  "take_last n xs = drop (length xs - n) xs"

text \<open>The header length and the header of a packet; the empty buffer raises at \<open>msgbuf[0]\<close>.\<close>

definition header_v1 :: "field list \<Rightarrow> mav_header" where
  "header_v1 t = (let i = map int_of_field t in
     MAVLinkHeader (i ! 5) 0 0 (i ! 1) (i ! 2) (i ! 3) (i ! 4))"

definition header_v2 :: "field list \<Rightarrow> mav_header" where
  "header_v2 t = (let i = map int_of_field t in
     MAVLinkHeader (i ! 7 OR push_bit 16 (i ! 8)) (i ! 2) (i ! 3) (i ! 1) (i ! 4) (i ! 5) (i ! 6))"

definition decode_header :: "bytes \<Rightarrow> (nat \<times> mav_header) result" where
  "decode_header msgbuf =
     (if msgbuf = [] then Inl (OtherException ''IndexError'')
      else if msgbuf ! 0 \<noteq> PROTOCOL_MARKER_V1 then
        (case struct_unpack [FmtS 1, FmtB, FmtB, FmtB, FmtB, FmtB, FmtB, FmtH, FmtB] (take 10 msgbuf) of
           Inl _ \<Rightarrow> Inl (MAVError ''Unable to unpack MAVLink header'')
         | Inr t \<Rightarrow> Inr (10, header_v2 t))
      else
        (case struct_unpack [FmtS 1, FmtB, FmtB, FmtB, FmtB, FmtB] (take 6 msgbuf) of
           Inl _ \<Rightarrow> Inl (MAVError ''Unable to unpack MAVLink header'')
         | Inr t \<Rightarrow> Inr (6, header_v1 t)))"

definition signature_len :: "mav_header \<Rightarrow> nat" where
  "signature_len h = (if mh_incompat_flags h AND MAVLINK_IFLAG_SIGNED \<noteq> 0 then MAVLINK_SIGNATURE_BLOCK_LEN else 0)"

definition check_signature ::
  "(bytes \<Rightarrow> bytes) \<Rightarrow> bytes \<Rightarrow> int \<Rightarrow> int \<Rightarrow> mavlink \<Rightarrow> bool result \<times> mavlink" where
  "check_signature sha256 msgbuf source_system source_component mv =
     (let sg = mv_signing mv in
      case sg_secret_key sg of
        None \<Rightarrow> (Inl (OtherException ''TypeError''), mv)
      | Some key \<Rightarrow>
          let timestamp_buf = drop_last 6 (take_last 12 msgbuf);
              link_id = uint (msgbuf ! (length msgbuf - 13));
              timestamp = from_bytes_le (take 4 timestamp_buf) + push_bit 32 (from_bytes_le (drop 4 timestamp_buf));
              stream_key = (link_id, source_system, source_component);
              known = sg_stream_timestamps sg stream_key
          in if (case known of Some t \<Rightarrow> timestamp \<le> t
                 | None \<Rightarrow> timestamp + 6000 * 1000 < sg_timestamp sg) then (Inr False, mv)
             else
               let sg1 = (if known = None
                          then sg\<lparr>sg_stream_timestamps := (sg_stream_timestamps sg)(stream_key \<mapsto> timestamp)\<rparr>
                          else sg);
                   sig1 = take 6 (sha256 (key @ drop_last 6 msgbuf))
               in if sig1 \<noteq> take_last 6 msgbuf then (Inr False, mv\<lparr>mv_signing := sg1\<rparr>)
                  else (Inr True, mv\<lparr>mv_signing := sg1\<lparr>sg_timestamp := max (sg_timestamp sg1) timestamp\<rparr>\<rparr>))"

text \<open>The callback's decision on a packet, counted.\<close>

definition ask_callback :: "(int \<Rightarrow> bool) \<Rightarrow> int \<Rightarrow> mavlink \<Rightarrow> bool \<times> mavlink" where
  "ask_callback callback msgId mv =
     (let sg = mv_signing mv in
      if callback msgId then (True, mv\<lparr>mv_signing := sg\<lparr>sg_unsigned_count := sg_unsigned_count sg + 1\<rparr>\<rparr>)
      else (False, mv\<lparr>mv_signing := sg\<lparr>sg_reject_count := sg_reject_count sg + 1\<rparr>\<rparr>))"

text \<open>The signature stage of \<open>decode\<close>: whether the packet is accepted and \<open>sig_ok\<close>.\<close>

definition accept_packet ::
  "(bytes \<Rightarrow> bytes) \<Rightarrow> bytes \<Rightarrow> mav_header \<Rightarrow> mavlink \<Rightarrow> (bool \<times> bool) result \<times> mavlink" where
  "accept_packet sha256 msgbuf h mv0 =
     (let signed = (signature_len h = MAVLINK_SIGNATURE_BLOCK_LEN);
          mv = (if signed then mv0\<lparr>mv_signing := (mv_signing mv0)
                  \<lparr>sg_sig_count := sg_sig_count (mv_signing mv0) + 1\<rparr>\<rparr> else mv0)
      in if sg_secret_key (mv_signing mv) = None then (Inr (True, False), mv)
         else if signed then
           (case check_signature sha256 msgbuf (mh_source_system h) (mh_source_component h) mv of
              (Inl e, mv1) \<Rightarrow> (Inl e, mv1)
            | (Inr sig_ok, mv1) \<Rightarrow>
                let sg = mv_signing mv1;
                    mv2 = mv1\<lparr>mv_signing := (if sig_ok then sg\<lparr>sg_goodsig_count := sg_goodsig_count sg + 1\<rparr>
                            else sg\<lparr>sg_badsig_count := sg_badsig_count sg + 1\<rparr>)\<rparr>
                in (case sg_allow_unsigned_callback sg of
                      Some callback \<Rightarrow>
                        if sig_ok then (Inr (True, True), mv2)
                        else (let (accept, mv3) = ask_callback callback (mh_msg_id h) mv2
                              in (Inr (accept, False), mv3))
                    | None \<Rightarrow> (Inr (sig_ok, sig_ok), mv2)))
         else
           (case sg_allow_unsigned_callback (mv_signing mv) of
              Some callback \<Rightarrow>
                (let (accept, mv1) = ask_callback callback (mh_msg_id h) mv in (Inr (accept, False), mv1))
            | None \<Rightarrow> (Inr (False, False), mv)))"

text \<open>The payload stage: padding, unpacking, the order of the constructor, texts.\<close>

definition decode_payload :: "int \<Rightarrow> message_type \<Rightarrow> bytes \<Rightarrow> mav_body result" where
  "decode_payload key mt payload =
     (let csize = calcsize (mt_format mt);
          mbuf = take csize (payload @ replicate (csize - length payload) 0)
      in case struct_unpack (mt_format mt) mbuf of
           Inl _ \<Rightarrow> Inl (MAVError ''Unable to unpack MAVLink payload'')
         | Inr t \<Rightarrow>
             let tlist = map (\<lambda>i. t ! i) (mt_orders mt);
                 tlist_str = map2 (\<lambda>tp v. if tp = ''char'' then VStr else v) (mt_fieldtypes mt) tlist
             in instantiate key tlist_str)"

definition decode :: "(bytes \<Rightarrow> bytes) \<Rightarrow> bytes \<Rightarrow> mavlink \<Rightarrow> mav_message result \<times> mavlink" where
  "decode sha256 msgbuf mv =
     (case decode_header msgbuf of
        Inl e \<Rightarrow> (Inl e, mv)
      | Inr (headerlen, h) \<Rightarrow>
          let sl = signature_len h; msgId = mh_msg_id h in
          if msgbuf ! 0 \<noteq> PROTOCOL_MARKER_V1 \<and> msgbuf ! 0 \<noteq> PROTOCOL_MARKER_V2
          then (Inl (MAVError ''invalid MAVLink prefix''), mv)
          else if mh_mlen h \<noteq> int (length msgbuf) - int (headerlen + 2 + sl)
          then (Inl (MAVError ''invalid MAVLink message length''), mv)
          else (case mavlink_map msgId of
              None \<Rightarrow> (Inr (MAVLinkMessage (MAVLinkUnknownMessage msgId msgbuf)), mv)
            | Some mt \<Rightarrow>
                let crc = from_bytes_le (take 2 (take_last (2 + sl) msgbuf)) in
                if crc \<noteq> x25crc (drop 1 (drop_last (2 + sl) msgbuf) @ [mt_crc_extra mt])
                then (Inl (MAVError ''invalid MAVLink CRC''), mv)
                else (case accept_packet sha256 msgbuf h mv of
                    (Inl e, mv1) \<Rightarrow> (Inl e, mv1)
                  | (Inr (accept, sig_ok), mv1) \<Rightarrow>
                      if \<not> accept then (Inl (MAVError ''Invalid signature''), mv1)
                      else (case decode_payload msgId mt (drop headerlen (drop_last (2 + sl) msgbuf)) of
                          Inl e \<Rightarrow> (Inl e, mv1)
                        | Inr body \<Rightarrow>
                            (Inr \<lparr>mm_body = body, mm_header = h,
                               mm_payload = Some (drop 6 (drop_last (2 + sl) msgbuf)),
                               mm_msgbuf = Some msgbuf, mm_crc = Some crc, mm_signed = sig_ok,
                               mm_link_id = (if sig_ok then Some (msgbuf ! (length msgbuf - 13)) else None)\<rparr>,
                             mv1)))))"

section \<open>The stream parser\<close>

fun is_MAVError :: "exn \<Rightarrow> bool" where
  "is_MAVError (MAVError _) = True"
| "is_MAVError _ = False"

text \<open>
  The last stage of \<open>_parse_char_legacy\<close>, on a complete packet \<open>mbuf\<close> with the values of
  \<open>magic\<close> and \<open>incompat_flags\<close> read before.
\<close>

definition parse_packet ::
  "(bytes \<Rightarrow> bytes) \<Rightarrow> byte \<Rightarrow> byte \<Rightarrow> bytes \<Rightarrow> mavlink \<Rightarrow> mav_message option result \<times> mavlink" where
  "parse_packet sha256 magic incompat_flags mbuf mv =
     (let (r, mv1) = (if magic = PROTOCOL_MARKER_V2 \<and> incompat_flags AND NOT 1 \<noteq> 0
                      then (Inl (MAVError ''invalid incompat_flags''), mv)
                      else decode sha256 mbuf mv)
      in case r of
           Inr m \<Rightarrow> (Inr (Some m), mv1)
         | Inl e \<Rightarrow>
             if mv_robust_parsing mv \<and> is_MAVError e
             then (Inr (Some (MAVLinkMessage (MAVLinkBadData mbuf e))), mv1)
             else (Inl e, mv1))"

definition parse_char_legacy :: "(bytes \<Rightarrow> bytes) \<Rightarrow> mavlink \<Rightarrow> mav_message option result \<times> mavlink" where
  "parse_char_legacy sha256 mv =
     (let front = drop (mv_buf_index mv) (mv_buf mv);
          header_len = (if buf_len mv \<ge> 1 \<and> front ! 0 = PROTOCOL_MARKER_V2 then HEADER_LEN_V2 else HEADER_LEN_V1)
      in if buf_len mv \<ge> 1 \<and> front ! 0 \<noteq> PROTOCOL_MARKER_V1 \<and> front ! 0 \<noteq> PROTOCOL_MARKER_V2 then
           let mv1 = mv\<lparr>mv_buf_index := mv_buf_index mv + 1\<rparr> in
           if mv_robust_parsing mv1 then
             (Inr (Some (MAVLinkMessage (MAVLinkBadData [front ! 0] (MAVError ''Bad prefix'')))),
              mv1\<lparr>mv_expected_length := header_len + 2\<rparr>)
           else if mv_have_prefix_error mv1 then (Inr None, mv1)
           else (Inl (MAVError ''invalid MAVLink prefix''), mv1\<lparr>mv_have_prefix_error := True\<rparr>)
         else
           let mv1 = mv\<lparr>mv_have_prefix_error := False\<rparr>;
               mv2 = (if buf_len mv1 \<ge> 3
                      then mv1\<lparr>mv_expected_length := unat (front ! 1)
                        + (if front ! 0 = PROTOCOL_MARKER_V2 \<and> front ! 2 AND 1 \<noteq> 0
                           then MAVLINK_SIGNATURE_BLOCK_LEN else 0) + (header_len + 2)\<rparr>
                      else mv1)
           in if mv_expected_length mv2 \<ge> header_len + 2 \<and> buf_len mv2 \<ge> mv_expected_length mv2 then
                let mbuf = take (mv_expected_length mv2) front;
                    mv3 = mv2\<lparr>mv_buf_index := mv_buf_index mv2 + mv_expected_length mv2,
                              mv_expected_length := header_len + 2\<rparr>
                in if buf_len mv1 \<ge> 3 then parse_packet sha256 (front ! 0) (front ! 2) mbuf mv3
                   else (Inl (OtherException ''UnboundLocalError''), mv3)
              else (Inr None, mv2))"

definition parse_char :: "(bytes \<Rightarrow> bytes) \<Rightarrow> bytes \<Rightarrow> mavlink \<Rightarrow> mav_message option result \<times> mavlink" where
  "parse_char sha256 c mv =
     (case parse_char_legacy sha256 (mv\<lparr>mv_buf := mv_buf mv @ c\<rparr>) of
        (Inr None, mv1) \<Rightarrow>
          (Inr None, if buf_len mv1 = 0 \<and> mv_buf_index mv1 \<noteq> 0
                     then mv1\<lparr>mv_buf := [], mv_buf_index := 0\<rparr> else mv1)
      | x \<Rightarrow> x)"

text \<open>Decoding touches the signing state only.\<close>

lemma signing_update_update [simp]: "mv\<lparr>mv_signing := a, mv_signing := b\<rparr> = mv\<lparr>mv_signing := b\<rparr>"
  by simp

definition only_signing :: "mavlink \<Rightarrow> mavlink \<Rightarrow> bool" where
  "only_signing mv mv' \<longleftrightarrow> (\<exists>sg. mv' = mv\<lparr>mv_signing := sg\<rparr>)"

lemma only_signing_refl [simp]: "only_signing mv mv"
  unfolding only_signing_def by (rule exI [of _ "mv_signing mv"]) simp

lemma only_signing_trans: "only_signing a b \<Longrightarrow> only_signing b c \<Longrightarrow> only_signing a c"
  by (auto simp: only_signing_def)

lemma only_signing_update [simp]:
  "only_signing mv (q\<lparr>mv_signing := sg\<rparr>) = only_signing mv q"
  "only_signing (mv\<lparr>mv_signing := sg\<rparr>) q = only_signing mv q"
proof -
  have "only_signing a (a\<lparr>mv_signing := b\<rparr>)" for a b by (auto simp: only_signing_def)
  moreover have "only_signing (a\<lparr>mv_signing := b\<rparr>) a" for a b
    unfolding only_signing_def by (rule exI [of _ "mv_signing a"]) simp
  ultimately show "only_signing mv (q\<lparr>mv_signing := sg\<rparr>) = only_signing mv q"
    "only_signing (mv\<lparr>mv_signing := sg\<rparr>) q = only_signing mv q"
    by (blast intro: only_signing_trans)+
qed

lemma only_signingD:
  "only_signing mv mv' \<Longrightarrow> mv_buf mv' = mv_buf mv \<and> mv_buf_index mv' = mv_buf_index mv \<and>
     mv_expected_length mv' = mv_expected_length mv \<and> mv_robust_parsing mv' = mv_robust_parsing mv \<and>
     mv_have_prefix_error mv' = mv_have_prefix_error mv \<and> mv_seq mv' = mv_seq mv"
  by (auto simp: only_signing_def)

lemma check_signature_signing: "only_signing mv (snd (check_signature H buf a b mv))"
  by (auto simp: check_signature_def Let_def split: option.splits)

lemma ask_callback_signing: "only_signing mv (snd (ask_callback f i mv))"
  by (auto simp: ask_callback_def Let_def)

lemma accept_packet_signing: "only_signing mv (snd (accept_packet H buf h mv))"
proof -
  let ?counted = "if signature_len h = MAVLINK_SIGNATURE_BLOCK_LEN then mv\<lparr>mv_signing := (mv_signing mv)
    \<lparr>sg_sig_count := sg_sig_count (mv_signing mv) + 1\<rparr>\<rparr> else mv"
  have step: "only_signing mv ?counted" by simp
  have ask: "ask_callback f i q = (x, q') \<Longrightarrow> only_signing q q'" for f i q x q'
    using ask_callback_signing [of q f i] by simp
  have chk: "check_signature H buf a b q = (x, q') \<Longrightarrow> only_signing q q'" for a b q x q'
    using check_signature_signing [of q H buf a b] by simp
  have "only_signing ?counted (snd (accept_packet H buf h mv))"
    by (auto simp: accept_packet_def Let_def split: prod.splits sum.splits option.splits
        dest!: ask chk intro: only_signing_trans)
  with step show ?thesis by (rule only_signing_trans)
qed

lemma decode_signing: "only_signing mv (snd (decode H buf mv))"
proof -
  have acc: "accept_packet H buf h q = (x, q') \<Longrightarrow> only_signing q q'" for h q x q'
    using accept_packet_signing [of q H buf h] by simp
  show ?thesis
    by (auto simp: decode_def Let_def split: prod.splits sum.splits option.splits dest!: acc)
qed

lemma parse_packet_signing: "only_signing mv (snd (parse_packet H a b buf mv))"
proof -
  have dec: "decode H buf q = (x, q') \<Longrightarrow> only_signing q q'" for q x q'
    using decode_signing [of q H buf] by simp
  show ?thesis
    by (auto simp: parse_packet_def Let_def split: prod.splits sum.splits dest!: dec)
qed

section \<open>Parsing a buffer\<close>

lemma parse_packet_buf:
  "parse_packet H a b buf q = (x, q') \<Longrightarrow> mv_buf q' = mv_buf q \<and> mv_buf_index q' = mv_buf_index q"
  using only_signingD [OF parse_packet_signing [of q H a b buf]] by simp

lemma parse_char_consumes:
  assumes "parse_char H [] mv = (Inr (Some m), mv')"
  shows "buf_len mv' < buf_len mv"
proof -
  have "parse_char_legacy H mv = (Inr (Some m), mv')"
    using assms by (auto simp: parse_char_def split: prod.splits sum.splits option.splits)
  then show ?thesis
    by (auto simp: parse_char_legacy_def Let_def buf_len_def split: if_splits dest!: parse_packet_buf)
qed

function parse_rest :: "(bytes \<Rightarrow> bytes) \<Rightarrow> mavlink \<Rightarrow> mav_message list result \<times> mavlink" where
  "parse_rest sha256 mv =
     (case parse_char sha256 [] mv of
        (Inl e, mv1) \<Rightarrow> (Inl e, mv1)
      | (Inr None, mv1) \<Rightarrow> (Inr [], mv1)
      | (Inr (Some m), mv1) \<Rightarrow>
          (case parse_rest sha256 mv1 of
             (Inl e, mv2) \<Rightarrow> (Inl e, mv2) | (Inr ms, mv2) \<Rightarrow> (Inr (m # ms), mv2)))"
  by pat_completeness auto
termination
  by (relation "measure (\<lambda>(sha256, mv). buf_len mv)") (auto dest: parse_char_consumes [OF sym])

declare parse_rest.simps [simp del]

definition parse_buffer :: "(bytes \<Rightarrow> bytes) \<Rightarrow> bytes \<Rightarrow> mavlink \<Rightarrow> mav_message list option result \<times> mavlink" where
  "parse_buffer sha256 s mv =
     (case parse_char sha256 s mv of
        (Inl e, mv1) \<Rightarrow> (Inl e, mv1)
      | (Inr None, mv1) \<Rightarrow> (Inr None, mv1)
      | (Inr (Some m), mv1) \<Rightarrow> apfst (map_sum id (\<lambda>ms. Some (m # ms))) (parse_rest sha256 mv1))"

end
