(* ===== verification/Mavlink_Stream.thy ===== *)
theory Mavlink_Stream
  imports Mavlink
begin

text \<open>
  What the MAVLink parser does with a byte stream: the messages depend on the bytes and the signing
  state alone, never on how the transport cuts the stream, every byte ends up in exactly one
  message or stays buffered, nothing raises, and a packed message is parsed back.
\<close>

section \<open>Packets and their messages\<close>

text \<open>The bytes not yet parsed, and how many of them the next message takes.\<close>

definition unparsed :: "mavlink \<Rightarrow> bytes" where
  "unparsed mv = drop (mv_buf_index mv) (mv_buf mv)"

definition packet_length :: "bytes \<Rightarrow> nat option" where
  "packet_length front =
     (if front = [] then None
      else if front ! 0 \<noteq> PROTOCOL_MARKER_V1 \<and> front ! 0 \<noteq> PROTOCOL_MARKER_V2 then Some 1
      else if length front < 3 then None
      else let n = unat (front ! 1)
               + (if front ! 0 = PROTOCOL_MARKER_V2 \<and> front ! 2 AND 1 \<noteq> 0 then MAVLINK_SIGNATURE_BLOCK_LEN else 0)
               + ((if front ! 0 = PROTOCOL_MARKER_V2 then HEADER_LEN_V2 else HEADER_LEN_V1) + 2)
           in if n \<le> length front then Some n else None)"

lemma packet_length_bounds: "packet_length front = Some n \<Longrightarrow> 0 < n \<and> n \<le> length front"
  by (auto simp: packet_length_def Let_def Suc_le_eq split: if_splits)

lemma unparsed_length: "length (unparsed mv) = buf_len mv"
  by (simp add: unparsed_def buf_len_def)

lemma decode_msgbuf: "decode H buf mv = (Inr m, mv') \<Longrightarrow> mm_msgbuf m = Some buf"
  by (auto simp: decode_def Let_def MAVLinkMessage_def split: prod.splits sum.splits option.splits if_splits)

lemma check_signature_total:
  "check_signature H buf x y mv = (Inl e, mv') \<Longrightarrow> sg_secret_key (mv_signing mv) = None"
  by (auto simp: check_signature_def Let_def split: option.splits if_splits)

lemma accept_packet_total: "fst (accept_packet H buf h mv) \<noteq> Inl e"
  by (auto simp: accept_packet_def Let_def split: prod.splits sum.splits option.splits
      dest!: check_signature_total)

lemma instantiate_error: "instantiate key args = Inl e \<Longrightarrow> is_MAVError e"
  by (auto simp: instantiate_def split: sum.splits)

lemma decode_payload_error: "decode_payload key mt bs = Inl e \<Longrightarrow> is_MAVError e"
  by (auto simp: decode_payload_def Let_def split: sum.splits dest: instantiate_error)

lemma decode_header_error: "decode_header buf = Inl e \<Longrightarrow> buf \<noteq> [] \<Longrightarrow> is_MAVError e"
  by (auto simp: decode_header_def split: sum.splits if_splits)

lemma decode_error:
  assumes "decode H buf mv = (Inl e, mv')" "buf \<noteq> []"
  shows "is_MAVError e"
proof -
  have acc: "accept_packet H buf h q = (Inl x, q') \<Longrightarrow> False" for h q x q'
    using accept_packet_total [of H buf h q x] by simp
  from assms show ?thesis
    by (auto simp: decode_def Let_def split: prod.splits sum.splits option.splits if_splits
        dest: decode_header_error decode_payload_error acc)
qed

lemma parse_packet_robust:
  assumes "mv_robust_parsing mv" "buf \<noteq> []"
  obtains m sg where "parse_packet H a b buf mv = (Inr (Some m), mv\<lparr>mv_signing := sg\<rparr>)" "mm_msgbuf m = Some buf"
proof -
  obtain r mv' where p: "parse_packet H a b buf mv = (r, mv')" by fastforce
  then obtain sg where sg: "mv' = mv\<lparr>mv_signing := sg\<rparr>"
    using parse_packet_signing [of mv H a b buf] by (auto simp: only_signing_def)
  have "\<exists>m. r = Inr (Some m) \<and> mm_msgbuf m = Some buf"
    using p assms
    by (auto simp: parse_packet_def Let_def MAVLinkMessage_def split: prod.splits sum.splits if_splits
        dest: decode_msgbuf decode_error)
  with p sg that show ?thesis by blast
qed

section \<open>The parser as a function of the stream\<close>

lemma check_signature_view:
  "mv_signing mv = mv_signing q \<Longrightarrow>
   apsnd mv_signing (check_signature H buf x y mv) = apsnd mv_signing (check_signature H buf x y q)"
  by (simp add: check_signature_def Let_def split: option.splits)

lemma ask_callback_view:
  "mv_signing mv = mv_signing q \<Longrightarrow> apsnd mv_signing (ask_callback f i mv) = apsnd mv_signing (ask_callback f i q)"
  by (simp add: ask_callback_def Let_def)

lemma accept_packet_view:
  assumes "mv_signing mv = mv_signing q"
  shows "apsnd mv_signing (accept_packet H buf h mv) = apsnd mv_signing (accept_packet H buf h q)"
proof -
  let ?count = "\<lambda>p. if signature_len h = MAVLINK_SIGNATURE_BLOCK_LEN then p\<lparr>mv_signing := (mv_signing p)
    \<lparr>sg_sig_count := sg_sig_count (mv_signing p) + 1\<rparr>\<rparr> else p"
  have chk: "apsnd mv_signing (check_signature H buf x y (?count mv)) =
      apsnd mv_signing (check_signature H buf x y (?count q))" for x y
    by (rule check_signature_view) (simp add: assms)
  obtain r mv1 r' q1 where c: "check_signature H buf (mh_source_system h) (mh_source_component h) (?count mv) = (r, mv1)"
    "check_signature H buf (mh_source_system h) (mh_source_component h) (?count q) = (r', q1)" by fastforce
  from chk [of "mh_source_system h" "mh_source_component h"] have same: "r' = r" "mv_signing mv1 = mv_signing q1"
    by (simp_all add: c del: mavlink_constants)
  show ?thesis
    unfolding accept_packet_def Let_def c
    using assms same by (simp add: ask_callback_def Let_def split: sum.splits option.splits)
qed

lemma decode_view:
  assumes "mv_signing mv = mv_signing q"
  shows "apsnd mv_signing (decode H buf mv) = apsnd mv_signing (decode H buf q)"
proof -
  have acc: "\<exists>r a b. accept_packet H buf h mv = (r, a) \<and> accept_packet H buf h q = (r, b) \<and> mv_signing a = mv_signing b" for h
    using accept_packet_view [OF assms, of H buf h]
    by (cases "accept_packet H buf h mv"; cases "accept_packet H buf h q") simp
  show ?thesis
  proof (cases "decode_header buf")
    case (Inr hh)
    obtain n h where hh: "hh = (n, h)" by fastforce
    obtain r a b where "accept_packet H buf h mv = (r, a)" "accept_packet H buf h q = (r, b)"
      "mv_signing a = mv_signing b" using acc by blast
    with Inr hh assms show ?thesis
      by (simp add: decode_def Let_def split: sum.splits option.splits)
  qed (simp add: decode_def assms)
qed

text \<open>The message of a packet and the signing state after it, for a parser that is robust.\<close>

definition message_of :: "(bytes \<Rightarrow> bytes) \<Rightarrow> bytes \<Rightarrow> signing \<Rightarrow> mav_message \<times> signing" where
  "message_of H pkt sg =
     (if pkt ! 0 \<noteq> PROTOCOL_MARKER_V1 \<and> pkt ! 0 \<noteq> PROTOCOL_MARKER_V2
      then (MAVLinkMessage (MAVLinkBadData pkt (MAVError ''Bad prefix'')), sg)
      else (case parse_packet H (pkt ! 0) (pkt ! 2) pkt ((MAVLink 0 0)\<lparr>mv_signing := sg\<rparr>) of
          (Inr (Some m), mv') \<Rightarrow> (m, mv_signing mv')))"

lemma parse_packet_message:
  assumes "mv_robust_parsing mv" "pkt \<noteq> []" "pkt ! 0 = 0xFE \<or> pkt ! 0 = 0xFD"
  shows "parse_packet H (pkt ! 0) (pkt ! 2) pkt mv = (Inr (Some (fst (message_of H pkt (mv_signing mv)))),
    mv\<lparr>mv_signing := snd (message_of H pkt (mv_signing mv))\<rparr>)"
proof -
  let ?q = "(MAVLink 0 0)\<lparr>mv_signing := mv_signing mv\<rparr>"
  have "apsnd mv_signing (decode H pkt mv) = apsnd mv_signing (decode H pkt ?q)" by (rule decode_view) simp
  then have "apsnd mv_signing (parse_packet H (pkt ! 0) (pkt ! 2) pkt mv) =
      apsnd mv_signing (parse_packet H (pkt ! 0) (pkt ! 2) pkt ?q)"
    using assms(1) by (auto simp: parse_packet_def Let_def MAVLink_def split: prod.splits sum.splits)
  moreover obtain m sg where "parse_packet H (pkt ! 0) (pkt ! 2) pkt mv = (Inr (Some m), mv\<lparr>mv_signing := sg\<rparr>)"
    using parse_packet_robust [OF assms(1,2)] by metis
  moreover have "mv_robust_parsing ?q" by (simp add: MAVLink_def)
  then obtain m' sg' where "parse_packet H (pkt ! 0) (pkt ! 2) pkt ?q = (Inr (Some m'), ?q\<lparr>mv_signing := sg'\<rparr>)"
    using parse_packet_robust [OF _ assms(2)] by metis
  ultimately show ?thesis using assms(3) by (auto simp: message_of_def)
qed

section \<open>What one step of the parser takes from the stream\<close>

lemma legacy_step:
  assumes "mv_robust_parsing mv"
  shows "case packet_length (unparsed mv) of
      None \<Rightarrow> \<exists>n f. parse_char_legacy H mv =
        (Inr None, mv\<lparr>mv_have_prefix_error := f, mv_expected_length := n\<rparr>)
    | Some k \<Rightarrow> \<exists>m n f sg. parse_char_legacy H mv =
        (Inr (Some m), mv\<lparr>mv_buf_index := mv_buf_index mv + k, mv_have_prefix_error := f,
           mv_expected_length := n, mv_signing := sg\<rparr>) \<and>
        (m, sg) = message_of H (take k (unparsed mv)) (mv_signing mv)"
proof -
  let ?front = "unparsed mv"
  have len: "buf_len q = length ?front" if "mv_buf q = mv_buf mv" "mv_buf_index q = mv_buf_index mv" for q
    using that by (simp add: unparsed_length [symmetric] unparsed_def)
  consider (empty) "?front = []"
    | (bad) "?front \<noteq> []" "?front ! 0 \<noteq> 0xFE" "?front ! 0 \<noteq> 0xFD"
    | (short) "?front \<noteq> []" "?front ! 0 = 0xFE \<or> ?front ! 0 = 0xFD" "length ?front < 3"
    | (good) "3 \<le> length ?front" "?front ! 0 = 0xFE \<or> ?front ! 0 = 0xFD"
    by fastforce
  then show ?thesis
  proof cases
    case empty
    then have "parse_char_legacy H mv = (Inr None, mv\<lparr>mv_have_prefix_error := False\<rparr>)"
      by (simp add: parse_char_legacy_def Let_def len unparsed_def [symmetric])
    with empty show ?thesis
      by (simp add: packet_length_def)
        (rule exI [of _ "mv_expected_length mv"], rule exI [of _ False], simp)
  next
    case bad
    let ?bad = "MAVLinkMessage (MAVLinkBadData [?front ! 0] (MAVError ''Bad prefix''))"
    from bad assms have "parse_char_legacy H mv = (Inr (Some ?bad), mv\<lparr>mv_buf_index := mv_buf_index mv + 1,
        mv_have_prefix_error := mv_have_prefix_error mv, mv_expected_length := 8, mv_signing := mv_signing mv\<rparr>)"
      by (simp add: parse_char_legacy_def Let_def len unparsed_def [symmetric] Suc_le_eq)
    moreover have "(?bad, mv_signing mv) = message_of H (take 1 ?front) (mv_signing mv)"
      using bad by (cases ?front) (simp_all add: message_of_def)
    moreover have "packet_length ?front = Some 1" using bad by (simp add: packet_length_def)
    ultimately show ?thesis by (simp only: option.case) blast
  next
    case short
    then have "parse_char_legacy H mv = (Inr None, mv\<lparr>mv_have_prefix_error := False\<rparr>)"
      by (auto simp: parse_char_legacy_def Let_def len unparsed_def [symmetric])
    with short show ?thesis
      by (simp add: packet_length_def)
        (rule exI [of _ "mv_expected_length mv"], rule exI [of _ False], simp)
  next
    case good
    let ?h = "if ?front ! 0 = 0xFD then 10 else 6 :: nat"
    let ?n = "unat (?front ! 1) + (if ?front ! 0 = 0xFD \<and> ?front ! 2 AND 1 \<noteq> 0 then 13 else 0) + (?h + 2)"
    have ne: "?front \<noteq> []" using good(1) by auto
    let ?mv1 = "mv\<lparr>mv_have_prefix_error := False, mv_expected_length := ?n\<rparr>"
    let ?mv2 = "?mv1\<lparr>mv_buf_index := mv_buf_index mv + ?n, mv_expected_length := ?h + 2\<rparr>"
    have run: "parse_char_legacy H mv = (if ?n \<le> length ?front
        then parse_packet H (?front ! 0) (?front ! 2) (take ?n ?front) ?mv2 else (Inr None, ?mv1))"
      using good ne by (auto simp: parse_char_legacy_def Let_def len unparsed_def [symmetric] Suc_le_eq)
    have pl: "packet_length ?front = (if ?n \<le> length ?front then Some ?n else None)"
      using good ne by (simp add: packet_length_def Let_def)
    show ?thesis
    proof (cases "?n \<le> length ?front")
      case True
      let ?pkt = "take ?n ?front"
      obtain m sg where m: "(m, sg) = message_of H ?pkt (mv_signing mv)" by (metis surj_pair)
      have at: "?pkt ! 0 = ?front ! 0" "?pkt ! 2 = ?front ! 2" by simp_all
      have "mv_robust_parsing ?mv2" "?pkt \<noteq> []" "?pkt ! 0 = 0xFE \<or> ?pkt ! 0 = 0xFD"
        using assms ne good(2) at by auto
      note this_message = parse_packet_message [OF this, of H]
      have sel: "mv_signing ?mv2 = mv_signing mv" by simp
      from this_message
      have "parse_packet H (?front ! 0) (?front ! 2) ?pkt ?mv2 = (Inr (Some m), ?mv2\<lparr>mv_signing := sg\<rparr>)"
        by (simp only: at sel m [symmetric] fst_conv snd_conv)
      with True run have "parse_char_legacy H mv = (Inr (Some m), mv\<lparr>mv_buf_index := mv_buf_index mv + ?n,
          mv_have_prefix_error := False, mv_expected_length := ?h + 2, mv_signing := sg\<rparr>)"
        by simp
      with True pl m show ?thesis by (simp only: if_True option.case) blast
    next
      case False
      with run pl show ?thesis by auto
    qed
  qed
qed

text \<open>Hence for \<open>parse_char\<close>: a step takes the bytes of its message off the stream and nothing else.\<close>

lemma parse_char_step:
  assumes "mv_robust_parsing mv" "mv_buf_index mv \<le> length (mv_buf mv)"
  obtains (none) mv' where "parse_char H c mv = (Inr None, mv')" "unparsed mv' = unparsed mv @ c"
      "mv_robust_parsing mv'" "mv_buf_index mv' \<le> length (mv_buf mv')"
      "packet_length (unparsed mv @ c) = None"
      "mv_signing mv' = mv_signing mv"
  | (some) m k mv' where "parse_char H c mv = (Inr (Some m), mv')"
      "(m, mv_signing mv') = message_of H (take k (unparsed mv @ c)) (mv_signing mv)"
      "unparsed mv' = drop k (unparsed mv @ c)" "mv_robust_parsing mv'" "mv_buf_index mv' \<le> length (mv_buf mv')"
      "packet_length (unparsed mv @ c) = Some k"
proof -
  let ?mv = "mv\<lparr>mv_buf := mv_buf mv @ c\<rparr>"
  have un: "unparsed ?mv = unparsed mv @ c" using assms(2) by (simp add: unparsed_def)
  have robust: "mv_robust_parsing ?mv" using assms(1) by simp
  note step = legacy_step [OF robust, of H, unfolded un]
  show thesis
  proof (cases "packet_length (unparsed mv @ c)")
    case None
    with step obtain n f where "parse_char_legacy H ?mv = (Inr None, ?mv\<lparr>mv_have_prefix_error := f, mv_expected_length := n\<rparr>)"
      by auto
    moreover have "length (mv_buf mv) + length c \<le> mv_buf_index mv \<Longrightarrow> [] = c"
      using assms(2) by (cases c) simp_all
    ultimately show thesis using None assms un
      by (intro none [of "snd (parse_char H c mv)"]) (auto simp: parse_char_def unparsed_def buf_len_def)
  next
    case (Some k)
    with step obtain m n f sg where "parse_char_legacy H ?mv =
        (Inr (Some m), ?mv\<lparr>mv_buf_index := mv_buf_index mv + k, mv_have_prefix_error := f,
           mv_expected_length := n, mv_signing := sg\<rparr>)"
      "(m, sg) = message_of H (take k (unparsed mv @ c)) (mv_signing mv)"
      by auto
    then show thesis using Some assms un packet_length_bounds [OF Some]
      by (intro some [of m "snd (parse_char H c mv)" k]) (auto simp: parse_char_def unparsed_def add.commute)
  qed
qed

section \<open>All messages of a stream\<close>

function messages :: "(bytes \<Rightarrow> bytes) \<Rightarrow> bytes \<Rightarrow> signing \<Rightarrow> mav_message list \<times> bytes \<times> signing" where
  "messages H front sg =
     (case packet_length front of
        None \<Rightarrow> ([], front, sg)
      | Some k \<Rightarrow>
          (let (m, sg1) = message_of H (take k front) sg;
               (ms, rest, sg2) = messages H (drop k front) sg1
           in (m # ms, rest, sg2)))"
  by pat_completeness auto
termination
  by (relation "measure (\<lambda>(H, front, sg). length front)") (auto dest!: packet_length_bounds)

declare messages.simps [simp del]

lemma packet_length_append:
  assumes "packet_length front = Some k"
  shows "packet_length (front @ c) = Some k" "take k (front @ c) = take k front" "drop k (front @ c) = drop k front @ c"
proof -
  have k: "0 < k" "k \<le> length front" using packet_length_bounds [OF assms] by simp_all
  then show "take k (front @ c) = take k front" "drop k (front @ c) = drop k front @ c" by simp_all
  show "packet_length (front @ c) = Some k"
  proof (cases "front ! 0 \<noteq> 0xFE \<and> front ! 0 \<noteq> 0xFD")
    case True
    with assms k show ?thesis by (auto simp: packet_length_def nth_append split: if_splits)
  next
    case False
    with assms have "3 \<le> length front" by (auto simp: packet_length_def split: if_splits)
    then have at: "(front @ c) ! 0 = front ! 0" "(front @ c) ! 1 = front ! 1" "(front @ c) ! 2 = front ! 2"
      by (auto simp: nth_append)
    from assms k False \<open>3 \<le> length front\<close> show ?thesis
      by (simp add: packet_length_def at Let_def del: One_nat_def split: if_splits)
  qed
qed

lemma messages_append:
  "messages H front sg = (ms, rest, sg1) \<Longrightarrow> messages H (rest @ c) sg1 = (ms', rest', sg2) \<Longrightarrow>
   messages H (front @ c) sg = (ms @ ms', rest', sg2)"
proof (induction H front sg arbitrary: ms rule: messages.induct)
  case (1 H front sg)
  show ?case
  proof (cases "packet_length front")
    case None
    with "1.prems" show ?thesis by (simp add: messages.simps [of H front])
  next
    case (Some k)
    obtain m sg' where m: "message_of H (take k front) sg = (m, sg')" by fastforce
    obtain ms0 where ms0: "messages H (drop k front) sg' = (ms0, rest, sg1)" "ms = m # ms0"
      using "1.prems"(1) Some m by (auto simp: messages.simps [of H front] split: prod.splits)
    have "messages H (drop k front @ c) sg' = (ms0 @ ms', rest', sg2)"
      using "1.IH" [OF Some m [symmetric] refl ms0(1) "1.prems"(2)] .
    with Some m ms0(2) show ?thesis
      by (simp add: messages.simps [of H "front @ c"] packet_length_append del: take_append drop_append)
  qed
qed

text \<open>The invariant of the parser object, and what its methods return under it.\<close>

definition parser_inv :: "mavlink \<Rightarrow> bool" where
  "parser_inv mv \<longleftrightarrow> mv_robust_parsing mv \<and> mv_buf_index mv \<le> length (mv_buf mv)"

lemma parse_rest_messages:
  assumes "parser_inv mv" "messages H (unparsed mv) (mv_signing mv) = (ms, rest, sg)"
  shows "\<exists>mv'. parse_rest H mv = (Inr ms, mv') \<and> parser_inv mv' \<and> unparsed mv' = rest \<and> mv_signing mv' = sg"
  using assms
proof (induction H mv arbitrary: ms rule: parse_rest.induct)
  case (1 H mv)
  from "1.prems"(1) have inv: "mv_robust_parsing mv" "mv_buf_index mv \<le> length (mv_buf mv)"
    by (simp_all add: parser_inv_def)
  from inv show ?case
  proof (cases rule: parse_char_step [where c = "[]" and H = H])
    case (none mv')
    with "1.prems" show ?thesis
      by (simp add: parse_rest.simps [of H mv] messages.simps [of H "unparsed mv"] parser_inv_def)
  next
    case (some m k mv')
    obtain ms0 where ms0: "messages H (unparsed mv') (mv_signing mv') = (ms0, rest, sg)" "ms = m # ms0"
      using "1.prems"(2) some(2,3,6)
      by (auto simp: messages.simps [of H "unparsed mv"] split: prod.splits)
    have "parser_inv mv'" using some(4,5) by (simp add: parser_inv_def)
    with "1.IH" [OF some(1) [symmetric] refl refl this ms0(1)] some(1) ms0(2) show ?thesis
      by (auto simp: parse_rest.simps [of H mv])
  qed
qed

lemma parse_buffer_messages:
  assumes "parser_inv mv" "messages H (unparsed mv @ s) (mv_signing mv) = (ms, rest, sg)"
  shows "\<exists>mv'. parse_buffer H s mv = (Inr (if ms = [] then None else Some ms), mv') \<and> parser_inv mv'
    \<and> unparsed mv' = rest \<and> mv_signing mv' = sg"
proof -
  from assms(1) have inv: "mv_robust_parsing mv" "mv_buf_index mv \<le> length (mv_buf mv)"
    by (simp_all add: parser_inv_def)
  from inv show ?thesis
  proof (cases rule: parse_char_step [where c = s and H = H])
    case (none mv')
    with assms show ?thesis
      by (simp add: parse_buffer_def messages.simps [of H "unparsed mv @ s"] parser_inv_def)
  next
    case (some m k mv')
    obtain ms0 where ms0: "messages H (unparsed mv') (mv_signing mv') = (ms0, rest, sg)" "ms = m # ms0"
      using assms(2) some(2,3,6)
      by (auto simp: messages.simps [of H "unparsed mv @ s"] split: prod.splits)
    have "parser_inv mv'" using some(4,5) by (simp add: parser_inv_def)
    from parse_rest_messages [OF this ms0(1)] some(1) ms0(2) show ?thesis
      by (auto simp: parse_buffer_def)
  qed
qed

text \<open>A reader that feeds the parser chunk by chunk and collects the messages.\<close>

fun parse_chunks :: "(bytes \<Rightarrow> bytes) \<Rightarrow> bytes list \<Rightarrow> mavlink \<Rightarrow> mav_message list result \<times> mavlink" where
  "parse_chunks H [] mv = (Inr [], mv)"
| "parse_chunks H (s # ss) mv =
     (case parse_buffer H s mv of
        (Inl e, mv1) \<Rightarrow> (Inl e, mv1)
      | (Inr ms, mv1) \<Rightarrow>
          (case parse_chunks H ss mv1 of
             (Inl e, mv2) \<Rightarrow> (Inl e, mv2)
           | (Inr ms', mv2) \<Rightarrow> (Inr ((case ms of None \<Rightarrow> [] | Some l \<Rightarrow> l) @ ms'), mv2)))"

lemma parse_chunks_messages:
  assumes "parser_inv mv" "packet_length (unparsed mv) = None"
    "messages H (unparsed mv @ concat ss) (mv_signing mv) = (ms, rest, sg)"
  shows "\<exists>mv'. parse_chunks H ss mv = (Inr ms, mv') \<and> parser_inv mv' \<and> unparsed mv' = rest \<and> mv_signing mv' = sg"
  using assms
proof (induction ss arbitrary: mv ms)
  case Nil
  then show ?case by (simp add: messages.simps [of H "unparsed mv"])
next
  case (Cons s ss)
  obtain ms1 rest1 sg1 where 1: "messages H (unparsed mv @ s) (mv_signing mv) = (ms1, rest1, sg1)"
    by (metis prod_cases3)
  obtain mv1 where mv1: "parse_buffer H s mv = (Inr (if ms1 = [] then None else Some ms1), mv1)"
    "parser_inv mv1" "unparsed mv1 = rest1" "mv_signing mv1 = sg1"
    using parse_buffer_messages [OF Cons.prems(1) 1] by blast
  have stuck: "packet_length r = None" if "messages H f g = (l, r, g')" for f g l r g'
    using that
  proof (induction H f g arbitrary: l rule: messages.induct)
    case (1 H f g)
    show ?case
    proof (cases "packet_length f")
      case None
      with "1.prems" show ?thesis by (simp add: messages.simps [of H f])
    next
      case (Some k)
      with "1.prems" "1.IH" [OF Some] show ?thesis
        by (auto simp: messages.simps [of H f] split: prod.splits)
    qed
  qed
  obtain ms2 rest2 sg2 where 2: "messages H (rest1 @ concat ss) sg1 = (ms2, rest2, sg2)"
    by (metis prod_cases3)
  from messages_append [OF 1 2] Cons.prems(3) have all: "ms = ms1 @ ms2" "rest2 = rest" "sg2 = sg" by simp_all
  obtain mv2 where "parse_chunks H ss mv1 = (Inr ms2, mv2)" "parser_inv mv2" "unparsed mv2 = rest" "mv_signing mv2 = sg"
    using Cons.IH [of mv1 ms2] mv1 2 stuck [OF 1] all by auto
  with mv1(1) all(1) show ?case by auto
qed

lemma message_of_buf: "pkt \<noteq> [] \<Longrightarrow> mm_msgbuf (fst (message_of H pkt sg)) = Some pkt"
proof -
  assume ne: "pkt \<noteq> []"
  let ?mv = "(MAVLink 0 0)\<lparr>mv_signing := sg\<rparr>"
  have "mv_robust_parsing ?mv" by (simp add: MAVLink_def)
  then obtain m sg' where "parse_packet H (pkt ! 0) (pkt ! 2) pkt ?mv = (Inr (Some m), ?mv\<lparr>mv_signing := sg'\<rparr>)"
    "mm_msgbuf m = Some pkt" using parse_packet_robust ne by metis
  then show ?thesis by (simp add: message_of_def MAVLinkMessage_def)
qed

lemma messages_conserve:
  "messages H front sg = (ms, rest, sg') \<Longrightarrow> concat (map (the \<circ> mm_msgbuf) ms) @ rest = front"
proof (induction H front sg arbitrary: ms rule: messages.induct)
  case (1 H front sg)
  show ?case
  proof (cases "packet_length front")
    case None
    with "1.prems" show ?thesis by (simp add: messages.simps [of H front])
  next
    case (Some k)
    obtain m sg1 where m: "message_of H (take k front) sg = (m, sg1)" by fastforce
    obtain ms0 where ms0: "messages H (drop k front) sg1 = (ms0, rest, sg')" "ms = m # ms0"
      using "1.prems" Some m by (auto simp: messages.simps [of H front] split: prod.splits)
    have "take k front \<noteq> []" using packet_length_bounds [OF Some] by auto
    from message_of_buf [OF this, of H sg] m have "mm_msgbuf m = Some (take k front)" by simp
    with "1.IH" [OF Some m [symmetric] refl ms0(1)] ms0(2) show ?thesis by simp
  qed
qed

section \<open>Properties of the parser\<close>

text \<open>C29. The MAVLink parser on any byte stream, in any fragmentation: it never raises, the messages it
  returns (bad-data and unknown messages included) are those it returns for the whole stream at
  once, and their raw bytes followed by what it still holds are exactly the stream.\<close>

theorem parser_independent_of_fragmentation:
  "\<exists>ms mv'. parse_chunks H chunks (MAVLink a b) = (Inr ms, mv') \<and>
     fst (parse_chunks H [concat chunks] (MAVLink a b)) = Inr ms \<and>
     concat (map (the \<circ> mm_msgbuf) ms) @ unparsed mv' = concat chunks"
proof -
  let ?mv = "MAVLink a b"
  obtain ms rest sg where ms: "messages H (concat chunks) (mv_signing ?mv) = (ms, rest, sg)"
    by (metis prod_cases3)
  have init: "parser_inv ?mv" "unparsed ?mv = []" "packet_length [] = None"
    by (simp_all add: parser_inv_def MAVLink_def unparsed_def packet_length_def)
  from parse_chunks_messages [of ?mv H chunks ms rest sg] init ms
  obtain mv' where 1: "parse_chunks H chunks ?mv = (Inr ms, mv')" "unparsed mv' = rest" by auto
  from parse_chunks_messages [of ?mv H "[concat chunks]" ms rest sg] init ms
  have 2: "fst (parse_chunks H [concat chunks] ?mv) = Inr ms" by auto
  show ?thesis
    using 1 2 messages_conserve [OF ms] by auto
qed

end
