(* ===== verification/Mavlink_Roundtrip.thy ===== *)
theory Mavlink_Roundtrip
  imports Mavlink_Stream
begin

text \<open>
  Packing a MAVLink message and parsing it back: for both protocol versions, with the truncation of
  trailing zeros in MAVLink 2, from any fragmentation. The exception is \<open>PARAM_SET\<close>, which the
  decoder of the repository rejects.
\<close>

section \<open>Headers\<close>

lemma le_digits_1: "le_digits 1 v = [word_of_int v]"
  by (simp add: eval_nat_numeral)

lemma le_digits_2: "le_digits 2 v = [word_of_int v, word_of_int (v div 256)]"
  by (simp add: eval_nat_numeral)

lemma uint_byte_small: "0 \<le> v \<Longrightarrow> v < 256 \<Longrightarrow> uint (word_of_int v :: byte) = v"
  by (simp add: uint_word_of_int_byte)

lemma packed_header_v1:
  assumes "header_pack True h = Inr hdr"
  shows "hdr = [0xFE, word_of_int (mh_mlen h), word_of_int (mh_seq h), word_of_int (mh_source_system h),
      word_of_int (mh_source_component h), word_of_int (mh_msg_id h)]"
    "decode_header (hdr @ rest) = Inr (6, MAVLinkHeader (mh_msg_id h) 0 0 (mh_mlen h) (mh_seq h)
      (mh_source_system h) (mh_source_component h))"
proof -
  show hdr: "hdr = [0xFE, word_of_int (mh_mlen h), word_of_int (mh_seq h), word_of_int (mh_source_system h),
      word_of_int (mh_source_component h), word_of_int (mh_msg_id h)]"
    using assms by (simp add: header_pack_def le_digits_1 split: if_splits)
  have "0 \<le> mh_mlen h \<and> mh_mlen h < 256" "0 \<le> mh_seq h \<and> mh_seq h < 256"
    "0 \<le> mh_source_system h \<and> mh_source_system h < 256"
    "0 \<le> mh_source_component h \<and> mh_source_component h < 256"
    "0 \<le> mh_msg_id h \<and> mh_msg_id h < 256"
    using assms by (simp_all add: header_pack_def split: if_splits)
  then show "decode_header (hdr @ rest) = Inr (6, MAVLinkHeader (mh_msg_id h) 0 0 (mh_mlen h) (mh_seq h)
      (mh_source_system h) (mh_source_component h))"
    by (simp add: hdr decode_header_def struct_unpack_def calcsize_def header_v1_def Let_def uint_byte_small)
qed

lemma packed_header_v2:
  assumes "header_pack False h = Inr hdr"
  shows "take 3 hdr = [0xFD, word_of_int (mh_mlen h), word_of_int (mh_incompat_flags h)]" "length hdr = 10"
    "mh_msg_id h \<in> {0..<65536} \<Longrightarrow> decode_header (hdr @ rest) = Inr (10, h)"
proof -
  let ?lo = "mh_msg_id h AND 0xFFFF" and ?hi = "drop_bit 16 (mh_msg_id h)"
  have hdr: "hdr = [0xFD, word_of_int (mh_mlen h), word_of_int (mh_incompat_flags h),
      word_of_int (mh_compat_flags h), word_of_int (mh_seq h), word_of_int (mh_source_system h),
      word_of_int (mh_source_component h), word_of_int ?lo, word_of_int (?lo div 256), word_of_int ?hi]"
    using assms by (simp add: header_pack_def le_digits_1 le_digits_2 split: if_splits)
  then show "take 3 hdr = [0xFD, word_of_int (mh_mlen h), word_of_int (mh_incompat_flags h)]" "length hdr = 10"
    by simp_all
  assume id: "mh_msg_id h \<in> {0..<65536}"
  have "?lo = take_bit 16 (mh_msg_id h)" by (simp add: take_bit_eq_mask mask_eq_exp_minus_1)
  with id have lo: "?lo = mh_msg_id h" by (simp add: take_bit_int_eq_self_iff)
  have hi: "?hi = 0" using id by (simp add: drop_bit_eq_div)
  have "0 \<le> mh_mlen h \<and> mh_mlen h < 256" "0 \<le> mh_seq h \<and> mh_seq h < 256"
    "0 \<le> mh_source_system h \<and> mh_source_system h < 256"
    "0 \<le> mh_source_component h \<and> mh_source_component h < 256"
    "0 \<le> mh_incompat_flags h \<and> mh_incompat_flags h < 256"
    "0 \<le> mh_compat_flags h \<and> mh_compat_flags h < 256"
    using assms by (simp_all add: header_pack_def split: if_splits)
  moreover have "uint (word_of_int (mh_msg_id h) :: byte) + 256 * uint (word_of_int (mh_msg_id h div 256) :: byte)
      = mh_msg_id h"
  proof -
    have "0 \<le> mh_msg_id h div 256" "mh_msg_id h div 256 < 256" using id by auto
    then show ?thesis by (simp add: uint_word_of_int_byte)
  qed
  ultimately show "decode_header (hdr @ rest) = Inr (10, h)"
    by (simp add: hdr lo hi decode_header_def struct_unpack_def calcsize_def header_v2_def Let_def uint_byte_small
        MAVLinkHeader_def)
qed

section \<open>Payloads\<close>

lemma strip_zeros_spec:
  "strip_zeros payload n \<le> n \<and> (n \<le> length payload \<longrightarrow>
     take n payload = take (strip_zeros payload n) payload @ replicate (n - strip_zeros payload n) 0)"
proof (induction n)
  case (Suc n)
  show ?case
  proof (cases "Suc n > 1 \<and> payload ! n = 0")
    case True
    let ?k = "strip_zeros payload n"
    from Suc True have "?k \<le> n" and "Suc n \<le> length payload \<longrightarrow>
        take n payload = take ?k payload @ replicate (n - ?k) 0" by auto
    with True show ?thesis by (auto simp: take_Suc_conv_app_nth Suc_diff_le replicate_append_same)
  qed auto
qed simp

lemma unpack_packed:
  assumes "struct_pack fvs = Inr P" "map fst fvs = mt_format mt" "payload @ replicate (length P - length payload) 0 = P"
  shows "decode_payload key mt payload = instantiate key (map2 (\<lambda>tp v. if tp = ''char'' then VStr else v)
    (mt_fieldtypes mt) (map (\<lambda>i. map (\<lambda>(f, v). stored f v) fvs ! i) (mt_orders mt)))"
proof -
  have size: "calcsize (mt_format mt) = length P" using struct_pack_length [OF assms(1)] assms(2) by simp
  have "struct_unpack (mt_format mt) P = Inr (map (\<lambda>(f, v). stored f v) fvs)"
    using unpack_fields_pack [OF assms(1), of "[]"] size assms(2) by (simp add: struct_unpack_def)
  with assms(3) size show ?thesis by (simp add: decode_payload_def Let_def del: take_append)
qed

text \<open>What each message class decodes its own payload to.\<close>

fun is_param_set :: "mav_body \<Rightarrow> bool" where
  "is_param_set (MAVLinkParamSetMessage _ _ _ _ _) = True"
| "is_param_set _ = False"

lemma own_payload:
  assumes "wire_fields body = Inr (extra, fvs)" "struct_pack fvs = Inr P"
  obtains mt where "mavlink_map (class_msg_id body) = Some mt" "mt_crc_extra mt = extra"
    "class_msg_id body \<in> {0..<256}" "length P < 256" "P \<noteq> []"
    "\<And>payload. payload @ replicate (length P - length payload) 0 = P \<Longrightarrow>
       decode_payload (class_msg_id body) mt payload =
         (if is_param_set body then Inl (MAVError ''Unable to instantiate MAVLink message'') else Inr body)"
proof -
  let ?mt = "the (mavlink_map (class_msg_id body))"
  have map: "mavlink_map (class_msg_id body) = Some ?mt" "mt_crc_extra ?mt = extra"
    "class_msg_id body \<in> {0..<256}" "map fst fvs = mt_format ?mt"
    using assms(1) by (cases body; auto simp: mavlink_map_def message_class_defs)+
  have "length P = calcsize (map fst fvs)" by (rule struct_pack_length [OF assms(2)])
  then have len: "length P < 256" "P \<noteq> []"
    using assms(1) by (cases body; auto simp: calcsize_def message_class_defs)+
  have dec: "decode_payload (class_msg_id body) ?mt payload =
         (if is_param_set body then Inl (MAVError ''Unable to instantiate MAVLink message'') else Inr body)"
    if "payload @ replicate (length P - length payload) 0 = P" for payload
    using assms(1) unpack_packed [OF assms(2) map(4) that, of "class_msg_id body"]
    by (cases body) (auto simp: mavlink_map_def message_class_defs instantiate_def construct_heartbeat_def construct_param_set_def
        construct_command_long_def construct_command_ack_def eval_nat_numeral)
  show thesis using map(1-3) len dec by (rule that)
qed

section \<open>Packets\<close>

lemma x25crc_append: "x25crc (xs @ ys) = accumulate ys (x25crc xs)"
  by (simp add: x25crc_def accumulate_foldl)

lemma slices: "length c = 2 \<Longrightarrow> take_last 2 (xs @ c) = c" "length c = 2 \<Longrightarrow> drop_last 2 (xs @ c) = xs"
  by (simp_all add: take_last_def drop_last_def)

text \<open>A correctly framed unsigned packet decodes to what its payload decodes to.\<close>

lemma decode_packet:
  assumes hdr: "decode_header (hdr @ payload @ le_digits 2 crc) = Inr (length hdr, h)" "hdr \<noteq> []"
      "hdr ! 0 = 0xFE \<or> hdr ! 0 = 0xFD"
    and flags: "mh_incompat_flags h = 0" and mlen: "mh_mlen h = int (length payload)"
    and mt: "mavlink_map (mh_msg_id h) = Some mt"
    and crc: "crc = x25crc (drop 1 (hdr @ payload) @ [mt_crc_extra mt])"
    and key: "sg_secret_key (mv_signing mv) = None"
  shows "\<exists>p b. decode H (hdr @ payload @ le_digits 2 crc) mv =
    (map_sum id (\<lambda>body. \<lparr>mm_body = body, mm_header = h, mm_payload = p, mm_msgbuf = b,
       mm_crc = Some crc, mm_signed = False, mm_link_id = None\<rparr>) (decode_payload (mh_msg_id h) mt payload), mv)"
proof -
  let ?buf = "hdr @ payload @ le_digits 2 crc"
  have sl: "signature_len h = 0" using flags by (simp add: signature_len_def)
  have at: "?buf ! 0 = hdr ! 0" using hdr(2) by (simp add: nth_append)
  have last: "take_last 2 ?buf = le_digits 2 crc" "drop_last 2 ?buf = hdr @ payload"
    using slices [of "le_digits 2 crc" "hdr @ payload"] by simp_all
  have "crc mod 65536 = crc" using crc x25crc_bounds [of "drop 1 (hdr @ payload) @ [mt_crc_extra mt]"] by simp
  then have c: "from_bytes_le (take 2 (le_digits 2 crc)) = crc" by (simp add: codec_simps)
  have acc: "accept_packet H ?buf h mv = (Inr (True, False), mv)"
    using sl key by (simp add: accept_packet_def Let_def)
  have prefix: "\<not> (?buf ! 0 \<noteq> PROTOCOL_MARKER_V1 \<and> ?buf ! 0 \<noteq> PROTOCOL_MARKER_V2)" using at hdr(3) by auto
  have len: "\<not> mh_mlen h \<noteq> int (length ?buf) - int (length hdr + 2 + signature_len h)" using mlen sl by simp
  have sum: "\<not> from_bytes_le (take 2 (take_last (2 + signature_len h) ?buf)) \<noteq>
      x25crc (drop 1 (drop_last (2 + signature_len h) ?buf) @ [mt_crc_extra mt])"
    by (simp only: sl add_0_right last c crc [symmetric] not_not)
  have "drop (length hdr) (hdr @ payload) = payload" by simp
  then have "decode H ?buf mv = (case decode_payload (mh_msg_id h) mt payload of
      Inl e \<Rightarrow> (Inl e, mv)
    | Inr body \<Rightarrow> (Inr \<lparr>mm_body = body, mm_header = h, mm_payload = Some (drop 6 (hdr @ payload)), mm_msgbuf = Some ?buf,
       mm_crc = Some crc, mm_signed = False, mm_link_id = None\<rparr>, mv))"
    unfolding decode_def hdr(1) sum.case prod.case Let_def if_not_P [OF prefix] if_not_P [OF len] mt option.case
      if_not_P [OF sum] acc
    by (simp only: sl add_0_right last c not_True_eq_False if_False)
  then show ?thesis by (cases "decode_payload (mh_msg_id h) mt payload") auto
qed

lemma encode_parts:
  assumes "encode H force (MAVLinkMessage body) mv = (Inr buf, m1, mv1)" "\<not> sg_sign_outgoing (mv_signing mv)"
  obtains extra fvs P n hdr h crc where
    "wire_fields body = Inr (extra, fvs)" "struct_pack fvs = Inr P"
    "n = (if force then length P else strip_zeros P (length P))"
    "h = MAVLinkHeader (class_msg_id body) 0 0 (int (length (take n P))) (mv_seq mv)
       (mv_source_system mv) (mv_source_component mv)"
    "header_pack force h = Inr hdr" "crc = x25crc (drop 1 (hdr @ take n P) @ [extra])"
    "buf = hdr @ take n P @ le_digits 2 crc" "mv1 = mv\<lparr>mv_seq := (mv_seq mv + 1) mod 256\<rparr>"
proof -
  obtain extra fvs P where w: "wire_fields body = Inr (extra, fvs)" "struct_pack fvs = Inr P"
    using assms(1) by (auto simp: encode_def message_pack_def MAVLinkMessage_def split: sum.splits)
  define n where "n = (if force then length P else strip_zeros P (length P))"
  define h where "h = MAVLinkHeader (class_msg_id body) 0 0 (int (length (take n P))) (mv_seq mv)
       (mv_source_system mv) (mv_source_component mv)"
  have id: "get_msg_id (MAVLinkMessage body) = class_msg_id body"
    by (simp add: get_msg_id_def MAVLinkMessage_def MAVLinkHeader_def)
  have pack: "message_pack H mv force (MAVLinkMessage body) = pack_msg H mv extra P force (MAVLinkMessage body)"
    using w by (simp add: message_pack_def MAVLinkMessage_def)
  have plen: "(if \<not> force then strip_zeros P (length P) else length P) = n" by (simp add: n_def)
  obtain hdr where hdr: "header_pack force h = Inr hdr"
    using assms pack plen id
    by (cases "header_pack force h") (simp_all add: encode_def pack_msg_def Let_def h_def)
  define crc where "crc = x25crc (drop 1 (hdr @ take n P) @ [extra])"
  have acc: "accumulate [extra] (x25crc (drop 1 (hdr @ take n P))) = crc"
    by (simp only: crc_def x25crc_append)
  have range: "0 \<le> crc" "crc < 2 ^ 16"
    using x25crc_bounds [of "drop 1 (hdr @ take n P) @ [extra]"] by (simp_all only: crc_def)
  have "fst (pack_msg H mv extra P force (MAVLinkMessage body)) = Inr (hdr @ take n P @ le_digits 2 crc)
      \<and> snd (snd (pack_msg H mv extra P force (MAVLinkMessage body))) = mv"
    using hdr range assms(2) unfolding pack_msg_def plen id Let_def acc h_def
    by (simp add: acc del: drop_append accumulate.simps One_nat_def)
  then have "buf = hdr @ take n P @ le_digits 2 crc" "mv1 = mv\<lparr>mv_seq := (mv_seq mv + 1) mod 256\<rparr>"
    using assms(1) pack by (auto simp: encode_def split: prod.splits sum.splits)
  with w n_def h_def hdr crc_def show thesis by (intro that)
qed

text \<open>The frame of a packed message, as the parser sees it.\<close>

lemma packed_frame:
  assumes "header_pack force h = Inr hdr" "mh_incompat_flags h = 0" "mh_mlen h = int (length payload)"
    "length payload < 256" "length c = 2"
  shows "packet_length (hdr @ payload @ c) = Some (length (hdr @ payload @ c))"
    "hdr \<noteq> []" "hdr ! 0 = (if force then 0xFE else 0xFD)" "(hdr @ payload @ c) ! 2 AND NOT 1 = 0 \<or> force"
proof -
  have "unat (word_of_int (int (length payload)) :: byte) = length payload"
    using assms(4) by (simp add: unsigned_of_nat take_bit_nat_eq_self_iff)
  note len = this [folded assms(3)]
  have "packet_length (hdr @ payload @ c) = Some (length (hdr @ payload @ c)) \<and> hdr \<noteq> [] \<and>
        hdr ! 0 = (if force then 0xFE else 0xFD) \<and> ((hdr @ payload @ c) ! 2 AND NOT 1 = 0 \<or> force)"
  proof (cases force)
    case True
    with assms(1) have "hdr = [0xFE, word_of_int (mh_mlen h), word_of_int (mh_seq h), word_of_int (mh_source_system h),
      word_of_int (mh_source_component h), word_of_int (mh_msg_id h)]"
      using packed_header_v1(1) [of h hdr] by simp
    then show "packet_length (hdr @ payload @ c) = Some (length (hdr @ payload @ c)) \<and> hdr \<noteq> [] \<and>
        hdr ! 0 = (if force then 0xFE else 0xFD) \<and> ((hdr @ payload @ c) ! 2 AND NOT 1 = 0 \<or> force)"
      using True len assms(5) by (simp add: packet_length_def)
  next
    case False
    with assms(1) have h: "take 3 hdr = [0xFD, word_of_int (mh_mlen h), word_of_int (mh_incompat_flags h)]" "length hdr = 10"
      using packed_header_v2(1,2) [of h hdr] by simp_all
    have "hdr = take 3 hdr @ drop 3 hdr" by simp
    with h(1) assms(2) have hdr: "hdr = 0xFD # word_of_int (mh_mlen h) # 0 # drop 3 hdr" by simp
    then have at: "(hdr @ payload @ c) ! 0 = 0xFD" "(hdr @ payload @ c) ! 1 = word_of_int (mh_mlen h)"
      "(hdr @ payload @ c) ! 2 = 0" "hdr ! 0 = 0xFD"
      by (metis append_Cons nth_Cons_0 nth_Cons_Suc One_nat_def numeral_2_eq_2)+
    then show "packet_length (hdr @ payload @ c) = Some (length (hdr @ payload @ c)) \<and> hdr \<noteq> [] \<and>
        hdr ! 0 = (if force then 0xFE else 0xFD) \<and> ((hdr @ payload @ c) ! 2 AND NOT 1 = 0 \<or> force)"
      using False len assms(5) h(2) by (auto simp: packet_length_def simp del: One_nat_def)
  qed
  then show "packet_length (hdr @ payload @ c) = Some (length (hdr @ payload @ c))"
    "hdr \<noteq> []" "hdr ! 0 = (if force then 0xFE else 0xFD)" "(hdr @ payload @ c) ! 2 AND NOT 1 = 0 \<or> force"
    by blast+
qed

definition decoded_body :: "mav_body \<Rightarrow> bytes \<Rightarrow> mav_body" where
  "decoded_body body buf = (if is_param_set body
     then MAVLinkBadData buf (MAVError ''Unable to instantiate MAVLink message'') else body)"

lemma packed_messages:
  assumes "encode H force (MAVLinkMessage body) mv = (Inr buf, m1, mv1)" "\<not> sg_sign_outgoing (mv_signing mv)"
    and key: "sg_secret_key sg = None"
  shows "\<exists>m. messages G buf sg = ([m], [], sg) \<and> mm_body m = decoded_body body buf \<and>
    (\<not> is_param_set body \<longrightarrow> mh_seq (mm_header m) = mv_seq mv \<and>
       mh_source_system (mm_header m) = mv_source_system mv \<and>
       mh_source_component (mm_header m) = mv_source_component mv)"
proof -
  from encode_parts [OF assms(1,2)] obtain extra fvs P n hdr h crc where
    w: "wire_fields body = Inr (extra, fvs)" "struct_pack fvs = Inr P"
    and n: "n = (if force then length P else strip_zeros P (length P))"
    and h: "h = MAVLinkHeader (class_msg_id body) 0 0 (int (length (take n P))) (mv_seq mv)
       (mv_source_system mv) (mv_source_component mv)"
    and hdr: "header_pack force h = Inr hdr" and crc: "crc = x25crc (drop 1 (hdr @ take n P) @ [extra])"
    and buf: "buf = hdr @ take n P @ le_digits 2 crc" by metis
  from own_payload [OF w] obtain mt where mt: "mavlink_map (class_msg_id body) = Some mt" "mt_crc_extra mt = extra"
    "class_msg_id body \<in> {0..<256}" "length P < 256"
    and own: "\<And>payload. payload @ replicate (length P - length payload) 0 = P \<Longrightarrow>
       decode_payload (class_msg_id body) mt payload =
         (if is_param_set body then Inl (MAVError ''Unable to instantiate MAVLink message'') else Inr body)"
    by metis
  let ?p = "take n P"
  have pad: "?p @ replicate (length P - length ?p) 0 = P"
    using n strip_zeros_spec [of P "length P"] by (auto simp: min_def)
  have flags: "mh_incompat_flags h = 0" "mh_mlen h = int (length ?p)" "mh_msg_id h = class_msg_id body"
    by (simp_all add: h MAVLinkHeader_def)
  have len: "length ?p < 256" using mt(4) by simp
  note frame = packed_frame [OF hdr flags(1,2) len, of "le_digits 2 crc", folded buf, simplified]
  have h16: "mh_msg_id h \<in> {0..<65536}" using flags(3) mt(3) by auto
  have "decode_header buf = Inr (length hdr, h)"
    using hdr h16 packed_header_v2(2) [of h hdr] packed_header_v2(3) [of h hdr "?p @ le_digits 2 crc"]
      packed_header_v1(1) [of h hdr] packed_header_v1(2) [of h hdr "?p @ le_digits 2 crc"]
    by (cases force) (auto simp: buf h MAVLinkHeader_def)
  moreover have "hdr \<noteq> []" "hdr ! 0 = 0xFE \<or> hdr ! 0 = 0xFD" using frame by (auto split: if_splits)
  moreover have "crc = x25crc (drop 1 (hdr @ ?p) @ [mt_crc_extra mt])" using crc mt(2) by simp
  ultimately obtain p b where dec: "decode G buf ((MAVLink 0 0)\<lparr>mv_signing := sg\<rparr>) =
    (map_sum id (\<lambda>body. \<lparr>mm_body = body, mm_header = h, mm_payload = p, mm_msgbuf = b,
       mm_crc = Some crc, mm_signed = False, mm_link_id = None\<rparr>) (decode_payload (mh_msg_id h) mt ?p),
     (MAVLink 0 0)\<lparr>mv_signing := sg\<rparr>)"
    using decode_packet [of hdr ?p crc h mt "(MAVLink 0 0)\<lparr>mv_signing := sg\<rparr>" G] flags mt(1) key
    by (auto simp: buf)
  have "buf ! 0 = hdr ! 0" using frame by (simp add: buf nth_append)
  with dec own [OF pad] frame flags(3) obtain m where m: "message_of G buf sg = (m, sg)" "mm_body m = decoded_body body buf"
    "\<not> is_param_set body \<longrightarrow> mm_header m = h"
    by (cases force; cases "is_param_set body")
       (auto simp: message_of_def parse_packet_def MAVLink_def decoded_body_def MAVLinkMessage_def buf)
  have "messages G buf sg = ([m], [], sg)"
    using frame m(1) by (simp add: messages.simps [of G buf] messages.simps [of G "[]"] packet_length_def)
  with m show ?thesis by (auto simp: h MAVLinkHeader_def)
qed

section \<open>Properties of the codec\<close>

lemma packed_chunks:
  assumes "encode H force (MAVLinkMessage body) mv = (Inr (concat chunks), m1, mv1)" "\<not> sg_sign_outgoing (mv_signing mv)"
  shows "\<exists>m rx. parse_chunks G chunks (MAVLink a b) = (Inr [m], rx) \<and> mm_body m = decoded_body body (concat chunks) \<and>
    (\<not> is_param_set body \<longrightarrow> mh_seq (mm_header m) = mv_seq mv \<and>
       mh_source_system (mm_header m) = mv_source_system mv \<and>
       mh_source_component (mm_header m) = mv_source_component mv)"
proof -
  let ?rx = "MAVLink a b"
  have init: "parser_inv ?rx" "unparsed ?rx = []" "packet_length [] = None"
    "sg_secret_key (mv_signing ?rx) = None"
    by (simp_all add: parser_inv_def MAVLink_def unparsed_def packet_length_def MAVLinkSigning_def)
  from packed_messages [OF assms init(4), of G] obtain m where
    m: "messages G (concat chunks) (mv_signing ?rx) = ([m], [], mv_signing ?rx)"
    "mm_body m = decoded_body body (concat chunks)"
    "\<not> is_param_set body \<longrightarrow> mh_seq (mm_header m) = mv_seq mv \<and>
       mh_source_system (mm_header m) = mv_source_system mv \<and>
       mh_source_component (mm_header m) = mv_source_component mv" by blast
  from parse_chunks_messages [of ?rx G chunks] init m(1)
  obtain rx where "parse_chunks G chunks ?rx = (Inr [m], rx)" by auto
  with m show ?thesis by blast
qed



definition example_ack :: mav_body where
  "example_ack = MAVLinkCommandACKMessage 246 0 0 0 1 0"

lemma example_ack_encoded:
  "fst (encode (\<lambda>_. []) False (MAVLinkMessage example_ack) (MAVLink 254 190)) =
     Inr [253, 9, 0, 0, 0, 254, 190, 77, 0, 0, 246, 0, 0, 0, 0, 0, 0, 0, 1, 234, 68]"
  by code_simp


text \<open>\<open>PARAM_SET\<close> packets can be sent but not received: whatever packed \<open>PARAM_SET\<close> message the
  parser gets, it reports the packet as bad data, because the constructor that decoding calls
  splits its string argument at a bytes separator.\<close>

theorem param_set_never_decoded:
  assumes "encode H force (MAVLinkMessage (MAVLinkParamSetMessage ts tc pid v t)) mv = (Inr buf, m1, mv1)"
    and "\<not> sg_sign_outgoing (mv_signing mv)" "concat chunks = buf"
  shows "\<exists>m rx. parse_chunks G chunks (MAVLink a b) = (Inr [m], rx) \<and>
    mm_body m = MAVLinkBadData buf (MAVError ''Unable to instantiate MAVLink message'')"
  using packed_chunks [of H force "MAVLinkParamSetMessage ts tc pid v t" mv chunks m1 mv1 G a b] assms
  by (auto simp: decoded_body_def)

lemma example_param_set_encoded:
  "fst (encode (\<lambda>_. []) True (MAVLinkMessage (MAVLinkParamSetMessage 0 1 [65] 0 0)) (MAVLink 254 190)) =
     Inr ([254, 23, 0, 254, 190, 23, 0, 0, 0, 0, 0, 1, 65] @ replicate 16 0 @ [171, 58])"
  by code_simp

lemma param_set_never_decoded_witness:
  "\<exists>m rx. parse_chunks (\<lambda>_. []) [[254, 23, 0, 254, 190, 23, 0, 0, 0, 0, 0, 1, 65] @ replicate 16 0 @ [171, 58]] (MAVLink 1 1) =
     (Inr [m], rx) \<and> mm_body m = MAVLinkBadData ([254, 23, 0, 254, 190, 23, 0, 0, 0, 0, 0, 1, 65] @ replicate 16 0 @ [171, 58])
       (MAVError ''Unable to instantiate MAVLink message'')"
proof -
  obtain m1 mv1 where "encode (\<lambda>_. []) True (MAVLinkMessage (MAVLinkParamSetMessage 0 1 [65] 0 0)) (MAVLink 254 190) =
     (Inr ([254, 23, 0, 254, 190, 23, 0, 0, 0, 0, 0, 1, 65] @ replicate 16 0 @ [171, 58]), m1, mv1)"
    using example_param_set_encoded by (metis prod.collapse)
  moreover have "\<not> sg_sign_outgoing (mv_signing (MAVLink 254 190))"
    by (simp add: MAVLink_def MAVLinkSigning_def)
  ultimately show ?thesis by (rule param_set_never_decoded) simp
qed

end
