(* ===== verification/Connection.thy ===== *)
theory Connection
  imports Effects Protocol Mavlink
begin

text \<open>
  \<open>BootloaderConnection\<close> of \<^verbatim>\<open>connection.py\<close>: the command loop that obtains sync, sends a command, feeds
  what arrives into the protocol machine and retries, the operations built on it, and the MAVLink
  messages that reboot a running firmware. A method runs on the connection object, whose field
  \<open>cn_world\<close> is the world behind its transport \<open>T\<close>. The lock is \<open>anyio\<close>'s: what happens when its
  holder acquires it again is the field \<open>cn_relock\<close>, an exception or, if \<open>None\<close>, a deadlock.
  Timeouts are in milliseconds. A cancellation arrives where the transport is awaited, as the exception \<open>Cancelled\<close>.
\<close>

section \<open>State\<close>

datatype conn_mode = ModeBootloader | ModeMavlink | ModeUnknown

record 'w connection =
  cn_lock :: bool
  cn_relock :: "exn option"
  cn_mavlink :: "mavlink option"
  cn_mode :: conn_mode
  cn_protocol :: protocol
  cn_system_id :: int
  cn_world :: 'w

definition BootloaderConnection :: "exn option \<Rightarrow> int \<Rightarrow> 'w \<Rightarrow> 'w connection" where
  "BootloaderConnection relock system_id w =
     \<lparr>cn_lock = False, cn_relock = relock, cn_mavlink = None, cn_mode = ModeUnknown,
      cn_protocol = Protocol, cn_system_id = system_id, cn_world = w\<rparr>"

text \<open>\<open>async with self._lock\<close>: the lock is released on every way out.\<close>

definition with_lock :: "('w connection, 'a) eff \<Rightarrow> ('w connection, 'a) eff" where
  "with_lock m c =
     (if cn_lock c then map_option (\<lambda>e. (Inl e, c)) (cn_relock c)
      else map_option (\<lambda>(r, c1). (r, c1\<lparr>cn_lock := False\<rparr>)) (m (c\<lparr>cn_lock := True\<rparr>)))"

definition transport_send :: "'w transport \<Rightarrow> bytes \<Rightarrow> ('w connection, unit) eff" where
  "transport_send T data c =
     map_option (\<lambda>(r, w). (r, c\<lparr>cn_world := w\<rparr>)) (tr_send T data (cn_world c))"

definition transport_receive :: "'w transport \<Rightarrow> nat option \<Rightarrow> ('w connection, bytes) eff" where
  "transport_receive T timeout c =
     map_option (\<lambda>(r, w). (r, c\<lparr>cn_world := w\<rparr>)) (tr_receive T timeout (cn_world c))"

section \<open>The command loop\<close>

text \<open>
  \<open>_process_command_inner\<close>. The local variables are \<open>command_to_send\<close>, \<open>retries_left\<close> and \<open>sent\<close>;
  \<open>given_timeout\<close> is the argument. \<open>process_step\<close> is one turn of the \<open>while True\<close> loop, which returns
  or raises (\<open>Done\<close>) or goes on with new values (\<open>Again\<close>). No caller passes the \<open>GET_SYNC\<close> singleton
  as the command, so \<open>command_to_send is command\<close> holds exactly when it was chosen in sync.
\<close>

datatype 'w turn =
    Done "bytes result" "'w connection"
  | Again "command option" nat bool "'w connection"

text \<open>What the loop does after a failure: give up with an exception or use up a retry.\<close>

definition retry_or_raise ::
  "exn \<Rightarrow> command option \<Rightarrow> nat \<Rightarrow> bool \<Rightarrow> 'w connection \<Rightarrow> 'w turn" where
  "retry_or_raise e command_to_send retries_left sent c =
     (if retries_left = 0 then Done (Inl e) c else Again command_to_send (retries_left - 1) sent c)"

definition send_turn ::
  "'w transport \<Rightarrow> command \<Rightarrow> nat \<Rightarrow> bool \<Rightarrow> 'w connection \<Rightarrow> 'w turn option" where
  "send_turn T command retries_left sent c =
     (let synced = in_sync (cn_protocol c); to_send = (if synced then command else GET_SYNC) in
      if synced \<and> sent then Some (Done (Inl (RuntimeError ''invalid state'')) c)
      else (case send (CommandEvent to_send) (cn_protocol c) of
          (Inl e, p) \<Rightarrow> Some (Done (Inl e) (c\<lparr>cn_protocol := p\<rparr>))
        | (Inr raw_bytes, p) \<Rightarrow>
            map_option
              (\<lambda>(r, c1). case r of
                 Inl e \<Rightarrow>
                   if e = Cancelled then Done (Inl e) c1
                   else retry_or_raise e (Some to_send) retries_left False
                          (c1\<lparr>cn_protocol := send_failed (cn_protocol c1)\<rparr>)
               | Inr _ \<Rightarrow> Again (Some to_send) retries_left synced c1)
              (transport_send T raw_bytes (c\<lparr>cn_protocol := p\<rparr>))))"

definition receive_turn ::
  "'w transport \<Rightarrow> nat option \<Rightarrow> command option \<Rightarrow> nat \<Rightarrow> bool \<Rightarrow> 'w connection \<Rightarrow> 'w turn option" where
  "receive_turn T given_timeout command_to_send retries_left sent c =
     (let timeout = (case given_timeout of
            Some t \<Rightarrow> t
          | None \<Rightarrow> (case command_to_send of Some x \<Rightarrow> suggested_timeout x | None \<Rightarrow> 1000))
      in map_option
           (\<lambda>(r, c1). case r of
              Inl e \<Rightarrow>
                if e = TimeoutError
                then retry_or_raise e command_to_send retries_left sent
                       (c1\<lparr>cn_protocol := reset (cn_protocol c1)\<rparr>)
                else Done (Inl e) c1
            | Inr data \<Rightarrow>
                (case feed data (cn_protocol c1) of
                   (Inl e, p) \<Rightarrow> Done (Inl e) (c1\<lparr>cn_protocol := p\<rparr>)
                 | (Inr _, p) \<Rightarrow> Again command_to_send retries_left sent (c1\<lparr>cn_protocol := p\<rparr>)))
           (transport_receive T (Some timeout) c))"

definition process_step ::
  "'w transport \<Rightarrow> command \<Rightarrow> nat option \<Rightarrow> command option \<Rightarrow> nat \<Rightarrow> bool \<Rightarrow>
   'w connection \<Rightarrow> 'w turn option" where
  "process_step T command given_timeout command_to_send retries_left sent c =
     (let (event, p) = next_event (cn_protocol c); c1 = c\<lparr>cn_protocol := p\<rparr> in
      case event of
        Inl e \<Rightarrow> Some (Done (Inl e) c1)
      | Inr None \<Rightarrow> send_turn T command retries_left sent c1
      | Inr (Some NeedMoreData) \<Rightarrow> receive_turn T given_timeout command_to_send retries_left sent c1
      | Inr (Some (ResponseEvent r)) \<Rightarrow>
          (case get_payload_or_raise_exception r of
             Inl e \<Rightarrow> Some (Done (Inl e) c1)
           | Inr payload \<Rightarrow>
               Some (if sent then Done (Inr payload) c1 else Again command_to_send retries_left sent c1))
      | Inr (Some (ExcessData _)) \<Rightarrow>
          Some (retry_or_raise ExcessDataError command_to_send retries_left sent (c1\<lparr>cn_protocol := reset p\<rparr>))
      | Inr (Some _) \<Rightarrow> Some (Done (Inl (RuntimeError ''unexpected event'')) c1))"

partial_function (option) process_loop ::
  "'w transport \<Rightarrow> command \<Rightarrow> nat option \<Rightarrow> command option \<Rightarrow> nat \<Rightarrow> bool \<Rightarrow>
   ('w connection, bytes) eff" where
  "process_loop T command given_timeout command_to_send retries_left sent c =
     Option.bind (process_step T command given_timeout command_to_send retries_left sent c)
       (\<lambda>turn. case turn of
          Done r c1 \<Rightarrow> Some (r, c1)
        | Again command_to_send1 retries_left1 sent1 c1 \<Rightarrow>
            process_loop T command given_timeout command_to_send1 retries_left1 sent1 c1)"

definition process_command_inner ::
  "'w transport \<Rightarrow> nat \<Rightarrow> nat option \<Rightarrow> command \<Rightarrow> ('w connection, bytes) eff" where
  "process_command_inner T max_retries timeout command =
     process_loop T command timeout None max_retries False"

definition process_command :: "'w transport \<Rightarrow> nat \<Rightarrow> command \<Rightarrow> ('w connection, bytes) eff" where
  "process_command T max_retries command =
     with_lock (process_command_inner T max_retries None command)"

text \<open>The default number of retries.\<close>

definition default_max_retries :: nat where
  "default_max_retries = 10"

section \<open>Bootloader operations\<close>

definition get_device_info :: "'w transport \<Rightarrow> device_info_item \<Rightarrow> ('w connection, int) eff" where
  "get_device_info T item =
     eff_bind (process_command T default_max_retries (Command_get_device_info item))
       (\<lambda>response. eff_return (from_bytes_le response))"

definition get_board_id :: "'w transport \<Rightarrow> ('w connection, int) eff" where
  "get_board_id T = get_device_info T BOARD_ID"

definition get_board_revision :: "'w transport \<Rightarrow> ('w connection, int) eff" where
  "get_board_revision T = get_device_info T BOARD_REV"

definition get_bootloader_revision :: "'w transport \<Rightarrow> ('w connection, int) eff" where
  "get_bootloader_revision T = get_device_info T BL_REV"

definition get_flash_memory_size :: "'w transport \<Rightarrow> ('w connection, int) eff" where
  "get_flash_memory_size T = get_device_info T FLASH_SIZE"

definition get_chip_description :: "'w transport \<Rightarrow> ('w connection, bytes) eff" where
  "get_chip_description T = process_command T default_max_retries Command_get_chip_description"

definition erase_flash_memory :: "'w transport \<Rightarrow> ('w connection, unit) eff" where
  "erase_flash_memory T =
     eff_bind (process_command T default_max_retries Command_erase_flash_memory) (\<lambda>_. eff_return ())"

definition get_flash_memory_crc :: "'w transport \<Rightarrow> ('w connection, int) eff" where
  "get_flash_memory_crc T =
     eff_bind (process_command T default_max_retries Command_get_crc) (\<lambda>crc. eff_return (from_bytes_le crc))"

definition get_write_pointer :: "'w transport \<Rightarrow> ('w connection, int) eff" where
  "get_write_pointer T =
     eff_bind (process_command T default_max_retries Command_get_write_pointer)
       (\<lambda>write_ptr. eff_return (from_bytes_le write_ptr))"

definition program_bytes :: "'w transport \<Rightarrow> bytes \<Rightarrow> ('w connection, unit) eff" where
  "program_bytes T data =
     eff_bind (eff_result (Command_program_bytes data)) (\<lambda>command.
       eff_bind (process_command T 0 command) (\<lambda>_. eff_return ()))"

text \<open>\<open>get_serial_number\<close>: the loop over the remaining addresses of \<open>range(0, 12, 4)\<close>.\<close>

fun read_serial_words :: "'w transport \<Rightarrow> int list \<Rightarrow> bytes \<Rightarrow> ('w connection, bytes) eff" where
  "read_serial_words T [] res = eff_return res"
| "read_serial_words T (address # addresses) res =
     eff_bind (eff_result (Command_read_word_from_serial_number_area address)) (\<lambda>command.
       eff_bind (process_command T default_max_retries command) (\<lambda>word.
         read_serial_words T addresses (res @ rev word)))"

definition get_serial_number :: "'w transport \<Rightarrow> ('w connection, bytes) eff" where
  "get_serial_number T = read_serial_words T [0, 4, 8] []"

definition send_bootloader_reboot_command :: "'w transport \<Rightarrow> ('w connection, unit) eff" where
  "send_bootloader_reboot_command T =
     eff_bind (process_command T default_max_retries Command_reboot) (\<lambda>_. eff_return ())"

section \<open>MAVLink operations\<close>

definition get_mavlink :: "('w connection, mavlink) eff" where
  "get_mavlink c =
     (case cn_mavlink c of
        Some mv \<Rightarrow> Some (Inr mv, c)
      | None \<Rightarrow> let mv = MAVLink (cn_system_id c) 190 in Some (Inr mv, c\<lparr>cn_mavlink := Some mv\<rparr>))"

definition send_mavlink_message ::
  "'w transport \<Rightarrow> (bytes \<Rightarrow> bytes) \<Rightarrow> mav_body \<Rightarrow> ('w connection, unit) eff" where
  "send_mavlink_message T sha256 body =
     (let message = MAVLinkMessage body; force_mavlink1 = (get_msg_id message < 256) in
      eff_bind get_mavlink (\<lambda>mv.
        (case encode sha256 force_mavlink1 message mv of
           (Inl e, _, mv1) \<Rightarrow> eff_bind (eff_modify (\<lambda>c. c\<lparr>cn_mavlink := Some mv1\<rparr>)) (\<lambda>_. eff_raise e)
         | (Inr data, _, mv1) \<Rightarrow>
             eff_bind (eff_modify (\<lambda>c. c\<lparr>cn_mavlink := Some mv1\<rparr>)) (\<lambda>_. transport_send T data))))"

text \<open>The pre-generated packet that reboots PX4 and ArduPilot firmwares into the bootloader.\<close>

definition reboot_to_bootloader_packet :: bytes where
  "reboot_to_bootloader_packet =
     [0xfe, 0x21, 0x45, 0xff, 0x00, 0x4c, 0x00, 0x00, 0x40, 0x40, 0x00, 0x00, 0x00, 0x00, 0x00, 0x00, 0x00,
      0x00, 0x00, 0x00, 0x00, 0x00, 0x00, 0x00, 0x00, 0x00, 0x00, 0x00, 0x00, 0x00, 0x00, 0x00, 0x00, 0x00,
      0xf6, 0x00, 0x00, 0x00, 0x00, 0xcc, 0x37]"

definition send_mavlink_reboot_command ::
  "'w transport \<Rightarrow> (bytes \<Rightarrow> bytes) \<Rightarrow> bool \<Rightarrow> ('w connection, unit) eff" where
  "send_mavlink_reboot_command T sha256 to_bootloader =
     (if to_bootloader then transport_send T reboot_to_bootloader_packet
      else send_mavlink_message T sha256
        (MAVLinkCommandLongMessage 0 1 MAV_CMD_PREFLIGHT_REBOOT_SHUTDOWN 1
           (float32_of_int (if to_bootloader then 3 else 1)) 0 0 0 0 0 0))"

definition reboot :: "'w transport \<Rightarrow> (bytes \<Rightarrow> bytes) \<Rightarrow> bool \<Rightarrow> ('w connection, unit) eff" where
  "reboot T sha256 to_bootloader =
     eff_bind (eff_get cn_mode) (\<lambda>mode.
       case mode of
         ModeMavlink \<Rightarrow> send_mavlink_reboot_command T sha256 to_bootloader
       | ModeBootloader \<Rightarrow>
           if to_bootloader then eff_raise (RuntimeError ''cannot reboot to bootloader when already in bootloader'')
           else send_bootloader_reboot_command T
       | ModeUnknown \<Rightarrow> eff_raise (RuntimeError ''unknown mode, cannot reboot''))"

definition flash_bootloader :: "'w transport \<Rightarrow> (bytes \<Rightarrow> bytes) \<Rightarrow> ('w connection, unit) eff" where
  "flash_bootloader T sha256 =
     send_mavlink_message T sha256
       (MAVLinkCommandLongMessage 0 1 MAV_CMD_FLASH_BOOTLOADER 0 0 0 0 0 (float32_of_int 290876) 0 0)"

definition reset_to_factory_defaults :: "'w transport \<Rightarrow> (bytes \<Rightarrow> bytes) \<Rightarrow> ('w connection, unit) eff" where
  "reset_to_factory_defaults T sha256 =
     send_mavlink_message T sha256 (MAVLinkParamSetMessage 0 1 (map of_char ''FORMAT_VERSION'') 0 0)"

text \<open>\<open>_wait_for_heartbeat\<close> under the timeout of its caller's \<open>fail_after\<close>.\<close>

partial_function (option) wait_for_heartbeat ::
  "'w transport \<Rightarrow> (bytes \<Rightarrow> bytes) \<Rightarrow> nat \<Rightarrow> mavlink \<Rightarrow> ('w connection, mav_message) eff" where
  "wait_for_heartbeat T sha256 timeout mv c =
     Option.bind (transport_receive T (Some timeout) c) (\<lambda>(r, c1).
       case r of
         Inl e \<Rightarrow> Some (Inl e, c1)
       | Inr data \<Rightarrow>
           (case parse_buffer sha256 data mv of
              (Inl e, mv1) \<Rightarrow> Some (Inl e, c1\<lparr>cn_mavlink := Some mv1\<rparr>)
            | (Inr ms, mv1) \<Rightarrow>
                (case find is_heartbeat (case ms of Some l \<Rightarrow> l | None \<Rightarrow> []) of
                   Some message \<Rightarrow> Some (Inr message, c1\<lparr>cn_mavlink := Some mv1\<rparr>)
                 | None \<Rightarrow> wait_for_heartbeat T sha256 timeout mv1 (c1\<lparr>cn_mavlink := Some mv1\<rparr>))))"

section \<open>Switching modes\<close>

definition retriable :: "exn \<Rightarrow> bool" where
  "retriable e \<longleftrightarrow> e = TimeoutError \<or> e = ExcessDataError"

text \<open>The callback \<open>on_rebooted\<close> acts on the caller's part of the world.\<close>

definition call_back :: "('w \<Rightarrow> 'w) option \<Rightarrow> ('w connection, unit) eff" where
  "call_back on_rebooted =
     (case on_rebooted of
        None \<Rightarrow> eff_return ()
      | Some f \<Rightarrow> eff_modify (\<lambda>c. c\<lparr>cn_world := f (cn_world c)\<rparr>))"

definition ensure_in_bootloader ::
  "'w transport \<Rightarrow> (bytes \<Rightarrow> bytes) \<Rightarrow> ('w \<Rightarrow> 'w) option \<Rightarrow> ('w connection, unit) eff" where
  "ensure_in_bootloader T sha256 on_rebooted =
     eff_bind
       (with_lock
         (eff_catch
           (eff_bind (process_command_inner T 1 (Some 50) (Command_get_device_info BOARD_ID)) (\<lambda>_. eff_return ()))
           (\<lambda>e. if retriable e then
                  eff_bind (send_mavlink_reboot_command T sha256 True) (\<lambda>_.
                    eff_bind (call_back on_rebooted) (\<lambda>_.
                      eff_bind (process_command_inner T 5 (Some 500) (Command_get_device_info BOARD_ID))
                        (\<lambda>_. eff_return ())))
                else eff_raise e)))
       (\<lambda>_. eff_modify (\<lambda>c. c\<lparr>cn_mode := ModeBootloader\<rparr>))"

definition ensure_in_mavlink ::
  "'w transport \<Rightarrow> (bytes \<Rightarrow> bytes) \<Rightarrow> nat \<Rightarrow> ('w \<Rightarrow> 'w) option \<Rightarrow> ('w connection, unit) eff" where
  "ensure_in_mavlink T sha256 timeout on_rebooted =
     eff_bind
       (with_lock
         (eff_catch
           (eff_bind get_mavlink (\<lambda>mv. eff_bind (wait_for_heartbeat T sha256 timeout mv) (\<lambda>_. eff_return ())))
           (\<lambda>e. if retriable e then
                  eff_bind (send_bootloader_reboot_command T) (\<lambda>_. call_back on_rebooted)
                else eff_raise e)))
       (\<lambda>_. eff_modify (\<lambda>c. c\<lparr>cn_mode := ModeMavlink\<rparr>))"

end
