(* ===== verification/Connection_Loop.thy ===== *)
theory Connection_Loop
  imports Connection Mock_Reader
begin

text \<open>
  What the command loop guarantees on any transport: which exceptions it cannot raise, how
  often it may put a command on the wire, and that it returns whenever the transport does.
\<close>

section \<open>One poll of the protocol machine\<close>

definition waiting :: "protocol \<Rightarrow> bool" where
  "waiting p \<longleftrightarrow> pr_state p \<in> {PS_WAIT_RESPONSE_LENGTH, PS_WAIT_RESPONSE, PS_WAIT_SYNC}"

text \<open>A bound on the bytes that a waiting machine still accepts before it reports something.\<close>

definition needed :: "protocol \<Rightarrow> nat" where
  "needed p =
     (if pr_state p = PS_WAIT_RESPONSE_LENGTH then 2 ^ 32 + 6 - length (pr_buffer p)
      else if pr_state p = PS_WAIT_RESPONSE then nat (pr_bytes_expected p) + 2 - length (pr_buffer p)
      else 2 - length (pr_buffer p))"

lemma not_in_sync_waiting: "waiting p \<Longrightarrow> \<not> in_sync p"
  by (auto simp: waiting_def in_sync_def)

lemma waiting_start: "waiting (start_waiting_for_response n p)" "waiting (start_waiting_for_sync p)"
  by (simp_all add: waiting_def protocol_op_defs)

definition poll_result :: "protocol \<Rightarrow> event option result \<Rightarrow> protocol \<Rightarrow> bool" where
  "poll_result p r p' \<longleftrightarrow>
     r = Inr (Some ConnectionClosed) \<or>
     (r = Inr None \<and> p' = p \<and> \<not> waiting p) \<or>
     ((\<exists>d. r = Inr (Some (ExcessData d))) \<and> (\<not> waiting p \<longrightarrow> pr_state p' = pr_state p)) \<or>
     (r = Inr (Some NeedMoreData) \<and> waiting p \<and> waiting p' \<and> needed p' \<le> needed p \<and> 0 < needed p') \<or>
     ((\<exists>x. r = Inr (Some (ResponseEvent x))) \<and> waiting p \<and> in_sync p')"

lemma next_event_sync_result:
  assumes "next_event_sync p = (r, p')" "waiting p \<longrightarrow> pr_state p = PS_WAIT_SYNC" "protocol_inv p"
  shows "poll_result p r p'"
  using assms(1)
proof (cases rule: next_event_sync_cases)
  case assert
  with assms(3) show ?thesis by (simp add: protocol_inv_def)
next
  case (excess n d)
  then show ?thesis using purge_state [OF excess(1)] by (auto simp: poll_result_def)
next
  case none
  with assms(2) show ?thesis by (auto simp: poll_result_def)
qed (auto simp: poll_result_def waiting_def needed_def in_sync_def move_to_in_sync_state_def)

lemma next_event_response_result:
  assumes "next_event_response p = (r, p')" "pr_state p \<noteq> PS_WAIT_RESPONSE_LENGTH" "protocol_inv p"
  shows "poll_result p r p'"
proof (cases "pr_state p = PS_WAIT_RESPONSE")
  case True
  with assms(3) have pos: "pr_bytes_expected p > 0" by (simp add: protocol_inv_def)
  show ?thesis
  proof (cases "int (length (pr_buffer p)) < pr_bytes_expected p")
    case short: True
    with True pos assms(1) have "r = Inr (Some NeedMoreData)" "p' = p"
      by (simp_all add: next_event_response_def)
    with True short show ?thesis by (simp add: poll_result_def waiting_def needed_def)
  next
    case False
    let ?q = "start_waiting_for_sync
          (p\<lparr>pr_buffer := drop (nat (pr_bytes_expected p)) (pr_buffer p),
             pr_payload := take (nat (pr_bytes_expected p)) (pr_buffer p)\<rparr>)"
    from True pos False assms(1) have "next_event_sync ?q = (r, p')" by (simp add: next_event_response_def)
    then have "poll_result ?q r p'"
      by (rule next_event_sync_result) (simp_all add: start_waiting_for_sync_def protocol_inv_def)
    moreover have "waiting p" "waiting ?q" using True by (simp_all add: waiting_def start_waiting_for_sync_def)
    moreover have "needed ?q \<le> needed p" using True pos False
      by (simp add: needed_def start_waiting_for_sync_def)
    ultimately show ?thesis by (auto simp: poll_result_def)
  qed
next
  case False
  with assms show ?thesis
    by (intro next_event_sync_result) (auto simp: next_event_response_def waiting_def)
qed

lemma next_event_result:
  assumes "next_event p = (r, p')" "protocol_inv p"
  shows "poll_result p r p'"
proof (cases "pr_buffer p = [] \<and> pr_buffer_closed p")
  case True
  with assms show ?thesis by (simp add: next_event_def poll_result_def)
next
  case more: False
  with assms(1) have ev: "next_event_length p = (r, p')" by (auto simp: next_event_def)
  show ?thesis
  proof (cases "pr_state p = PS_WAIT_RESPONSE_LENGTH")
    case True
    with assms(2) have four: "pr_bytes_expected p = 4" by (simp add: protocol_inv_def)
    show ?thesis
    proof (cases "length (pr_buffer p) < 4")
      case short: True
      with True four ev have "r = Inr (Some NeedMoreData)" "p' = p"
        by (simp_all add: next_event_length_def)
      with True short show ?thesis by (simp add: poll_result_def waiting_def needed_def)
    next
      case False
      let ?n = "from_bytes_le (take 4 (pr_buffer p))"
      let ?q = "start_waiting_for_response ?n (p\<lparr>pr_buffer := drop 4 (pr_buffer p)\<rparr>)"
      from True four False ev have "next_event_response ?q = (r, p')" by (simp add: next_event_length_def)
      moreover have n: "0 \<le> ?n" by simp
      then have "pr_state ?q \<noteq> PS_WAIT_RESPONSE_LENGTH" by (simp add: protocol_op_defs not_less)
      ultimately have "poll_result ?q r p'" by (intro next_event_response_result protocol_inv_start_response)
      moreover have "waiting p" "waiting ?q" using True waiting_start(1) by (auto simp: waiting_def)
      moreover have "needed ?q \<le> needed p"
      proof -
        have "length (take 4 (pr_buffer p)) = 4" using False by simp
        then have "?n < 2 ^ 32" using from_bytes_le_less [of "take 4 (pr_buffer p)"] by simp
        then have "nat ?n < 2 ^ 32" by simp
        with True False show ?thesis by (auto simp: needed_def protocol_op_defs leD [OF n])
      qed
      ultimately show ?thesis by (auto simp: poll_result_def)
    qed
  next
    case False
    with ev assms(2) show ?thesis
      by (intro next_event_response_result) (simp_all add: next_event_length_def)
  qed
qed

lemma next_event_cases [consumes 2, case_names closed none excess need response]:
  assumes "next_event p = (r, p')" "protocol_inv p"
  obtains "r = Inr (Some ConnectionClosed)"
  | "r = Inr None" "p' = p" "\<not> waiting p"
  | d where "r = Inr (Some (ExcessData d))" "\<not> waiting p \<longrightarrow> pr_state p' = pr_state p"
  | "r = Inr (Some NeedMoreData)" "waiting p" "waiting p'" "needed p' \<le> needed p" "0 < needed p'"
  | x where "r = Inr (Some (ResponseEvent x))" "waiting p" "in_sync p'"
proof -
  from next_event_result [OF assms] show thesis
    unfolding poll_result_def by (elim disjE conjE exE) (auto intro: that)
qed

section \<open>Induction over the loop\<close>

lemma process_loop_invariant:
  fixes T :: "'w transport"
  assumes run: "process_loop T command tmo cts rl sent c = Some (r, c')" and init: "I cts rl sent c"
    and again: "\<And>cts rl sent c cts1 rl1 sent1 c1. I cts rl sent c \<Longrightarrow>
      process_step T command tmo cts rl sent c = Some (Again cts1 rl1 sent1 c1) \<Longrightarrow> I cts1 rl1 sent1 c1"
    and fin: "\<And>cts rl sent c r c'. I cts rl sent c \<Longrightarrow>
      process_step T command tmo cts rl sent c = Some (Done r c') \<Longrightarrow> Q r c'"
  shows "Q r c'"
proof -
  have "T = T \<and> command = command \<and> tmo = tmo \<and> I cts rl sent c \<longrightarrow> Q (fst (r, c')) (snd (r, c'))"
  proof (rule process_loop.raw_induct [OF _ run, where P =
      "\<lambda>T' command' tmo' cts rl sent c rc. T' = T \<and> command' = command \<and> tmo' = tmo \<and> I cts rl sent c
         \<longrightarrow> Q (fst rc) (snd rc)"])
    fix f :: "'w transport \<Rightarrow> command \<Rightarrow> nat option \<Rightarrow> command option \<Rightarrow> nat \<Rightarrow> bool \<Rightarrow> 'w connection
        \<Rightarrow> (bytes result \<times> 'w connection) option"
      and T' :: "'w transport" and command' tmo' cts rl sent c and rc :: "bytes result \<times> 'w connection"
    assume IH: "\<And>T' command' tmo' cts rl sent c rc. f T' command' tmo' cts rl sent c = Some rc \<Longrightarrow>
        T' = T \<and> command' = command \<and> tmo' = tmo \<and> I cts rl sent c \<longrightarrow> Q (fst rc) (snd rc)"
      and step: "Option.bind (process_step T' command' tmo' cts rl sent c)
          (\<lambda>turn. case turn of Done r c1 \<Rightarrow> Some (r, c1)
             | Again cts1 rl1 sent1 c1 \<Rightarrow> f T' command' tmo' cts1 rl1 sent1 c1) = Some rc"
    show "T' = T \<and> command' = command \<and> tmo' = tmo \<and> I cts rl sent c \<longrightarrow> Q (fst rc) (snd rc)"
    proof (intro impI, elim conjE)
      assume eq: "T' = T" "command' = command" "tmo' = tmo" and inv: "I cts rl sent c"
      from step eq obtain turn where turn: "process_step T command tmo cts rl sent c = Some turn"
        and rest: "(case turn of Done r c1 \<Rightarrow> Some (r, c1)
             | Again cts1 rl1 sent1 c1 \<Rightarrow> f T command tmo cts1 rl1 sent1 c1) = Some rc"
        by (auto simp: bind_eq_Some_conv)
      show "Q (fst rc) (snd rc)"
      proof (cases turn)
        case (Done r c1)
        with turn rest fin [OF inv] show ?thesis by auto
      next
        case (Again cts1 rl1 sent1 c1)
        with turn have "I cts1 rl1 sent1 c1" using again [OF inv] by simp
        with Again rest IH show ?thesis by auto
      qed
    qed
  qed
  with init show ?thesis by simp
qed

section \<open>What one turn can do\<close>

text \<open>The command that a turn sends: the caller's in sync, else \<open>GET_SYNC\<close>.\<close>

definition chosen :: "command \<Rightarrow> protocol \<Rightarrow> command" where
  "chosen command p = (if in_sync p then command else GET_SYNC)"

definition moved :: "'w connection \<Rightarrow> protocol \<Rightarrow> 'w \<Rightarrow> 'w connection" where
  "moved c p w = c\<lparr>cn_protocol := p, cn_world := w\<rparr>"

lemma moved_simps [simp]:
  "cn_protocol (moved c p w) = p" "cn_world (moved c p w) = w" "cn_lock (moved c p w) = cn_lock c"
  "cn_mode (moved c p w) = cn_mode c" "moved (moved c p w) p' w' = moved c p' w'"
  "(moved c p w)\<lparr>cn_protocol := q\<rparr> = moved c q w"
  by (simp_all add: moved_def)

lemma moved_folds:
  "c\<lparr>cn_world := w, cn_protocol := p\<rparr> = moved c p w" "c\<lparr>cn_protocol := p, cn_world := w\<rparr> = moved c p w"
  "c\<lparr>cn_world := w\<rparr> = moved c (cn_protocol c) w"
  by (simp_all add: moved_def)

lemma send_chosen:
  "send (CommandEvent (chosen command p)) p =
     (case command_to_bytes (chosen command p) of
        Inl e \<Rightarrow> (Inl e, p)
      | Inr raw \<Rightarrow> (Inr raw, start_waiting_for_response (response_length (chosen command p)) p))"
  by (auto simp: send_def chosen_def GET_SYNC_def Command_get_sync_def split: sum.splits)

lemma send_turn_cases [consumes 1, case_names invalid refused ok failed cancelled]:
  assumes "send_turn T command rl sent c = Some turn"
  obtains "in_sync (cn_protocol c)" sent "turn = Done (Inl (RuntimeError ''invalid state'')) c"
  | e where "command_to_bytes (chosen command (cn_protocol c)) = Inl e" "turn = Done (Inl e) c"
  | raw w where "\<not> (in_sync (cn_protocol c) \<and> sent)"
      "command_to_bytes (chosen command (cn_protocol c)) = Inr raw"
      "tr_send T raw (cn_world c) = Some (Inr (), w)"
      "turn = Again (Some (chosen command (cn_protocol c))) rl (in_sync (cn_protocol c))
         (moved c (start_waiting_for_response (response_length (chosen command (cn_protocol c))) (cn_protocol c)) w)"
  | raw w e where "\<not> (in_sync (cn_protocol c) \<and> sent)"
      "command_to_bytes (chosen command (cn_protocol c)) = Inr raw"
      "tr_send T raw (cn_world c) = Some (Inl e, w)" "e \<noteq> Cancelled"
      "turn = retry_or_raise e (Some (chosen command (cn_protocol c))) rl False
         (moved c (send_failed (start_waiting_for_response (response_length (chosen command (cn_protocol c))) (cn_protocol c))) w)"
  | raw w where "\<not> (in_sync (cn_protocol c) \<and> sent)"
      "command_to_bytes (chosen command (cn_protocol c)) = Inr raw"
      "tr_send T raw (cn_world c) = Some (Inl Cancelled, w)"
      "turn = Done (Inl Cancelled)
         (moved c (start_waiting_for_response (response_length (chosen command (cn_protocol c))) (cn_protocol c)) w)"
proof -
  let ?p = "cn_protocol c" and ?x = "chosen command (cn_protocol c)"
  have run: "send_turn T command rl sent c =
     (if in_sync ?p \<and> sent then Some (Done (Inl (RuntimeError ''invalid state'')) c)
      else (case send (CommandEvent ?x) ?p of
          (Inl e, p) \<Rightarrow> Some (Done (Inl e) (c\<lparr>cn_protocol := p\<rparr>))
        | (Inr raw_bytes, p) \<Rightarrow>
            map_option
              (\<lambda>(r, c1). case r of
                 Inl e \<Rightarrow>
                   if e = Cancelled then Done (Inl e) c1
                   else retry_or_raise e (Some ?x) rl False (c1\<lparr>cn_protocol := send_failed (cn_protocol c1)\<rparr>)
               | Inr _ \<Rightarrow> Again (Some ?x) rl (in_sync ?p) c1)
              (transport_send T raw_bytes (c\<lparr>cn_protocol := p\<rparr>))))"
    by (simp only: send_turn_def Let_def chosen_def)
  show thesis
  proof (cases "in_sync ?p \<and> sent")
    case True
    with assms run show ?thesis by (intro that(1)) auto
  next
    case False
    show ?thesis
    proof (cases "command_to_bytes ?x")
      case (Inl e)
      with False assms run show ?thesis by (intro that(2)) (auto simp: send_chosen)
    next
      case (Inr raw)
      with False assms run obtain r w where w: "tr_send T raw (cn_world c) = Some (r, w)"
        by (auto simp: send_chosen transport_send_def)
      show ?thesis
      proof (cases r)
        case (Inl e)
        with w Inr False assms run show ?thesis
          by (cases "e = Cancelled")
             (auto simp: send_chosen transport_send_def moved_folds(1,2) intro: that(4,5))
      next
        case (Inr u)
        with w \<open>command_to_bytes ?x = Inr raw\<close> False assms run show ?thesis
          by (intro that(3)) (auto simp: send_chosen transport_send_def moved_folds(1,2))
      qed
    qed
  qed
qed

lemma receive_turn_cases [consumes 1, case_names timeout failed closed fed]:
  assumes "receive_turn T tmo cts rl sent c = Some turn"
  obtains t w where "tr_receive T (Some t) (cn_world c) = Some (Inl TimeoutError, w)"
      "turn = retry_or_raise TimeoutError cts rl sent (moved c (reset (cn_protocol c)) w)"
  | t e w where "tr_receive T (Some t) (cn_world c) = Some (Inl e, w)" "e \<noteq> TimeoutError"
      "turn = Done (Inl e) (moved c (cn_protocol c) w)"
  | t data w where "tr_receive T (Some t) (cn_world c) = Some (Inr data, w)"
      "turn = Done (Inl (RuntimeError ''receiver closed'')) (moved c (cn_protocol c) w)"
  | t data p w where "tr_receive T (Some t) (cn_world c) = Some (Inr data, w)"
      "feed data (cn_protocol c) = (Inr (), p)" "turn = Again cts rl sent (moved c p w)"
proof -
  let ?t = "case tmo of Some t \<Rightarrow> t | None \<Rightarrow> (case cts of Some x \<Rightarrow> suggested_timeout x | None \<Rightarrow> 1000)"
  from assms obtain r w where w: "tr_receive T (Some ?t) (cn_world c) = Some (r, w)"
    by (auto simp: receive_turn_def transport_receive_def Let_def)
  show thesis
  proof (cases r)
    case (Inl e)
    with w assms show ?thesis
      by (cases "e = TimeoutError")
         (auto simp: receive_turn_def transport_receive_def moved_folds(1,3) Let_def intro: that(1,2))
  next
    case (Inr data)
    obtain r2 p where f: "feed data (cn_protocol c) = (r2, p)" by fastforce
    show ?thesis
    proof (cases r2)
      case (Inl e)
      with f have "e = RuntimeError ''receiver closed''" "p = cn_protocol c"
        by (auto simp: feed_def split: if_splits)
      with Inl f w Inr assms show ?thesis
        by (intro that(3)) (auto simp: receive_turn_def transport_receive_def moved_folds(1,3) Let_def)
    next
      case (Inr u)
      with f w \<open>r = Inr data\<close> assms show ?thesis
        by (intro that(4)) (auto simp: receive_turn_def transport_receive_def moved_folds(1,3) Let_def)
    qed
  qed
qed

text \<open>The four ways a turn of the loop goes, by the event that the protocol machine reports.\<close>

lemma process_step_cases [consumes 2, case_names closed excess response send receive]:
  assumes "process_step T command tmo cts rl sent c = Some turn" "protocol_inv (cn_protocol c)"
  obtains c1 where "turn = Done (Inl (RuntimeError ''unexpected event'')) c1" "cn_world c1 = cn_world c"
  | p where "turn = retry_or_raise ExcessDataError cts rl sent (moved c (reset p) (cn_world c))"
      "\<not> waiting (cn_protocol c) \<longrightarrow> pr_state p = pr_state (cn_protocol c)"
  | r p where "turn = (case get_payload_or_raise_exception r of
        Inl e \<Rightarrow> Done (Inl e) (moved c p (cn_world c))
      | Inr payload \<Rightarrow> if sent then Done (Inr payload) (moved c p (cn_world c))
          else Again cts rl sent (moved c p (cn_world c)))"
      "waiting (cn_protocol c)" "in_sync p" "protocol_inv p"
  | "send_turn T command rl sent c = Some turn" "\<not> waiting (cn_protocol c)"
  | p where "receive_turn T tmo cts rl sent (moved c p (cn_world c)) = Some turn"
      "waiting (cn_protocol c)" "waiting p" "needed p \<le> needed (cn_protocol c)" "0 < needed p" "protocol_inv p"
proof -
  obtain r p where ev: "next_event (cn_protocol c) = (r, p)" by fastforce
  have inv: "protocol_inv p" using next_event_inv [OF assms(2) ev] by simp
  have c1: "c\<lparr>cn_protocol := p\<rparr> = moved c p (cn_world c)" by (simp add: moved_def)
  note step = assms(1) [unfolded process_step_def ev Let_def prod.case c1]
  from ev assms(2) show thesis
  proof (cases rule: next_event_cases)
    case closed
    with step show ?thesis by (intro that(1) [of "moved c p (cn_world c)"]) auto
  next
    case none
    have "moved c p (cn_world c) = c" using none(2) by (simp add: moved_def)
    with none step show ?thesis by (intro that(4)) auto
  next
    case (excess d)
    with step show ?thesis by (intro that(2)) auto
  next
    case need
    with step inv show ?thesis by (intro that(5)) auto
  next
    case (response x)
    with step inv show ?thesis
      by (intro that(3) [where r = x and p = p]) (auto split: sum.splits)
  qed
qed

lemma reset_facts: "\<not> in_sync (reset p)" "\<not> waiting (reset p)" "protocol_inv (reset p)"
  by (simp_all add: reset_def in_sync_def waiting_def protocol_inv_def)

lemma send_failed_facts: "\<not> in_sync (send_failed p)" "\<not> waiting (send_failed p)" "protocol_inv (send_failed p)"
  by (simp_all add: send_failed_def in_sync_def waiting_def protocol_inv_def)

lemma start_facts: "\<not> in_sync (start_waiting_for_response n p)" "waiting (start_waiting_for_response n p)"
    "protocol_inv (start_waiting_for_response n p)"
  by (simp_all add: not_in_sync_waiting waiting_start protocol_inv_start_response)

lemma feed_facts:
  assumes "feed data p = (Inr (), q)"
  shows "pr_state q = pr_state p" "in_sync q = in_sync p" "waiting q = waiting p"
    "protocol_inv p \<Longrightarrow> protocol_inv q" "data \<noteq> [] \<Longrightarrow> 0 < needed p \<Longrightarrow> needed q < needed p"
  using assms protocol_inv_feed [of p data]
  by (auto simp: feed_def in_sync_def waiting_def needed_def split: if_splits intro!: diff_less_mono2)

lemma retry_simps [simp]:
  "retry_or_raise e x n b c = Done r c' \<longleftrightarrow> n = 0 \<and> r = Inl e \<and> c' = c"
  "retry_or_raise e x n b c = Again x' n' b' c' \<longleftrightarrow> 0 < n \<and> x' = x \<and> n' = n - 1 \<and> b' = b \<and> c' = c"
  "Done r c' = retry_or_raise e x n b c \<longleftrightarrow> n = 0 \<and> r = Inl e \<and> c' = c"
  "Again x' n' b' c' = retry_or_raise e x n b c \<longleftrightarrow> 0 < n \<and> x' = x \<and> n' = n - 1 \<and> b' = b \<and> c' = c"
  by (auto simp: retry_or_raise_def)

section \<open>The sync discipline\<close>

text \<open>While the command is out, the machine is not in sync; and the invariant of the machine holds.\<close>

definition loop_inv :: "bool \<Rightarrow> 'w connection \<Rightarrow> bool" where
  "loop_inv sent c \<longleftrightarrow> protocol_inv (cn_protocol c) \<and> (sent \<longrightarrow> \<not> in_sync (cn_protocol c))"

lemma loop_inv_again:
  assumes "process_step T command tmo cts rl sent c = Some (Again cts1 rl1 sent1 c1)" "loop_inv sent c"
  shows "loop_inv sent1 c1"
proof -
  from assms(2) have inv: "protocol_inv (cn_protocol c)" by (simp add: loop_inv_def)
  from assms(1) inv show ?thesis
  proof (cases rule: process_step_cases)
    case send
    then show ?thesis
      by (cases rule: send_turn_cases) (auto simp: loop_inv_def start_facts send_failed_facts)
  next
    case (receive p)
    then show ?thesis
      by (cases rule: receive_turn_cases)
         (auto simp: loop_inv_def reset_facts feed_facts not_in_sync_waiting dest: feed_facts(4))
  qed (auto simp: loop_inv_def reset_facts split: sum.splits if_splits)
qed

text \<open>An exception of a command that cannot be encoded.\<close>

lemma command_to_bytes_error: "command_to_bytes x = Inl e \<Longrightarrow> e = RuntimeError ''arguments too long''"
  by (auto simp: command_to_bytes_def split: if_splits)

lemma payload_error: "get_payload_or_raise_exception r = Inl e \<Longrightarrow>
  e \<in> RuntimeError ` {''bad silicon revision'', ''invalid operation'', ''operation failed''}"
  by (auto simp: get_payload_or_raise_exception_def split: if_splits)

text \<open>The exceptions that an operation of the transport can raise.\<close>

definition raised_by_transport :: "'w transport \<Rightarrow> exn \<Rightarrow> bool" where
  "raised_by_transport T e \<longleftrightarrow>
     (\<exists>data w w'. tr_send T data w = Some (Inl e, w')) \<or> (\<exists>t w w'. tr_receive T t w = Some (Inl e, w'))"

definition loop_errors :: "exn set" where
  "loop_errors = {ExcessDataError, RuntimeError ''unexpected event'', RuntimeError ''receiver closed'',
     RuntimeError ''arguments too long'', RuntimeError ''bad silicon revision'',
     RuntimeError ''invalid operation'', RuntimeError ''operation failed''}"

lemma loop_error:
  assumes "process_step T command tmo cts rl sent c = Some (Done (Inl e) c1)" "loop_inv sent c"
  shows "e \<in> loop_errors \<or> raised_by_transport T e"
proof -
  from assms(2) have inv: "protocol_inv (cn_protocol c)" by (simp add: loop_inv_def)
  from assms(1) inv show ?thesis
  proof (cases rule: process_step_cases)
    case send
    then show ?thesis using assms(2)
      by (cases rule: send_turn_cases)
         (auto simp: loop_inv_def loop_errors_def raised_by_transport_def dest: command_to_bytes_error)
  next
    case (receive p)
    then show ?thesis
      by (cases rule: receive_turn_cases) (auto simp: loop_errors_def raised_by_transport_def)
  qed (auto simp: loop_errors_def split: sum.splits if_splits dest: payload_error)
qed

section \<open>How often the command is sent\<close>

text \<open>A transport with a log of what was handed to \<open>send\<close>.\<close>

locale send_log =
  fixes T :: "'w transport" and sends :: "'w \<Rightarrow> bytes list"
  assumes send_logged: "tr_send T data w = Some (r, w') \<Longrightarrow> sends w' = sends w @ [data]"
    and receive_logged: "tr_receive T t w = Some (r', w') \<Longrightarrow> sends w' = sends w"
begin

definition copies :: "nat \<Rightarrow> bytes \<Rightarrow> 'w \<Rightarrow> nat" where
  "copies n raw w = count_list (drop n (sends w)) raw"

text \<open>The budget: one copy, and one more for every retry that is gone.\<close>

definition budget :: "nat \<Rightarrow> bytes \<Rightarrow> nat \<Rightarrow> nat \<Rightarrow> bool \<Rightarrow> 'w connection \<Rightarrow> bool" where
  "budget n raw max_retries rl sent c \<longleftrightarrow> loop_inv sent c \<and> n \<le> length (sends (cn_world c)) \<and> rl \<le> max_retries \<and>
     copies n raw (cn_world c) \<le> max_retries - rl + (if sent \<and> waiting (cn_protocol c) then 1 else 0)"

lemma copies_send:
  assumes "tr_send T data w = Some (r, w')" "n \<le> length (sends w)"
  shows "copies n raw w' = copies n raw w + (if data = raw then 1 else 0)" "n \<le> length (sends w')"
  using send_logged [OF assms(1)] assms(2) by (simp_all add: copies_def)

lemma copies_receive:
  assumes "tr_receive T t w = Some (r, w')"
  shows "copies n raw w' = copies n raw w" "sends w' = sends w"
  using receive_logged [OF assms] by (simp_all add: copies_def)

lemma budget_again:
  assumes "process_step T command tmo cts rl sent c = Some (Again cts1 rl1 sent1 c1)" "budget n raw k rl sent c"
    and raw: "command_to_bytes command = Inr raw" "command_to_bytes GET_SYNC \<noteq> Inr raw"
  shows "budget n raw k rl1 sent1 c1"
proof -
  note b = assms(2) [unfolded budget_def]
  have inv: "protocol_inv (cn_protocol c)" using b by (simp add: loop_inv_def)
  have next_inv: "loop_inv sent1 c1" using loop_inv_again [OF assms(1)] b by simp
  from assms(1) inv show ?thesis
  proof (cases rule: process_step_cases)
    case send
    from send(1) show ?thesis
    proof (cases rule: send_turn_cases)
      case (ok raw1 w)
      have "raw1 = raw \<longleftrightarrow> in_sync (cn_protocol c)"
        using ok(2) raw by (auto simp: chosen_def split: if_splits)
      with ok b send(2) next_inv copies_send(1) [OF ok(3), of n raw] copies_send(2) [OF ok(3), of n] show ?thesis
        by (auto simp: budget_def start_facts)
    next
      case (failed raw1 w e)
      with b send(2) next_inv copies_send(1) [OF failed(3), of n raw] copies_send(2) [OF failed(3), of n] show ?thesis
        by (auto simp: budget_def send_failed_facts split: if_splits)
    qed simp_all
  next
    case (receive p)
    from receive(1) show ?thesis
    proof (cases rule: receive_turn_cases)
      case (timeout t w)
      with b next_inv receive copies_receive(1) [OF timeout(1) [simplified], of n raw] copies_receive(2) [OF timeout(1) [simplified]] show ?thesis
        by (auto simp: budget_def reset_facts split: if_splits)
    next
      case (fed t data q w)
      with b next_inv receive copies_receive(1) [OF fed(1) [simplified], of n raw] copies_receive(2) [OF fed(1) [simplified]] show ?thesis
        by (auto simp: budget_def feed_facts split: if_splits)
    qed simp_all
  next
    case (excess p)
    with b next_inv show ?thesis by (auto simp: budget_def reset_facts split: if_splits)
  next
    case (response r p)
    with b next_inv show ?thesis by (auto simp: budget_def split: sum.splits if_splits)
  qed simp_all
qed

lemma budget_done:
  assumes "process_step T command tmo cts rl sent c = Some (Done r c1)" "budget n raw k rl sent c"
  shows "copies n raw (cn_world c1) \<le> Suc k"
proof -
  note b = assms(2) [unfolded budget_def]
  have inv: "protocol_inv (cn_protocol c)" using b by (simp add: loop_inv_def)
  have base: "copies n raw (cn_world c) \<le> Suc k" using b by (auto split: if_splits)
  from assms(1) inv show ?thesis
  proof (cases rule: process_step_cases)
    case send
    from send(1) show ?thesis
    proof (cases rule: send_turn_cases)
      case (failed raw1 w e)
      with b send(2) copies_send(1) [OF failed(3), of n raw] copies_send(2) [OF failed(3), of n] show ?thesis by (auto split: if_splits)
    next
      case (cancelled raw1 w)
      with b send(2) copies_send(1) [OF cancelled(3), of n raw] copies_send(2) [OF cancelled(3), of n] show ?thesis
        by (auto split: if_splits)
    qed (use base in simp_all)
  next
    case (receive p)
    from receive(1) show ?thesis
      by (cases rule: receive_turn_cases) (use base in \<open>auto simp: copies_receive\<close>)
  next
    case (response r' p)
    with base show ?thesis by (auto split: sum.splits if_splits)
  qed (use base in auto)
qed

lemma command_copies_bounded:
  assumes "process_command_inner T k tmo command c = Some (r, c')" "protocol_inv (cn_protocol c)"
    and "command_to_bytes command = Inr raw" "command_to_bytes GET_SYNC \<noteq> Inr raw"
  shows "copies (length (sends (cn_world c))) raw (cn_world c') \<le> Suc k"
proof (rule process_loop_invariant [OF assms(1) [unfolded process_command_inner_def],
      where I = "\<lambda>_. budget (length (sends (cn_world c))) raw k"])
  show "budget (length (sends (cn_world c))) raw k k False c"
    using assms(2) by (simp add: budget_def loop_inv_def copies_def)
qed (use assms(3,4) in \<open>auto intro: budget_again budget_done\<close>)

end

text \<open>The in-memory transport logs its sends.\<close>

interpretation pipe_log: send_log InMemoryTransport snd
proof unfold_locales
  fix data :: bytes and w w' :: pipe and r
  assume "tr_send InMemoryTransport data w = Some (r, w')"
  then show "snd w' = snd w @ [data]" by (cases w) auto
next
  fix t and w w' :: pipe and r' :: "bytes result"
  assume "tr_receive InMemoryTransport t w = Some (r', w')"
  then show "snd w' = snd w" by (cases "(t, w)" rule: pipe_receive.cases) auto
qed

section \<open>The loop returns\<close>

text \<open>
  A transport that always returns: sending does, receiving under a timeout does, and it cannot
  deliver empty chunks for ever (\<open>backlog\<close> bounds how many in a row).
\<close>

locale live_transport =
  fixes T :: "'w transport" and backlog :: "'w \<Rightarrow> nat"
  assumes send_returns: "tr_send T data w \<noteq> None"
    and receive_returns: "tr_receive T (Some t) w \<noteq> None"
    and receive_empty: "tr_receive T t' w = Some (Inr [], w') \<Longrightarrow> backlog w' < backlog w"
begin

definition stage :: "bool \<Rightarrow> protocol \<Rightarrow> nat" where
  "stage sent p = (if waiting p then (if sent then 1 else 3) else if in_sync p then 2 else 4)"

definition loop_order :: "((nat \<times> bool \<times> 'w connection) \<times> (nat \<times> bool \<times> 'w connection)) set" where
  "loop_order = measures [\<lambda>(rl, sent, c). rl, \<lambda>(rl, sent, c). stage sent (cn_protocol c),
     \<lambda>(rl, sent, c). needed (cn_protocol c), \<lambda>(rl, sent, c). backlog (cn_world c)]"

lemma stage_retry: "rl' < rl \<Longrightarrow> ((rl', sent', c'), (rl, sent, c)) \<in> loop_order"
  by (simp add: loop_order_def)

lemma turn_decreases:
  assumes "process_step T command tmo cts rl sent c = Some (Again cts1 rl1 sent1 c1)" "loop_inv sent c"
  shows "((rl1, sent1, c1), (rl, sent, c)) \<in> loop_order"
proof -
  from assms(2) have inv: "protocol_inv (cn_protocol c)" by (simp add: loop_inv_def)
  from assms(1) inv show ?thesis
  proof (cases rule: process_step_cases)
    case (excess p)
    then show ?thesis by (intro stage_retry) auto
  next
    case (response r p)
    then have "\<not> sent" "rl1 = rl" "\<not> sent1" "in_sync (cn_protocol c1)"
      by (auto split: sum.splits if_splits)
    moreover have "\<not> waiting (cn_protocol c1)" using calculation(4) not_in_sync_waiting by blast
    ultimately show ?thesis using response(2) by (simp add: loop_order_def stage_def)
  next
    case send
    from send(1) show ?thesis
    proof (cases rule: send_turn_cases)
      case (ok raw w)
      with send(2) show ?thesis by (auto simp: loop_order_def stage_def start_facts)
    next
      case (failed raw w e)
      then show ?thesis by (intro stage_retry) auto
    qed simp_all
  next
    case (receive p)
    from receive(1) show ?thesis
    proof (cases rule: receive_turn_cases)
      case (timeout t w)
      then show ?thesis by (intro stage_retry) auto
    next
      case (fed t data q w)
      then have f: "feed data p = (Inr (), q)" by simp
      have same: "rl1 = rl" "sent1 = sent" "cn_protocol c1 = q" "cn_world c1 = w" using fed(3) by simp_all
      have stage: "stage sent q = stage sent (cn_protocol c)"
        using receive(2,3) feed_facts(3) [OF f] by (simp add: stage_def)
      show ?thesis
      proof (cases "data = []")
        case True
        with fed(1) have "backlog w < backlog (cn_world c)" using receive_empty by simp
        moreover have "needed q = needed p" using f True by (auto simp: feed_def needed_def)
        ultimately show ?thesis using same stage receive(4) by (auto simp: loop_order_def)
      next
        case False
        with feed_facts(5) [OF f False receive(5)] receive(4) same stage show ?thesis
          by (simp add: loop_order_def)
      qed
    qed simp_all
  qed simp_all
qed

lemma turn_returns: "\<exists>turn. process_step T command tmo cts rl sent c = Some turn"
proof -
  have s: "transport_send T data d \<noteq> None" for data d
    using send_returns [of data "cn_world d"] by (simp add: transport_send_def)
  have r: "transport_receive T (Some t) d \<noteq> None" for t d
    using receive_returns [of t "cn_world d"] by (simp add: transport_receive_def)
  have "send_turn T command rl sent d \<noteq> None" for d
    using s by (auto simp: send_turn_def Let_def split: prod.splits sum.splits)
  moreover have "receive_turn T tmo cts rl sent d \<noteq> None" for d
    using r by (simp add: receive_turn_def Let_def)
  ultimately have "process_step T command tmo cts rl sent c \<noteq> None"
    by (auto simp: process_step_def Let_def split: prod.splits sum.splits option.splits event.splits)
  then show ?thesis by simp
qed

lemma wf_loop_order: "wf loop_order"
  by (simp add: loop_order_def)

lemma loop_returns:
  "loop_inv sent c \<Longrightarrow> \<exists>r c'. process_loop T command tmo cts rl sent c = Some (r, c')"
proof -
  have "\<forall>cts rl sent c. s = (rl, sent, c) \<longrightarrow> loop_inv sent c \<longrightarrow>
      (\<exists>r c'. process_loop T command tmo cts rl sent c = Some (r, c'))" for s
  proof (induction s rule: wf_induct_rule [OF wf_loop_order])
    case (1 s)
    show ?case
    proof (intro allI impI)
      fix cts rl sent c
      assume s: "s = (rl, sent, c)" and inv: "loop_inv sent c"
      obtain turn where turn: "process_step T command tmo cts rl sent c = Some turn" using turn_returns by blast
      show "\<exists>r c'. process_loop T command tmo cts rl sent c = Some (r, c')"
      proof (cases turn)
        case (Done r c1)
        with turn show ?thesis by (subst process_loop.simps) simp
      next
        case (Again cts1 rl1 sent1 c1)
        with turn inv s have "loop_inv sent1 c1" "((rl1, sent1, c1), s) \<in> loop_order"
          by (auto intro: loop_inv_again turn_decreases)
        with "1.IH" have "\<exists>r c'. process_loop T command tmo cts1 rl1 sent1 c1 = Some (r, c')" by blast
        with turn Again show ?thesis by (subst process_loop.simps) simp
      qed
    qed
  qed
  then show "loop_inv sent c \<Longrightarrow> \<exists>r c'. process_loop T command tmo cts rl sent c = Some (r, c')" by blast
qed

end

interpretation pipe_live: live_transport InMemoryTransport "\<lambda>w. length (fst w)"
proof unfold_locales
  fix data :: bytes and w :: pipe
  show "tr_send InMemoryTransport data w \<noteq> None" by (cases w) simp
next
  fix t and w :: pipe
  show "tr_receive InMemoryTransport (Some t) w \<noteq> None" by (cases "(Some t, w)" rule: pipe_receive.cases) auto
next
  fix t' and w w' :: pipe
  assume "tr_receive InMemoryTransport t' w = Some (Inr [], w')"
  then show "length (fst w') < length (fst w)" by (cases "(t', w)" rule: pipe_receive.cases) auto
qed

section \<open>Properties of the command loop\<close>

text \<open>C12. The exceptions of a command: on any transport, from any state that the protocol machine
  can reach, processing a command raises only the errors of the device, of the framing (excess
  data, a closed connection, arguments too long) or what the transport itself raises. So the loop's
  "invalid state" error, the assertions of the protocol machine and its refusal to send
  before syncing can never surface, and the machine is left in a consistent state.\<close>

theorem command_exceptions:
  assumes "process_command_inner T max_retries timeout command c = Some (Inl e, c')"
    and "protocol_reachable (cn_protocol c)"
  shows "e \<in> {ExcessDataError, RuntimeError ''unexpected event'', RuntimeError ''receiver closed'',
     RuntimeError ''arguments too long'', RuntimeError ''bad silicon revision'',
     RuntimeError ''invalid operation'', RuntimeError ''operation failed''} \<or> raised_by_transport T e"
proof -
  have "loop_inv False c" using protocol_reachable_inv [OF assms(2)] by (simp add: loop_inv_def)
  then have "e \<in> loop_errors \<or> raised_by_transport T e"
    using process_loop_invariant [OF assms(1) [unfolded process_command_inner_def],
        where I = "\<lambda>_ _ sent c. loop_inv sent c" and
        Q = "\<lambda>r _. \<forall>x. r = Inl x \<longrightarrow> x \<in> loop_errors \<or> raised_by_transport T x"]
      loop_inv_again loop_error by blast
  then show ?thesis by (simp add: loop_errors_def)
qed

text \<open>A run on a pipe with nothing on the other side.\<close>

definition silent :: "pipe connection" where
  "silent = BootloaderConnection None 254 ([], [])"

lemma silent_reachable: "protocol_reachable (cn_protocol silent)"
  by (simp add: silent_def BootloaderConnection_def protocol_reachable.init)

lemma silent_run:
  "\<exists>c'. process_command_inner InMemoryTransport 0 (Some 10) Command_get_crc silent = Some (Inl TimeoutError, c')"
  unfolding process_command_inner_def
  by (subst process_loop.simps, simp add: process_step_def silent_def BootloaderConnection_def Protocol_def reset_def
      next_event_def next_event_length_def next_event_response_def next_event_sync_def purge_excess_data_def
      send_turn_def in_sync_def send_def GET_SYNC_def Command_get_sync_def command_to_bytes_def payload_length_def
      response_length_def start_waiting_for_response_def start_waiting_for_sync_def transport_send_def,
      subst process_loop.simps, simp add: process_step_def next_event_def next_event_length_def
      next_event_response_def next_event_sync_def receive_turn_def transport_receive_def retry_or_raise_def)

lemma command_exceptions_witness:
  "TimeoutError \<in> {ExcessDataError, RuntimeError ''unexpected event'', RuntimeError ''receiver closed'',
     RuntimeError ''arguments too long'', RuntimeError ''bad silicon revision'',
     RuntimeError ''invalid operation'', RuntimeError ''operation failed''}
   \<or> raised_by_transport InMemoryTransport TimeoutError"
  using silent_run silent_reachable by (blast dest: command_exceptions)

text \<open>C8. Bounded sending: on any transport, processing a command with \<open>k\<close> retries hands the command's
  bytes to the transport at most \<open>k + 1\<close> times, whatever answers, timeouts and resynchronisations
  happen in between; so \<open>program_bytes\<close>, which allows no retries, never sends a chunk twice.\<close>

theorem command_sent_at_most:
  assumes "send_log T sends" and "process_command_inner T k timeout command c = Some (r, c')"
    and "protocol_reachable (cn_protocol c)"
    and "command_to_bytes command = Inr raw" "raw \<noteq> [opcode_value OP_GET_SYNC, opcode_value OP_EOC]"
  shows "count_list (drop (length (sends (cn_world c))) (sends (cn_world c'))) raw \<le> k + 1"
proof -
  have "command_to_bytes GET_SYNC \<noteq> Inr raw"
    using assms(5) by (simp add: command_to_bytes_def GET_SYNC_def Command_get_sync_def payload_length_def)
  then show ?thesis
    using send_log.command_copies_bounded [OF assms(1,2) protocol_reachable_inv [OF assms(3)] assms(4)]
    by (simp add: send_log.copies_def [OF assms(1)])
qed

lemma command_sent_at_most_witness:
  "\<exists>r c'. process_command_inner InMemoryTransport 0 (Some 10) Command_get_crc silent = Some (r, c') \<and>
     count_list (drop (length (snd (cn_world silent))) (snd (cn_world c'))) [0x29, 0x20] \<le> 0 + 1"
proof -
  obtain c' where run: "process_command_inner InMemoryTransport 0 (Some 10) Command_get_crc silent = Some (Inl TimeoutError, c')"
    using silent_run by blast
  have raw: "command_to_bytes Command_get_crc = Inr [0x29, 0x20]"
    by (simp add: command_to_bytes_def Command_get_crc_def payload_length_def)
  show ?thesis
    using run command_sent_at_most [OF pipe_log.send_log_axioms run silent_reachable raw] by auto
qed

text \<open>C9. The command loop always returns: on a transport whose \<open>send\<close> returns, whose \<open>receive\<close> returns
  within its timeout and which does not deliver empty chunks for ever, processing any command with any number
  of retries ends with a result or an exception, however the other side behaves. In particular a
  device that sends garbage constantly cannot keep the loop busy for ever.\<close>

theorem command_loop_returns:
  assumes "live_transport T backlog" and "protocol_reachable (cn_protocol c)"
  shows "\<exists>r c'. process_command_inner T max_retries timeout command c = Some (r, c')"
  unfolding process_command_inner_def
  using live_transport.loop_returns [OF assms(1), of False c] protocol_reachable_inv [OF assms(2)]
  by (simp add: loop_inv_def)

lemma command_loop_returns_witness:
  "\<exists>r c'. process_command_inner InMemoryTransport 10 None Command_get_crc silent = Some (r, c')"
  by (rule command_loop_returns [OF pipe_live.live_transport_axioms silent_reachable])

end
