(* ===== verification/Connection_Frame.thy ===== *)
theory Connection_Frame
  imports Connection_Loop
begin

text \<open>
  What the operations of a connection do to the world behind it: nothing but what its transport does.
  A reflexive and transitive relation that every call of the transport respects (locale
  \<open>world_frame\<close>) is respected by the command loop and by every operation built on it. With the
  relation \<open>nothing but the transport's part has changed\<close> this gives the frame of the operations.
\<close>

named_theorems framed_intros \<open>operations that respect the frame\<close>

locale world_frame =
  fixes T :: "'w transport" and R :: "'w \<Rightarrow> 'w \<Rightarrow> bool"
  assumes R_refl: "R w w"
    and R_trans: "R w1 w2 \<Longrightarrow> R w2 w3 \<Longrightarrow> R w1 w3"
    and R_send: "tr_send T data w = Some (r, w') \<Longrightarrow> R w w'"
    and R_receive: "tr_receive T t w = Some (r', w') \<Longrightarrow> R w w'"
begin

definition framed :: "('w connection, 'a) eff \<Rightarrow> bool" where
  "framed m \<longleftrightarrow> (\<forall>c r c'. m c = Some (r, c') \<longrightarrow> R (cn_world c) (cn_world c'))"

lemma framedI: "(\<And>c r c'. m c = Some (r, c') \<Longrightarrow> R (cn_world c) (cn_world c')) \<Longrightarrow> framed m"
  by (auto simp: framed_def)

lemma framedD: "framed m \<Longrightarrow> m c = Some (r, c') \<Longrightarrow> R (cn_world c) (cn_world c')"
  by (auto simp: framed_def)

lemma framed_pure [framed_intros]:
  "framed (eff_return a)" "framed (eff_raise e)" "framed (eff_get f)" "framed (eff_result x)"
  by (auto simp: framed_def R_refl)

lemma framed_modify [framed_intros]: "(\<And>c. R (cn_world c) (cn_world (f c))) \<Longrightarrow> framed (eff_modify f)"
  by (auto simp: framed_def)

lemma framed_bind [framed_intros]: "framed m \<Longrightarrow> (\<And>a. framed (f a)) \<Longrightarrow> framed (eff_bind m f)"
  by (rule framedI, erule eff_bind_cases) (blast dest: framedD intro: R_trans)+

lemma framed_catch [framed_intros]: "framed m \<Longrightarrow> (\<And>e. framed (h e)) \<Longrightarrow> framed (eff_catch m h)"
  by (rule framedI, erule eff_catch_cases) (blast dest: framedD intro: R_trans)+

lemma framed_lock [framed_intros]: "framed m \<Longrightarrow> framed (with_lock m)"
  by (rule framedI) (auto simp: with_lock_def R_refl split: if_splits dest: framedD)

lemma framed_send [framed_intros]: "framed (transport_send T data)"
  by (auto simp: framed_def transport_send_def dest: R_send)

lemma framed_receive [framed_intros]: "framed (transport_receive T t)"
  by (auto simp: framed_def transport_receive_def dest: R_receive)

text \<open>A turn of the command loop.\<close>

fun turn_world :: "'w turn \<Rightarrow> 'w" where
  "turn_world (Done r c) = cn_world c"
| "turn_world (Again x n b c) = cn_world c"

lemma turn_world_retry [simp]: "turn_world (retry_or_raise e x n b c) = cn_world c"
  by (simp add: retry_or_raise_def)

lemma send_turn_frame: "send_turn T command rl sent c = Some turn \<Longrightarrow> R (cn_world c) (turn_world turn)"
  by (erule send_turn_cases) (auto simp: R_refl dest: R_send)

lemma receive_turn_frame: "receive_turn T tmo cts rl sent c = Some turn \<Longrightarrow> R (cn_world c) (turn_world turn)"
  by (erule receive_turn_cases) (auto simp: R_refl dest: R_receive)

lemma process_step_frame:
  assumes "process_step T command tmo cts rl sent c = Some turn"
  shows "R (cn_world c) (turn_world turn)"
proof -
  obtain r p where ev: "next_event (cn_protocol c) = (r, p)" by fastforce
  note step = assms [unfolded process_step_def ev Let_def prod.case]
  show ?thesis
    using step send_turn_frame [of command rl sent "c\<lparr>cn_protocol := p\<rparr>" turn]
      receive_turn_frame [of tmo cts rl sent "c\<lparr>cn_protocol := p\<rparr>" turn]
    by (auto simp: R_refl split: sum.splits option.splits event.splits if_splits)
qed

lemma framed_loop [framed_intros]: "framed (process_loop T command tmo cts rl sent)"
proof (rule framedI)
  fix c r c'
  assume run: "process_loop T command tmo cts rl sent c = Some (r, c')"
  show "R (cn_world c) (cn_world c')"
  proof (rule process_loop_invariant [OF run, where I = "\<lambda>_ _ _ d. R (cn_world c) (cn_world d)"])
    fix cts rl sent d cts1 rl1 sent1 d1
    assume "R (cn_world c) (cn_world d)" "process_step T command tmo cts rl sent d = Some (Again cts1 rl1 sent1 d1)"
    then show "R (cn_world c) (cn_world d1)" using process_step_frame by (fastforce intro: R_trans)
  next
    fix cts rl sent d r1 d1
    assume "R (cn_world c) (cn_world d)" "process_step T command tmo cts rl sent d = Some (Done r1 d1)"
    then show "R (cn_world c) (cn_world d1)" using process_step_frame by (fastforce intro: R_trans)
  qed (rule R_refl)
qed

lemma framed_command [framed_intros]:
  "framed (process_command_inner T k tmo command)" "framed (process_command T k command)"
  unfolding process_command_inner_def process_command_def by (intro framed_intros)+

lemma framed_requests [framed_intros]:
  "framed (get_board_id T)" "framed (get_board_revision T)" "framed (get_bootloader_revision T)"
  "framed (get_flash_memory_size T)" "framed (get_chip_description T)" "framed (erase_flash_memory T)"
  "framed (get_flash_memory_crc T)" "framed (get_write_pointer T)" "framed (program_bytes T data)"
  "framed (send_bootloader_reboot_command T)"
  unfolding get_board_id_def get_board_revision_def get_bootloader_revision_def get_device_info_def
    get_flash_memory_size_def get_chip_description_def erase_flash_memory_def get_flash_memory_crc_def
    get_write_pointer_def program_bytes_def send_bootloader_reboot_command_def
  by (intro framed_intros)+

lemma framed_serial_words: "framed (read_serial_words T addresses res)"
  by (induction addresses arbitrary: res) (auto intro!: framed_intros)

lemma framed_serial [framed_intros]: "framed (get_serial_number T)"
  unfolding get_serial_number_def by (rule framed_serial_words)

lemma framed_get_mavlink [framed_intros]: "framed get_mavlink"
  by (rule framedI) (auto simp: get_mavlink_def R_refl Let_def split: option.splits)

lemma framed_mavlink_message [framed_intros]: "framed (send_mavlink_message T H body)"
  unfolding send_mavlink_message_def Let_def
  by (auto intro!: framed_intros simp: R_refl split: prod.splits sum.splits)

lemma framed_mavlink_reboot [framed_intros]: "framed (send_mavlink_reboot_command T H b)"
  unfolding send_mavlink_reboot_command_def by (auto intro!: framed_intros)

lemma framed_operations [framed_intros]:
  "framed (reboot T H b)" "framed (flash_bootloader T H)" "framed (reset_to_factory_defaults T H)"
  unfolding reboot_def flash_bootloader_def reset_to_factory_defaults_def
  by (auto intro!: framed_intros split: conn_mode.splits)

lemma framed_heartbeat [framed_intros]: "framed (wait_for_heartbeat T H t mv)"
proof (rule framedI)
  fix c r c'
  assume run: "wait_for_heartbeat T H t mv c = Some (r, c')"
  have "T = T \<longrightarrow> R (cn_world c) (cn_world (snd (r, c')))"
  proof (rule wait_for_heartbeat.raw_induct [OF _ run,
        where P = "\<lambda>T' _ _ _ c rc. T' = T \<longrightarrow> R (cn_world c) (cn_world (snd rc))"])
    fix f :: "'w transport \<Rightarrow> (bytes \<Rightarrow> bytes) \<Rightarrow> nat \<Rightarrow> mavlink \<Rightarrow> 'w connection \<Rightarrow> (mav_message result \<times> 'w connection) option"
      and T' :: "'w transport" and H t mv c and rc :: "mav_message result \<times> 'w connection"
    assume IH: "\<And>T' H t mv c rc. f T' H t mv c = Some rc \<Longrightarrow> T' = T \<longrightarrow> R (cn_world c) (cn_world (snd rc))"
      and step: "Option.bind (transport_receive T' (Some t) c) (\<lambda>(r, c1). case r of
         Inl e \<Rightarrow> Some (Inl e, c1)
       | Inr data \<Rightarrow> (case parse_buffer H data mv of
              (Inl e, mv1) \<Rightarrow> Some (Inl e, c1\<lparr>cn_mavlink := Some mv1\<rparr>)
            | (Inr ms, mv1) \<Rightarrow> (case find is_heartbeat (case ms of None \<Rightarrow> [] | Some l \<Rightarrow> l) of
                   None \<Rightarrow> f T' H t mv1 (c1\<lparr>cn_mavlink := Some mv1\<rparr>)
                 | Some message \<Rightarrow> Some (Inr message, c1\<lparr>cn_mavlink := Some mv1\<rparr>)))) = Some rc"
    show "T' = T \<longrightarrow> R (cn_world c) (cn_world (snd rc))"
    proof
      assume T: "T' = T"
      with step obtain r1 c1 where rcv: "transport_receive T (Some t) c = Some (r1, c1)"
        by (auto simp: bind_eq_Some_conv)
      have "R (cn_world c) (cn_world c1)" by (rule framedD [OF framed_receive rcv])
      moreover have "R (cn_world c1) (cn_world (snd rc))"
        using step T rcv IH [of T H t _ "c1\<lparr>cn_mavlink := Some _\<rparr>" rc]
        by (auto simp: R_refl split: sum.splits prod.splits option.splits)
      ultimately show "R (cn_world c) (cn_world (snd rc))" by (rule R_trans)
    qed
  qed
  then show "R (cn_world c) (cn_world c')" by simp
qed

lemma framed_call_back [framed_intros]:
  "(\<And>w f. g = Some f \<Longrightarrow> R w (f w)) \<Longrightarrow> framed (call_back g)"
  unfolding call_back_def by (cases g) (auto intro!: framed_intros)

lemma framed_modes [framed_intros]:
  assumes "\<And>w f. g = Some f \<Longrightarrow> R w (f w)"
  shows "framed (ensure_in_bootloader T H g)" "framed (ensure_in_mavlink T H t g)"
  unfolding ensure_in_bootloader_def ensure_in_mavlink_def
  using assms by (auto intro!: framed_intros simp: R_refl)

end

end
