(* ===== verification/Dialogue.thy ===== *)
theory Dialogue
  imports Connection_Frame
begin

text \<open>
  A conversation between a connection and a device that answers. The interface \<open>bootloader_link\<close>
  abstracts the transport together with what is behind it: a device state, the meaning of a command
  on it, and the bytes of the answer that have not been received yet, which arrive in any
  fragmentation. Under it a command that the device answers returns the payload, and one whose answer is
  lost, sent without retries, ends in a timeout after which the connection is usable again.
\<close>

section \<open>The machine between two commands\<close>

definition quiet :: "protocol \<Rightarrow> bool" where
  "quiet p \<longleftrightarrow> pr_state p \<in> {PS_IDLE, PS_IN_SYNC} \<and> pr_buffer p = [] \<and> pr_payload p = [] \<and> \<not> pr_buffer_closed p"

lemma quiet_synced: "quiet synced" "in_sync synced"
  by (simp_all add: quiet_def synced_def in_sync_def)

lemma quiet_new: "quiet Protocol"
  by (simp add: quiet_def Protocol_def reset_def)

lemma quiet_next_event: "quiet p \<Longrightarrow> next_event p = (Inr None, p)"
  by (auto simp: quiet_def next_event_def next_event_length_def next_event_response_def next_event_sync_def
      purge_excess_data_def)

lemma quiet_start: "quiet p \<Longrightarrow> start_waiting_for_response k p = awaiting k []"
  by (auto simp: quiet_def intro: awaiting_start)

lemma next_event_awaiting: "0 \<le> k \<Longrightarrow> next_event (awaiting k []) = (Inr (Some NeedMoreData), awaiting k [])"
  by (auto simp: awaiting_def partly_received_def next_event_def next_event_length_def next_event_response_def
      next_event_sync_def)

lemma reset_awaiting: "0 \<le> k \<Longrightarrow> quiet (reset (awaiting k []))"
  by (auto simp: awaiting_def partly_received_def reset_def quiet_def)

lemma feed_awaiting: "fst (feed chunk (awaiting k pre)) = Inr ()"
  by (auto simp: feed_def awaiting_def partly_received_def)

section \<open>The interface\<close>

text \<open>
  \<open>exec c d\<close> is the device's answer to the command \<open>c\<close> in state \<open>d\<close>, none if it is lost, and its
  state afterwards; \<open>ready d\<close> says that the device listens.
\<close>

locale bootloader_link =
  fixes T :: "'w transport"
    and exec :: "command \<Rightarrow> 'd \<Rightarrow> response option \<times> 'd"
    and device :: "'w \<Rightarrow> 'd"
    and arriving :: "'w \<Rightarrow> bytes"
    and ready :: "'d \<Rightarrow> bool"
  assumes answers: "ready (device w) \<Longrightarrow> arriving w = [] \<Longrightarrow> OP_EOC < cmd_type c \<Longrightarrow>
      0 \<le> payload_length c \<longrightarrow> int (length (cmd_args c)) = payload_length c \<Longrightarrow>
      command_to_bytes c = Inr raw \<Longrightarrow>
      \<exists>w'. tr_send T raw w = Some (Inr (), w') \<and> device w' = snd (exec c (device w)) \<and>
        arriving w' = (case fst (exec c (device w)) of None \<Rightarrow> [] | Some r \<Rightarrow> response_to_bytes r)"
    and delivers: "arriving w \<noteq> [] \<Longrightarrow> \<exists>chunk w'. tr_receive T (Some t) w = Some (Inr chunk, w') \<and>
      chunk \<noteq> [] \<and> arriving w = chunk @ arriving w' \<and> device w' = device w"
    and silent: "arriving w = [] \<Longrightarrow> \<exists>w'. tr_receive T (Some t) w = Some (Inl TimeoutError, w') \<and>
      arriving w' = [] \<and> device w' = device w"
    and syncs: "ready d \<Longrightarrow> exec GET_SYNC d = (Some (Response_success []), d)"
begin

text \<open>The device has answered and its answer is on the way.\<close>

lemma receive_answer:
  assumes r: "fits_frame k r"
  shows "next_event (cn_protocol c) = (Inr (Some NeedMoreData), awaiting k pre) \<Longrightarrow>
    response_frame k r = pre @ arriving (cn_world c) \<Longrightarrow> arriving (cn_world c) \<noteq> [] \<Longrightarrow>
    \<exists>p w. process_loop T command tmo cts rl sent c = process_loop T command tmo cts rl sent (moved c p w) \<and>
      next_event p = (Inr (Some (ResponseEvent r)), synced) \<and> arriving w = [] \<and> device w = device (cn_world c)"
proof (induction "length (arriving (cn_world c))" arbitrary: c pre rule: less_induct)
  case less
  let ?t = "case tmo of Some t \<Rightarrow> t | None \<Rightarrow> (case cts of Some x \<Rightarrow> suggested_timeout x | None \<Rightarrow> 1000)"
  obtain chunk w where rcv: "tr_receive T (Some ?t) (cn_world c) = Some (Inr chunk, w)" "chunk \<noteq> []"
    "arriving (cn_world c) = chunk @ arriving w" "device w = device (cn_world c)"
    using delivers [OF less.prems(3)] by blast
  obtain p where p: "feed chunk (awaiting k pre) = (Inr (), p)"
    using feed_awaiting [of chunk k pre] by (cases "feed chunk (awaiting k pre)") auto
  have "process_step T command tmo cts rl sent c = Some (Again cts rl sent (moved c p w))"
    using less.prems(1) rcv(1) p
    by (simp add: process_step_def receive_turn_def transport_receive_def Let_def moved_def)
  then have loop: "process_loop T command tmo cts rl sent c = process_loop T command tmo cts rl sent (moved c p w)"
    by (subst process_loop.simps) simp
  have poll: "next_event p = (if arriving w = [] then (Inr (Some (ResponseEvent r)), synced)
      else (Inr (Some NeedMoreData), awaiting k (pre @ chunk)))"
    using poll_awaiting [OF r _ rcv(2), of pre "arriving w"] less.prems(2) rcv(3) p by (simp add: poll_def)
  show ?case
  proof (cases "arriving w = []")
    case True
    with loop poll rcv(4) show ?thesis by auto
  next
    case False
    with less.hyps [of "moved c p w" "pre @ chunk"] poll rcv less.prems(2) loop show ?thesis by auto
  qed
qed

text \<open>From sending a command that the device answers to the response.\<close>

lemma send_and_receive:
  assumes quiet: "quiet (cn_protocol c)" and idle: "arriving (cn_world c) = []" "ready (device (cn_world c))"
    and x: "x = chosen command (cn_protocol c)" "OP_EOC < cmd_type x"
      "0 \<le> payload_length x \<longrightarrow> int (length (cmd_args x)) = payload_length x" "command_to_bytes x = Inr raw"
    and k: "0 \<le> response_length x"
    and exec: "exec x (device (cn_world c)) = (Some (Response_success payload), d)"
      "int (length payload) = response_length x"
  shows "\<exists>p w. process_loop T command tmo cts rl False c =
      process_loop T command tmo (Some x) rl (in_sync (cn_protocol c)) (moved c p w) \<and>
    next_event p = (Inr (Some (ResponseEvent (Response_success payload))), synced) \<and> arriving w = [] \<and> device w = d"
proof -
  let ?k = "response_length x"
  obtain w where w: "tr_send T raw (cn_world c) = Some (Inr (), w)" "device w = d"
    "arriving w = response_to_bytes (Response_success payload)"
    using answers [OF idle(2,1) x(2,3,4)] exec by auto
  let ?c = "moved c (awaiting ?k []) w"
  have "process_step T command tmo cts rl False c = Some (Again (Some x) rl (in_sync (cn_protocol c)) ?c)"
    using quiet w(1) x(1,4) send_chosen [of command "cn_protocol c"]
    by (simp add: process_step_def quiet_next_event send_turn_def Let_def chosen_def quiet_start
        transport_send_def moved_def split: if_splits)
  then have 1: "process_loop T command tmo cts rl False c =
      process_loop T command tmo (Some x) rl (in_sync (cn_protocol c)) ?c"
    by (subst process_loop.simps) simp
  have fits: "fits_frame ?k (Response_success payload)"
    using k exec(2) by (simp add: fits_frame_def Response_success_def)
  have frame: "response_frame ?k (Response_success payload) = [] @ arriving (cn_world ?c)"
    using k w(3) by (simp add: response_frame_def response_to_bytes_def Response_success_def)
  have "arriving (cn_world ?c) \<noteq> []" using w(3) by (simp add: response_to_bytes_def)
  from receive_answer [OF fits _ frame this, of command tmo "Some x" rl "in_sync (cn_protocol c)"]
  obtain p w' where "process_loop T command tmo (Some x) rl (in_sync (cn_protocol c)) ?c =
      process_loop T command tmo (Some x) rl (in_sync (cn_protocol c)) (moved ?c p w')"
    "next_event p = (Inr (Some (ResponseEvent (Response_success payload))), synced)" "arriving w' = []"
    "device w' = device w"
    using k by (auto simp: next_event_awaiting)
  with 1 w(2) show ?thesis by auto
qed

lemma GET_SYNC_facts: "OP_EOC < cmd_type GET_SYNC" "payload_length GET_SYNC = 0" "response_length GET_SYNC = 0"
  "command_to_bytes GET_SYNC = Inr [0x21, 0x20]" "cmd_args GET_SYNC = []"
  by (simp_all add: GET_SYNC_def Command_get_sync_def payload_length_def response_length_def
      command_to_bytes_def less_opcode_def)

text \<open>The loop gets in sync first.\<close>

lemma obtain_sync:
  assumes quiet: "quiet (cn_protocol c)" and idle: "arriving (cn_world c) = []" "ready (device (cn_world c))"
  obtains cts' p w where "process_loop T command tmo cts rl False c = process_loop T command tmo cts' rl False (moved c p w)"
    "quiet p" "in_sync p" "arriving w = []" "device w = device (cn_world c)"
proof (cases "in_sync (cn_protocol c)")
  case True
  have "moved c (cn_protocol c) (cn_world c) = c" by (simp add: moved_def)
  with that [of cts "cn_protocol c" "cn_world c"] True quiet idle show ?thesis by simp
next
  case False
  then have "GET_SYNC = chosen command (cn_protocol c)" by (simp add: chosen_def)
  from send_and_receive [OF quiet idle this, of "[0x21, 0x20]" "[]" "device (cn_world c)" tmo cts rl] False syncs [OF idle(2)] obtain p w where
    1: "process_loop T command tmo cts rl False c = process_loop T command tmo (Some GET_SYNC) rl False (moved c p w)"
    "next_event p = (Inr (Some (ResponseEvent (Response_success []))), synced)" "arriving w = []"
    "device w = device (cn_world c)"
    by (auto simp: GET_SYNC_facts)
  have "process_step T command tmo (Some GET_SYNC) rl False (moved c p w) =
      Some (Again (Some GET_SYNC) rl False (moved c synced w))"
    using 1(2) by (simp add: process_step_def get_payload_or_raise_exception_def Response_success_def)
  then have "process_loop T command tmo (Some GET_SYNC) rl False (moved c p w) =
      process_loop T command tmo (Some GET_SYNC) rl False (moved c synced w)"
    by (subst process_loop.simps) simp
  with 1 that [of "Some GET_SYNC" synced w] quiet_synced show ?thesis by simp
qed

text \<open>A command that the device executes and answers.\<close>

definition askable :: "command \<Rightarrow> bool" where
  "askable x \<longleftrightarrow> OP_EOC < cmd_type x \<and> 0 \<le> response_length x \<and> (\<exists>raw. command_to_bytes x = Inr raw) \<and>
     (0 \<le> payload_length x \<longrightarrow> int (length (cmd_args x)) = payload_length x)"

theorem command_answered:
  assumes quiet: "quiet (cn_protocol c)" and idle: "arriving (cn_world c) = []" "ready (device (cn_world c))"
    and x: "askable command"
    and exec: "exec command (device (cn_world c)) = (Some (Response_success payload), d)"
      "int (length payload) = response_length command"
  shows "\<exists>w. process_command_inner T k tmo command c = Some (Inr payload, moved c synced w) \<and>
    arriving w = [] \<and> device w = d"
proof -
  from x obtain raw where raw: "command_to_bytes command = Inr raw" by (auto simp: askable_def)
  note cmd = x [unfolded askable_def]
  obtain cts p w where 1: "process_loop T command tmo None k False c = process_loop T command tmo cts k False (moved c p w)"
    "quiet p" "in_sync p" "arriving w = []" "device w = device (cn_world c)"
    by (rule obtain_sync [OF quiet idle])
  have "command = chosen command (cn_protocol (moved c p w))" using 1(3) by (simp add: chosen_def)
  from send_and_receive [OF _ _ _ this, of raw payload d tmo cts k] 1 idle cmd raw exec obtain q v where
    2: "process_loop T command tmo cts k False (moved c p w) = process_loop T command tmo (Some command) k True (moved c q v)"
    "next_event q = (Inr (Some (ResponseEvent (Response_success payload))), synced)" "arriving v = []" "device v = d"
    by auto
  have "process_step T command tmo (Some command) k True (moved c q v) = Some (Done (Inr payload) (moved c synced v))"
    using 2(2) by (simp add: process_step_def get_payload_or_raise_exception_def Response_success_def)
  then have "process_loop T command tmo (Some command) k True (moved c q v) = Some (Inr payload, moved c synced v)"
    by (subst process_loop.simps) simp
  with 1(1) 2 show ?thesis by (auto simp: process_command_inner_def)
qed

text \<open>A command whose answer is lost, without retries.\<close>

theorem command_lost:
  assumes quiet: "quiet (cn_protocol c)" and idle: "arriving (cn_world c) = []" "ready (device (cn_world c))"
    and x: "askable command"
    and exec: "exec command (device (cn_world c)) = (None, d)"
  shows "\<exists>p w. process_command_inner T 0 tmo command c = Some (Inl TimeoutError, moved c p w) \<and>
    quiet p \<and> arriving w = [] \<and> device w = d"
proof -
  from x obtain raw where raw: "command_to_bytes command = Inr raw" by (auto simp: askable_def)
  note cmd = x [unfolded askable_def]
  let ?k = "response_length command"
  obtain cts p w where 1: "process_loop T command tmo None 0 False c = process_loop T command tmo cts 0 False (moved c p w)"
    "quiet p" "in_sync p" "arriving w = []" "device w = device (cn_world c)"
    by (rule obtain_sync [OF quiet idle])
  obtain w1 where w1: "tr_send T raw w = Some (Inr (), w1)" "device w1 = d" "arriving w1 = []"
    using answers [of w command raw] 1 idle cmd raw exec by auto
  have "process_step T command tmo cts 0 False (moved c p w) = Some (Again (Some command) 0 True (moved c (awaiting ?k []) w1))"
    using 1 w1(1) raw
    by (simp add: process_step_def quiet_next_event send_turn_def Let_def send_command_ok quiet_start
        transport_send_def moved_def)
  then have 2: "process_loop T command tmo cts 0 False (moved c p w) =
      process_loop T command tmo (Some command) 0 True (moved c (awaiting ?k []) w1)"
    by (subst process_loop.simps) simp
  let ?t = "case tmo of Some t \<Rightarrow> t | None \<Rightarrow> (case Some command of Some x \<Rightarrow> suggested_timeout x | None \<Rightarrow> 1000)"
  obtain w2 where w2: "tr_receive T (Some ?t) w1 = Some (Inl TimeoutError, w2)" "arriving w2 = []" "device w2 = device w1"
    using silent [OF w1(3)] by blast
  have "process_step T command tmo (Some command) 0 True (moved c (awaiting ?k []) w1) =
      Some (Done (Inl TimeoutError) (moved c (reset (awaiting ?k [])) w2))"
    using cmd
    by (simp add: process_step_def next_event_awaiting receive_turn_def transport_receive_def Let_def
        retry_or_raise_def moved_def w2(1))
  then have "process_loop T command tmo (Some command) 0 True (moved c (awaiting ?k []) w1) =
      Some (Inl TimeoutError, moved c (reset (awaiting ?k [])) w2)"
    by (subst process_loop.simps) simp
  with 1(1) 2 w1 w2 cmd reset_awaiting show ?thesis by (auto simp: process_command_inner_def)
qed

section \<open>The operations of the connection in a conversation\<close>

definition conversing :: "'w connection \<Rightarrow> 'd \<Rightarrow> bool" where
  "conversing c d \<longleftrightarrow> \<not> cn_lock c \<and> quiet (cn_protocol c) \<and> arriving (cn_world c) = [] \<and> device (cn_world c) = d"

lemma conversing_lock: "conversing c d \<Longrightarrow> c\<lparr>cn_lock := False\<rparr> = c"
  by (simp add: conversing_def)

lemma command_in_conversation:
  assumes "conversing c d" "ready d" "askable command"
    and "exec command d = (Some (Response_success payload), d')" "int (length payload) = response_length command"
  shows "\<exists>c'. process_command T k command c = Some (Inr payload, c') \<and> conversing c' d' \<and> cn_mode c' = cn_mode c"
proof -
  let ?c = "c\<lparr>cn_lock := True\<rparr>"
  from assms obtain w where "process_command_inner T k None command ?c = Some (Inr payload, moved ?c synced w)"
    "arriving w = []" "device w = d'"
    using command_answered [of ?c command payload d' k None] by (auto simp: conversing_def)
  with assms(1) show ?thesis
    by (auto simp: process_command_def with_lock_def conversing_def quiet_synced)
qed

lemma command_lost_in_conversation:
  assumes "conversing c d" "ready d" "askable command" and "exec command d = (None, d')"
  shows "\<exists>c'. process_command T 0 command c = Some (Inl TimeoutError, c') \<and> conversing c' d' \<and> cn_mode c' = cn_mode c"
proof -
  let ?c = "c\<lparr>cn_lock := True\<rparr>"
  from assms obtain p w where "process_command_inner T 0 None command ?c = Some (Inl TimeoutError, moved ?c p w)"
    "quiet p" "arriving w = []" "device w = d'"
    using command_lost [of ?c command d' None] by (auto simp: conversing_def)
  with assms(1) show ?thesis
    by (auto simp: process_command_def with_lock_def conversing_def)
qed

lemma askable_requests:
  "askable (Command_get_device_info item)" "askable Command_get_crc" "askable Command_erase_flash_memory"
  "askable Command_get_write_pointer" "askable Command_reboot"
  "length address = 4 \<Longrightarrow> askable (Command OP_GET_SN address)"
  "length data \<le> 252 \<Longrightarrow> askable (Command OP_PROG_MULTI data)"
  by (simp_all add: askable_def Command_get_device_info_def Command_get_crc_def Command_erase_flash_memory_def
      Command_get_write_pointer_def Command_reboot_def response_length_def payload_length_def
      command_to_bytes_def less_opcode_def)

lemma get_device_info_in_conversation:
  assumes "conversing c d" "ready d" "exec (Command_get_device_info item) d = (Some (Response_success bs), d)" "length bs = 4"
  shows "\<exists>c'. get_device_info T item c = Some (Inr (from_bytes_le bs), c') \<and> conversing c' d \<and> cn_mode c' = cn_mode c"
proof -
  obtain c' where "process_command T default_max_retries (Command_get_device_info item) c = Some (Inr bs, c')"
    "conversing c' d" "cn_mode c' = cn_mode c"
    using command_in_conversation [OF assms(1,2) askable_requests(1) assms(3)] assms(4)
    by (auto simp: response_length_def Command_get_device_info_def)
  then show ?thesis by (simp add: get_device_info_def eff_bind_run)
qed

lemma numbers_in_conversation:
  assumes "conversing c d" "ready d" "length bs = 4"
  shows "exec Command_get_crc d = (Some (Response_success bs), d) \<Longrightarrow>
      \<exists>c'. get_flash_memory_crc T c = Some (Inr (from_bytes_le bs), c') \<and> conversing c' d \<and> cn_mode c' = cn_mode c"
    and "exec Command_get_write_pointer d = (Some (Response_success bs), d) \<Longrightarrow>
      \<exists>c'. get_write_pointer T c = Some (Inr (from_bytes_le bs), c') \<and> conversing c' d \<and> cn_mode c' = cn_mode c"
proof -
  assume x: "exec Command_get_crc d = (Some (Response_success bs), d)"
  then obtain c' where "process_command T default_max_retries Command_get_crc c = Some (Inr bs, c')"
    "conversing c' d" "cn_mode c' = cn_mode c"
    using command_in_conversation [OF assms(1,2) askable_requests(2) x] assms(3)
    by (auto simp: response_length_def Command_get_crc_def)
  then show "\<exists>c'. get_flash_memory_crc T c = Some (Inr (from_bytes_le bs), c') \<and> conversing c' d \<and> cn_mode c' = cn_mode c"
    by (simp add: get_flash_memory_crc_def eff_bind_run)
next
  assume x: "exec Command_get_write_pointer d = (Some (Response_success bs), d)"
  then obtain c' where "process_command T default_max_retries Command_get_write_pointer c = Some (Inr bs, c')"
    "conversing c' d" "cn_mode c' = cn_mode c"
    using command_in_conversation [OF assms(1,2) askable_requests(4) x] assms(3)
    by (auto simp: response_length_def Command_get_write_pointer_def)
  then show "\<exists>c'. get_write_pointer T c = Some (Inr (from_bytes_le bs), c') \<and> conversing c' d \<and> cn_mode c' = cn_mode c"
    by (simp add: get_write_pointer_def eff_bind_run)
qed

lemma signals_in_conversation:
  assumes "conversing c d" "ready d"
  shows "exec Command_erase_flash_memory d = (Some (Response_success []), d') \<Longrightarrow>
      \<exists>c'. erase_flash_memory T c = Some (Inr (), c') \<and> conversing c' d' \<and> cn_mode c' = cn_mode c"
    and "exec Command_reboot d = (Some (Response_success []), d') \<Longrightarrow>
      \<exists>c'. send_bootloader_reboot_command T c = Some (Inr (), c') \<and> conversing c' d' \<and> cn_mode c' = cn_mode c"
proof -
  assume x: "exec Command_erase_flash_memory d = (Some (Response_success []), d')"
  then obtain c' where "process_command T default_max_retries Command_erase_flash_memory c = Some (Inr [], c')"
    "conversing c' d'" "cn_mode c' = cn_mode c"
    using command_in_conversation [OF assms askable_requests(3) x]
    by (auto simp: response_length_def Command_erase_flash_memory_def)
  then show "\<exists>c'. erase_flash_memory T c = Some (Inr (), c') \<and> conversing c' d' \<and> cn_mode c' = cn_mode c"
    by (simp add: erase_flash_memory_def eff_bind_run)
next
  assume x: "exec Command_reboot d = (Some (Response_success []), d')"
  then obtain c' where "process_command T default_max_retries Command_reboot c = Some (Inr [], c')"
    "conversing c' d'" "cn_mode c' = cn_mode c"
    using command_in_conversation [OF assms askable_requests(5) x]
    by (auto simp: response_length_def Command_reboot_def)
  then show "\<exists>c'. send_bootloader_reboot_command T c = Some (Inr (), c') \<and> conversing c' d' \<and> cn_mode c' = cn_mode c"
    by (simp add: send_bootloader_reboot_command_def eff_bind_run)
qed

lemma program_in_conversation:
  assumes "conversing c d" "ready d" "length data \<le> 252"
  shows "exec (Command OP_PROG_MULTI data) d = (Some (Response_success []), d') \<Longrightarrow>
      \<exists>c'. program_bytes T data c = Some (Inr (), c') \<and> conversing c' d' \<and> cn_mode c' = cn_mode c"
    and "exec (Command OP_PROG_MULTI data) d = (None, d') \<Longrightarrow>
      \<exists>c'. program_bytes T data c = Some (Inl TimeoutError, c') \<and> conversing c' d' \<and> cn_mode c' = cn_mode c"
proof -
  have build: "Command_program_bytes data = Inr (Command OP_PROG_MULTI data)"
    using assms(3) by (simp add: Command_program_bytes_def PROG_MULTI_MAX_PAYLOAD_LENGTH_def)
  {
    assume x: "exec (Command OP_PROG_MULTI data) d = (Some (Response_success []), d')"
    then obtain c' where "process_command T 0 (Command OP_PROG_MULTI data) c = Some (Inr [], c')"
      "conversing c' d'" "cn_mode c' = cn_mode c"
      using command_in_conversation [OF assms(1,2) askable_requests(7) [OF assms(3)] x]
      by (auto simp: response_length_def)
    then show "\<exists>c'. program_bytes T data c = Some (Inr (), c') \<and> conversing c' d' \<and> cn_mode c' = cn_mode c"
      by (simp add: program_bytes_def build eff_bind_run)
  next
    assume "exec (Command OP_PROG_MULTI data) d = (None, d')"
    then obtain c' where "process_command T 0 (Command OP_PROG_MULTI data) c = Some (Inl TimeoutError, c')"
      "conversing c' d'" "cn_mode c' = cn_mode c"
      using command_lost_in_conversation [OF assms(1,2) askable_requests(7) [OF assms(3)]] by blast
    then show "\<exists>c'. program_bytes T data c = Some (Inl TimeoutError, c') \<and> conversing c' d' \<and> cn_mode c' = cn_mode c"
      by (simp add: program_bytes_def build eff_bind_run)
  }
qed

text \<open>The serial number: three words, each answered in reverse order of its bytes.\<close>

lemma serial_words_in_conversation:
  assumes "ready d" "\<And>a. a \<in> set addresses \<Longrightarrow> 0 \<le> a \<and> a < 2 ^ 32 \<and> length (word a) = 4 \<and>
      exec (Command OP_GET_SN (le_digits 4 a)) d = (Some (Response_success (word a)), d)"
  shows "conversing c d \<Longrightarrow> \<exists>c'. read_serial_words T addresses res c =
      Some (Inr (res @ concat (map (\<lambda>a. rev (word a)) addresses)), c') \<and> conversing c' d \<and> cn_mode c' = cn_mode c"
  using assms(2)
proof (induction addresses arbitrary: c res)
  case (Cons a addresses)
  have a: "0 \<le> a" "a < 2 ^ 32" "length (word a) = 4"
    "exec (Command OP_GET_SN (le_digits 4 a)) d = (Some (Response_success (word a)), d)"
    using Cons.prems(2) [of a] by auto
  then have build: "Command_read_word_from_serial_number_area a = Inr (Command OP_GET_SN (le_digits 4 a))"
    by (simp add: Command_read_word_from_serial_number_area_def to_bytes_le_ok)
  have "askable (Command OP_GET_SN (le_digits 4 a))" by (rule askable_requests(6)) simp
  with command_in_conversation [OF Cons.prems(1) assms(1) _ a(4)] a(3) obtain c1 where c1:
    "process_command T default_max_retries (Command OP_GET_SN (le_digits 4 a)) c = Some (Inr (word a), c1)"
    "conversing c1 d" "cn_mode c1 = cn_mode c"
    by (auto simp: response_length_def)
  from Cons.IH [OF c1(2), of "res @ rev (word a)"] Cons.prems(2) obtain c' where
    "read_serial_words T addresses (res @ rev (word a)) c1 =
      Some (Inr ((res @ rev (word a)) @ concat (map (\<lambda>a. rev (word a)) addresses)), c')"
    "conversing c' d" "cn_mode c' = cn_mode c1"
    by auto
  with c1 show ?case by (simp add: build eff_bind_run)
qed simp

text \<open>The first attempt succeeds, so no reboot command is sent and \<open>on_rebooted\<close> is not called.\<close>

lemma ensure_in_bootloader_in_conversation:
  assumes "conversing c d" "ready d" "exec (Command_get_device_info BOARD_ID) d = (Some (Response_success bs), d)" "length bs = 4"
  shows "\<exists>c' c1. ensure_in_bootloader T H g c = Some (Inr (), c') \<and> conversing c' d \<and> cn_mode c' = ModeBootloader \<and>
    process_command_inner T 1 (Some 50) (Command_get_device_info BOARD_ID) (c\<lparr>cn_lock := True\<rparr>) = Some (Inr bs, c1) \<and>
    cn_world c' = cn_world c1"
proof -
  let ?c = "c\<lparr>cn_lock := True\<rparr>"
  from assms obtain w where "process_command_inner T 1 (Some 50) (Command_get_device_info BOARD_ID) ?c =
      Some (Inr bs, moved ?c synced w)" "arriving w = []" "device w = d"
    using command_answered [of ?c "Command_get_device_info BOARD_ID" bs d 1 "Some 50"] askable_requests(1) [of BOARD_ID]
    by (auto simp: conversing_def response_length_def Command_get_device_info_def)
  with assms(1) show ?thesis
    by (simp add: ensure_in_bootloader_def with_lock_def conversing_def eff_bind_run eff_catch_run quiet_synced)
qed

end

end
