(* ===== verification/Mock_Link.thy ===== *)
theory Mock_Link
  imports Dialogue
begin

text \<open>
  The mock bootloader at the other end of a link. Bytes that are sent are served by one turn of the
  mock's loop on the in-memory transport; what it answers is received in pieces whose sizes an
  arbitrary function chooses. The link provides the interface \<open>bootloader_link\<close>, so
  the lemmas about conversations hold for the mock, losses of acknowledgments included.
\<close>

type_synonym mock_world = "mock \<times> bytes"

definition mock_send :: "bytes \<Rightarrow> (mock_world, unit) eff" where
  "mock_send data w = (case w of (m, answer) \<Rightarrow>
     if mk_should_exit m then Some (Inr (), w)
     else map_option (\<lambda>(r, (m1, (_, sent))). (r, (m1, answer @ concat sent)))
            (run_once InMemoryTransport (m, ([data], []))))"

definition mock_receive :: "(bytes \<Rightarrow> nat) \<Rightarrow> nat option \<Rightarrow> (mock_world, bytes) eff" where
  "mock_receive piece timeout w = (case w of (m, answer) \<Rightarrow>
     if answer = [] then (case timeout of None \<Rightarrow> None | Some _ \<Rightarrow> Some (Inl TimeoutError, w))
     else Some (Inr (take (Suc (piece answer)) answer), (m, drop (Suc (piece answer)) answer)))"

definition mock_link :: "(bytes \<Rightarrow> nat) \<Rightarrow> mock_world transport" where
  "mock_link piece = \<lparr>tr_send = mock_send, tr_receive = mock_receive piece\<rparr>"

lemma mock_link_simps [simp]:
  "tr_send (mock_link piece) = mock_send" "tr_receive (mock_link piece) = mock_receive piece"
  by (simp_all add: mock_link_def)

definition listening :: "mock \<Rightarrow> bool" where
  "listening m \<longleftrightarrow> \<not> mk_should_exit m \<and> \<not> mk_drop_next_response m \<and> mk_buffer m = []"

lemma respond_buffer:
  "mk_buffer (snd (respond c m)) = mk_buffer m"
  "mk_drop_next_response (snd (respond c m)) = mk_drop_next_response m"
  "mk_simulate_desync (snd (respond c m)) = mk_simulate_desync m"
proof -
  obtain r m1 where "handle_command c m = (r, m1)" by fastforce
  with handle_keeps [OF this] show "mk_buffer (snd (respond c m)) = mk_buffer m"
    "mk_drop_next_response (snd (respond c m)) = mk_drop_next_response m"
    "mk_simulate_desync (snd (respond c m)) = mk_simulate_desync m"
    by (cases r; simp add: respond_def)+
qed

lemma mock_send_command:
  assumes "listening m" "OP_EOC < cmd_type c" "command_to_bytes c = Inr raw"
    and "0 \<le> payload_length c \<longrightarrow> int (length (cmd_args c)) = payload_length c"
  shows "mock_send raw (m, []) = Some (Inr (), (snd (respond c m),
    case fst (respond c m) of None \<Rightarrow> [] | Some r \<Rightarrow> response_to_bytes r))"
proof -
  have "\<exists>b w'. receive_next_command InMemoryTransport (m, ([raw], [])) = Some (Inr c, (m\<lparr>mk_buffer := b\<rparr>, w')) \<and>
      b @ concat (fst w') = [] \<and> snd w' = snd ([raw], [])"
    using assms by (intro pipe.receive_next_command_stream [where junk = "[]" and bs = raw])
      (auto simp: listening_def)
  then obtain chunks where "receive_next_command InMemoryTransport (m, ([raw], [])) =
      Some (Inr c, (m\<lparr>mk_buffer := []\<rparr>, (chunks, [])))" by auto
  moreover have "m\<lparr>mk_buffer := []\<rparr> = m" using assms(1) by (cases m) (simp add: listening_def)
  moreover obtain resp m1 where resp: "respond c m = (resp, m1)" by fastforce
  moreover have "\<not> mk_drop_next_response m1" using respond_buffer(2) [of c m] resp assms(1) by (simp add: listening_def)
  ultimately have "run_once InMemoryTransport (m, ([raw], [])) =
      Some (Inr (), (m1, (chunks, case resp of None \<Rightarrow> [] | Some r \<Rightarrow> [response_to_bytes r])))"
    by (cases resp) (simp_all add: run_once_def)
  then show ?thesis using assms(1) resp by (cases resp) (simp_all add: mock_send_def listening_def)
qed

lemma respond_sync: "respond GET_SYNC m = (Some (Response_success []), m)"
  by (simp add: respond_def handle_command_def GET_SYNC_def Command_get_sync_def)

interpretation mock: bootloader_link "mock_link piece" respond fst snd listening
  for piece
proof unfold_locales
  fix w :: mock_world and c raw
  assume "listening (fst w)" "snd w = []" "OP_EOC < cmd_type c" "command_to_bytes c = Inr raw"
    "0 \<le> payload_length c \<longrightarrow> int (length (cmd_args c)) = payload_length c"
  then show "\<exists>w'. tr_send (mock_link piece) raw w = Some (Inr (), w') \<and> fst w' = snd (respond c (fst w)) \<and>
      snd w' = (case fst (respond c (fst w)) of None \<Rightarrow> [] | Some r \<Rightarrow> response_to_bytes r)"
    using mock_send_command [of "fst w" c raw] by (cases w) simp
next
  fix w :: mock_world and t
  assume "snd w \<noteq> []"
  then show "\<exists>chunk w'. tr_receive (mock_link piece) (Some t) w = Some (Inr chunk, w') \<and> chunk \<noteq> [] \<and>
      snd w = chunk @ snd w' \<and> fst w' = fst w"
    by (cases w) (simp add: mock_receive_def)
next
  fix w :: mock_world and t
  assume "snd w = []"
  then show "\<exists>w'. tr_receive (mock_link piece) (Some t) w = Some (Inl TimeoutError, w') \<and> snd w' = [] \<and> fst w' = fst w"
    by (cases w) (simp add: mock_receive_def)
next
  fix d :: mock
  show "respond GET_SYNC d = (Some (Response_success []), d)" by (rule respond_sync)
qed

section \<open>The answers of the mock\<close>

lemma respond_number: "0 \<le> n \<Longrightarrow> n < 2 ^ 32 \<Longrightarrow> to_bytes_le 4 n = Inr (le_digits 4 n)"
  by (simp add: to_bytes_le_ok)

lemma from_le_4: "0 \<le> n \<Longrightarrow> n < 2 ^ 32 \<Longrightarrow> from_bytes_le (le_digits 4 n) = n"
  by (simp add: codec_simps)

definition mock_info :: "mock \<Rightarrow> device_info_item \<Rightarrow> int" where
  "mock_info m item = (case item of
     BL_REV \<Rightarrow> if mk_simulate_desync m then 6 else 5 | BOARD_ID \<Rightarrow> 9 | BOARD_REV \<Rightarrow> 0
   | FLASH_SIZE \<Rightarrow> int (length (mk_flash_memory m)))"

lemma mock_info_range:
  "length (mk_flash_memory m) < 2 ^ 32 \<Longrightarrow> 0 \<le> mock_info m item \<and> mock_info m item < 2 ^ 32"
  by (cases item) (auto simp: mock_info_def)

lemma respond_device_info:
  assumes "length (mk_flash_memory m) < 2 ^ 32"
  shows "respond (Command_get_device_info item) m = (Some (Response_success (le_digits 4 (mock_info m item))), m)"
proof -
  have "handle_command (Command_get_device_info item) m = (to_bytes_le 4 (mock_info m item), m)"
    by (simp add: handle_command_def Command_get_device_info_def mock_info_def)
  with respond_number mock_info_range [OF assms, of item] show ?thesis by (simp add: respond_def)
qed

lemma respond_crc:
  "respond Command_get_crc m = (Some (Response_success (le_digits 4 (crc32 (mk_flash_memory m) 0))), m)"
  using crc32_range [of 0 "mk_flash_memory m"]
  by (simp add: respond_def handle_command_def Command_get_crc_def respond_number)

lemma respond_write_pointer:
  assumes "mk_write_ptr m < 2 ^ 32"
  shows "respond Command_get_write_pointer m = (Some (Response_success (le_digits 4 (int (mk_write_ptr m)))), m)"
proof -
  have "int (mk_write_ptr m) < 2 ^ 32" using assms by simp
  then show ?thesis
    by (simp add: respond_def handle_command_def Command_get_write_pointer_def respond_number)
qed

lemma respond_erase:
  "respond Command_erase_flash_memory m = (Some (Response_success []),
     m\<lparr>mk_flash_memory := replicate (length (mk_flash_memory m)) 0xFF, mk_write_ptr := 0\<rparr>)"
  by (simp add: respond_def handle_command_def Command_erase_flash_memory_def)

lemma respond_reboot: "respond Command_reboot m = (Some (Response_success []), m\<lparr>mk_should_exit := True\<rparr>)"
  by (simp add: respond_def handle_command_def Command_reboot_def)

definition serial_word :: "mock \<Rightarrow> int \<Rightarrow> bytes" where
  "serial_word m address = (let word = take 4 (drop (nat address) (mk_serial_number m))
     in rev (word @ replicate (4 - length word) 0))"

lemma length_serial_word: "length (serial_word m a) = 4"
  by (simp add: serial_word_def Let_def)

lemma respond_serial:
  assumes "0 \<le> a" "a < 2 ^ 32"
  shows "respond (Command OP_GET_SN (le_digits 4 a)) m = (Some (Response_success (serial_word m a)), m)"
  using from_le_4 [OF assms] by (simp add: respond_def handle_command_def serial_word_def Let_def)

text \<open>A chunk that fits is written, whether or not its acknowledgment is lost.\<close>

lemma write_some:
  assumes "mk_write_ptr m + length data \<le> length (mk_flash_memory m)"
  obtains a r where "write_to_flash_memory data m = (a, m\<lparr>
      mk_flash_memory := overwrite (mk_write_ptr m) data (mk_flash_memory m),
      mk_write_ptr := mk_write_ptr m + length data, mk_random := r\<rparr>)"
    "a = Inr () \<or> a \<in> {Inl SimulatedPacketLossError, Inl SimulatedPacketDelayError} \<and> mk_simulate_desync m \<and> data \<noteq> []"
proof (cases "mk_simulate_desync m \<and> data \<noteq> []")
  case False
  have "write_to_flash_memory data m = (Inr (), m\<lparr>
      mk_flash_memory := overwrite (mk_write_ptr m) data (mk_flash_memory m),
      mk_write_ptr := mk_write_ptr m + length data, mk_random := mk_random m\<rparr>)"
    using False assms by (cases "data = []") (simp_all add: write_fits)
  then show ?thesis by (intro that [of "Inr ()" "mk_random m"]) simp_all
next
  case True
  let ?m = "m\<lparr>mk_flash_memory := overwrite (mk_write_ptr m) data (mk_flash_memory m),
      mk_write_ptr := mk_write_ptr m + length data\<rparr>"
  have "write_to_flash_memory data m =
     (if 4096 \<le> mk_write_ptr m + length data
      then (if mk_random m 0 < 1 / 100 then Inl SimulatedPacketLossError
            else if mk_random m 0 < 2 / 100 then Inl SimulatedPacketDelayError else Inr (),
            ?m\<lparr>mk_random := \<lambda>n. mk_random m (Suc n)\<rparr>)
      else (Inr (), ?m\<lparr>mk_random := mk_random m\<rparr>))"
    using True assms
    by (subst write_to_flash_memory.simps) (auto simp: Let_def overwrite_def)
  with True show ?thesis
    by (cases "4096 \<le> mk_write_ptr m + length data")
       (auto intro: that [where r = "\<lambda>n. mk_random m (Suc n)"] that [where r = "mk_random m"] split: if_splits)
qed

lemma respond_program:
  assumes "mk_write_ptr m + length data \<le> length (mk_flash_memory m)"
  obtains a r where "respond (Command OP_PROG_MULTI data) m = (a, m\<lparr>
      mk_flash_memory := overwrite (mk_write_ptr m) data (mk_flash_memory m),
      mk_write_ptr := mk_write_ptr m + length data, mk_random := r\<rparr>)"
    "a = Some (Response_success []) \<or> a = None \<and> mk_simulate_desync m \<and> data \<noteq> []"
proof -
  obtain a r where "write_to_flash_memory data m = (a, m\<lparr>
      mk_flash_memory := overwrite (mk_write_ptr m) data (mk_flash_memory m),
      mk_write_ptr := mk_write_ptr m + length data, mk_random := r\<rparr>)"
    "a = Inr () \<or> a \<in> {Inl SimulatedPacketLossError, Inl SimulatedPacketDelayError} \<and> mk_simulate_desync m \<and> data \<noteq> []"
    using assms by (rule write_some)
  then show ?thesis
    by (intro that [of "case a of Inl SimulatedPacketLossError \<Rightarrow> None | _ \<Rightarrow> Some (Response_success [])" r])
       (auto simp: respond_def handle_command_def)
qed

end
