(* ===== verification/Uploader.thy ===== *)
theory Uploader
  imports Connection Firmware
begin

text \<open>
  \<^verbatim>\<open>uploader.py\<close>: the upload of a firmware, the flashing of a bootloader and the factory reset, the
  events they report, the retry loop around them and the choice of a transport for a target. A
  task runs on a \<open>task_world\<close>: the world behind its transport, the events reported so far, the
  local flags of the method, and the fields of \<open>UploaderTask\<close>. Progress is the exact quotient
  instead of a float. A cancellation arrives where the environment or the transport is awaited, as \<open>Cancelled\<close>.
\<close>

section \<open>Events\<close>

datatype upload_step = CONNECTING | ERASING | UPLOADING | VERIFYING | REBOOTING | FINISHED

fun step_value :: "upload_step \<Rightarrow> string" where
  "step_value CONNECTING = ''connecting''"
| "step_value ERASING = ''erasing''"
| "step_value UPLOADING = ''uploading''"
| "step_value VERIFYING = ''verifying''"
| "step_value REBOOTING = ''rebooting''"
| "step_value FINISHED = ''finished''"

fun step_description :: "upload_step \<Rightarrow> string" where
  "step_description CONNECTING = ''Connecting...''"
| "step_description ERASING = ''Erasing...''"
| "step_description UPLOADING = ''Uploading...''"
| "step_description VERIFYING = ''Verifying...''"
| "step_description REBOOTING = ''Rebooting...''"
| "step_description FINISHED = ''Finished.''"

text \<open>\<open>UploaderLifecycleEvent\<close> carries type, success, cancelled and retrying.\<close>

datatype uploader_event =
    UploaderLifecycleEvent string "bool option" "bool option" "bool option"
  | UploadStepEvent upload_step
  | UploadProgressEvent rat
  | CRCMismatchEvent int int
  | LogEvent int string

definition lifecycle :: "string \<Rightarrow> uploader_event" where
  "lifecycle type = UploaderLifecycleEvent type None None None"

definition finished :: "bool \<Rightarrow> bool \<Rightarrow> bool \<Rightarrow> uploader_event" where
  "finished success cancelled retrying =
     UploaderLifecycleEvent ''finished'' (Some success) (Some cancelled) (Some retrying)"

section \<open>The world of a task\<close>

record 'w task_world =
  tw_io :: 'w
  tw_events :: "uploader_event list"
  tw_success :: bool
  tw_retrying :: bool
  tw_firmware :: "firmware option"
  tw_expected_failures :: nat
  tw_limiter :: "bool option"

text \<open>
  A transport object as the uploader gets it: how it is entered and left (\<open>__aenter__\<close>, and
  \<open>__aexit__\<close> with the pending exception), and its operations in between.
\<close>

record 'w endpoint =
  ep_enter :: "('w, unit) eff"
  ep_exit :: "exn option \<Rightarrow> ('w, unit) eff"
  ep_transport :: "'w transport"

text \<open>
  What the uploader takes from its surroundings: the \<open>ip_address\<close> test of the standard library,
  the shared UDP socket, the constructors of the transports, how many whole seconds the clock of
  the world has shown during an erasure, what the lock does to a holder that acquires it again, and SHA-256.
\<close>

record 'w environment =
  en_is_ip_address :: "string \<Rightarrow> bool"
  en_shared_udp_socket :: "('w, unit) eff"
  en_UDPTransport :: "string \<Rightarrow> int \<Rightarrow> 'w endpoint"
  en_SerialPortTransport :: "string \<Rightarrow> 'w endpoint result"
  en_erase_seconds :: "'w \<Rightarrow> nat"
  en_relock :: "exn option"
  en_sha256 :: "bytes \<Rightarrow> bytes"

definition on_io :: "('w, 'a) eff \<Rightarrow> ('w task_world, 'a) eff" where
  "on_io m w = map_option (\<lambda>(r, v). (r, w\<lparr>tw_io := v\<rparr>)) (m (tw_io w))"

definition task_transport :: "'w transport \<Rightarrow> 'w task_world transport" where
  "task_transport T = \<lparr>tr_send = \<lambda>data. on_io (tr_send T data), tr_receive = \<lambda>t. on_io (tr_receive T t)\<rparr>"

lemma task_transport_simps [simp]:
  "tr_send (task_transport T) data = on_io (tr_send T data)"
  "tr_receive (task_transport T) t = on_io (tr_receive T t)"
  by (simp_all add: task_transport_def)

definition report :: "uploader_event \<Rightarrow> 'w task_world \<Rightarrow> 'w task_world" where
  "report ev w = w\<lparr>tw_events := tw_events w @ [ev]\<rparr>"

lemma report_simps [simp]:
  "tw_io (report ev w) = tw_io w" "tw_events (report ev w) = tw_events w @ [ev]"
  "tw_success (report ev w) = tw_success w" "tw_retrying (report ev w) = tw_retrying w"
  "tw_firmware (report ev w) = tw_firmware w"
  "tw_expected_failures (report ev w) = tw_expected_failures w" "tw_limiter (report ev w) = tw_limiter w"
  by (simp_all add: report_def)

text \<open>\<open>on_event(ev)\<close> inside the \<open>async with\<close> block of the connection.\<close>

definition on_event :: "uploader_event \<Rightarrow> ('w task_world connection, unit) eff" where
  "on_event ev = eff_modify (\<lambda>c. c\<lparr>cn_world := report ev (cn_world c)\<rparr>)"

text \<open>\<open>async with BootloaderConnection(transport) as connection\<close>.\<close>

definition with_connection ::
  "exn option \<Rightarrow> 'w endpoint \<Rightarrow> ('w task_world connection, unit) eff \<Rightarrow> ('w task_world, unit) eff" where
  "with_connection relock ep body w =
     Option.bind (on_io (ep_enter ep) w) (\<lambda>(r, w1).
       case r of
         Inl e \<Rightarrow> Some (Inl e, w1)
       | Inr _ \<Rightarrow>
           Option.bind (body (BootloaderConnection relock 254 w1)) (\<lambda>(r2, c).
             map_option (\<lambda>(r3, w2). (case r3 of Inl e \<Rightarrow> Inl e | Inr _ \<Rightarrow> r2, w2))
               (on_io (ep_exit ep (case r2 of Inl e \<Rightarrow> Some e | Inr _ \<Rightarrow> None)) (cn_world c))))"

section \<open>Choosing a transport\<close>

text \<open>\<open>s.partition(sep)\<close> for a one-character separator.\<close>

definition partition_at :: "char \<Rightarrow> string \<Rightarrow> string \<times> bool \<times> string" where
  "partition_at sep s =
     (takeWhile (\<lambda>c. c \<noteq> sep) s, sep \<in> set s, tl (dropWhile (\<lambda>c. c \<noteq> sep) s))"

definition create_transport :: "'w environment \<Rightarrow> string \<Rightarrow> ('w, 'w endpoint) eff" where
  "create_transport en spec =
     (let (address, sep, port) = partition_at CHR '':'' spec in
      if sep then
        eff_bind (en_shared_udp_socket en) (\<lambda>_.
          eff_bind (eff_result (py_int port)) (\<lambda>p. eff_return (en_UDPTransport en address p)))
      else if \<not> en_is_ip_address en spec then eff_result (en_SerialPortTransport en spec)
      else eff_bind (en_shared_udp_socket en) (\<lambda>_. eff_return (en_UDPTransport en spec 14555)))"

section \<open>Uploading\<close>

definition inspect_board :: "'w transport \<Rightarrow> ('w connection, int \<times> int) eff" where
  "inspect_board T =
     eff_bind (get_flash_memory_size T) (\<lambda>flash_size.
     eff_bind (get_bootloader_revision T) (\<lambda>bl_rev.
       if bl_rev < 4 then eff_raise (NotSupportedError ''Bootloader version not supported'')
       else
         eff_bind (get_board_id T) (\<lambda>_.
         eff_bind (get_board_revision T) (\<lambda>_.
         eff_bind (get_serial_number T) (\<lambda>_.
           eff_return (flash_size, bl_rev))))))"

text \<open>The faked progress of an erasure: one value per second.\<close>

definition next_fake_progress :: "rat \<Rightarrow> rat" where
  "next_fake_progress progress =
     (let p = (if progress < 8 / 10 then progress + 1 / 10 else progress + (1 - progress) / 2)
      in if p > 99 / 100 then 99 / 100 else p)"

fun fake_progress_events :: "nat \<Rightarrow> rat \<Rightarrow> uploader_event list" where
  "fake_progress_events 0 progress = []"
| "fake_progress_events (Suc n) progress =
     UploadProgressEvent (next_fake_progress progress) # fake_progress_events n (next_fake_progress progress)"

text \<open>
  The task group that runs the erasure beside the fake progress. An exception of the erasure
  leaves the group as an \<open>ExceptionGroup\<close>, a cancellation as itself. The two tasks share only the event handler, so the
  progress events of the seconds that have passed stand between the steps.
\<close>

definition erase_stage :: "'w environment \<Rightarrow> 'w task_world transport \<Rightarrow> ('w task_world connection, unit) eff" where
  "erase_stage en T c =
     Option.bind (erase_flash_memory T c) (\<lambda>(r, c1).
       let n = en_erase_seconds en (tw_io (cn_world c1));
           c2 = c1\<lparr>cn_world := fold report (fake_progress_events n 0) (cn_world c1)\<rparr>
       in Some (case r of Inl e \<Rightarrow> Inl (if e = Cancelled then e else ExceptionGroup [e]) | Inr _ \<Rightarrow> Inr (), c2))"

text \<open>
  One turn of the upload loop; \<open>None\<close> is an unknown write pointer. After a lost acknowledgment the
  pointer is asked for and the chunk there is sent without testing it against the total again.
\<close>

definition known_write_pointer :: "'w transport \<Rightarrow> int \<Rightarrow> int option \<Rightarrow> ('w connection, int) eff" where
  "known_write_pointer T bl_rev write_pointer =
     (case write_pointer of
        Some p \<Rightarrow> eff_return p
      | None \<Rightarrow>
          if bl_rev \<ge> 6 then get_write_pointer T
          else eff_raise (RuntimeError ''acknowledgment of PROG_WRITE command lost, bootloader may be out of sync now''))"

definition program_chunk ::
  "'w task_world transport \<Rightarrow> bytes \<Rightarrow> int \<Rightarrow> ('w task_world connection, int option) eff" where
  "program_chunk T img write_pointer =
     (let chunk = take PROG_MULTI_MAX_PAYLOAD_LENGTH (drop (nat write_pointer) img) in
      eff_bind
        (eff_catch (eff_bind (program_bytes T chunk) (\<lambda>_. eff_return True))
           (\<lambda>e. if e = TimeoutError then eff_return False else eff_raise e))
        (\<lambda>acknowledged.
           if acknowledged then
             let p = write_pointer + int (length chunk) in
             eff_bind (on_event (UploadProgressEvent (of_int p / of_nat (length img))))
               (\<lambda>_. eff_return (Some p))
           else eff_return None))"

partial_function (option) upload_loop ::
  "'w task_world transport \<Rightarrow> int \<Rightarrow> bytes \<Rightarrow> int option \<Rightarrow> ('w task_world connection, unit) eff" where
  "upload_loop T bl_rev img write_pointer c =
     (if (case write_pointer of None \<Rightarrow> True | Some p \<Rightarrow> p < int (length img)) then
        Option.bind (eff_bind (known_write_pointer T bl_rev write_pointer) (program_chunk T img) c)
          (\<lambda>(r, c1). case r of
             Inl e \<Rightarrow> Some (Inl e, c1)
           | Inr write_pointer1 \<Rightarrow> upload_loop T bl_rev img write_pointer1 c1)
      else Some (Inr (), c))"

definition upload_stage ::
  "'w task_world transport \<Rightarrow> int \<Rightarrow> firmware \<Rightarrow> ('w task_world connection, unit) eff" where
  "upload_stage T bl_rev fw =
     eff_bind (on_event (UploadStepEvent UPLOADING)) (\<lambda>_.
     eff_bind (eff_result (fw_image fw)) (\<lambda>img. upload_loop T bl_rev img (Some 0)))"

text \<open>\<open>flash_size - firmware.image_size\<close> as the length of \<open>repeat\<close>: an integer (or a \<open>bool\<close>).\<close>

fun count_of_json :: "json \<Rightarrow> int result" where
  "count_of_json (JInt i) = Inr i"
| "count_of_json (JBool b) = Inr (of_bool b)"
| "count_of_json _ = Inl (OtherException ''TypeError'')"

text \<open>\<open>firmware.crc\<close>: the object, which the uploader holds, keeps the computed value.\<close>

definition firmware_crc :: "firmware \<Rightarrow> ('w task_world connection, int) eff" where
  "firmware_crc fw =
     (let (r, fw1) = fw_crc fw in
      eff_bind (eff_modify (\<lambda>c. c\<lparr>cn_world := (cn_world c)\<lparr>tw_firmware := Some fw1\<rparr>\<rparr>))
        (\<lambda>_. eff_result r))"

definition verify_stage ::
  "'w task_world transport \<Rightarrow> int \<Rightarrow> firmware \<Rightarrow> ('w task_world connection, unit) eff" where
  "verify_stage T flash_size fw =
     eff_bind (on_event (UploadStepEvent VERIFYING)) (\<lambda>_.
     eff_bind (eff_result (fw_image_size fw)) (\<lambda>size.
     eff_bind (eff_result (count_of_json size)) (\<lambda>image_size.
     eff_bind (firmware_crc fw) (\<lambda>crc.
       let expected_crc = crc32 (replicate (nat (flash_size - image_size)) 255) crc in
       eff_bind (get_flash_memory_crc T) (\<lambda>observed_crc.
         if expected_crc \<noteq> observed_crc then on_event (CRCMismatchEvent expected_crc observed_crc)
         else eff_return ())))))"

definition set_success :: "('w task_world connection, unit) eff" where
  "set_success = eff_modify (\<lambda>c. c\<lparr>cn_world := (cn_world c)\<lparr>tw_success := True\<rparr>\<rparr>)"

text \<open>The body of the \<open>async with\<close> block of \<open>upload_firmware\<close>.\<close>

definition upload_body ::
  "'w environment \<Rightarrow> 'w task_world transport \<Rightarrow> firmware \<Rightarrow> ('w task_world \<Rightarrow> 'w task_world) \<Rightarrow>
   ('w task_world connection, unit) eff" where
  "upload_body en T fw on_rebooted =
     eff_bind (ensure_in_bootloader T (en_sha256 en) (Some on_rebooted)) (\<lambda>_.
     eff_bind (inspect_board T) (\<lambda>(flash_size, bl_rev).
     eff_bind (on_event (UploadStepEvent ERASING)) (\<lambda>_.
     eff_bind (erase_stage en T) (\<lambda>_.
     eff_bind (upload_stage T bl_rev fw) (\<lambda>_.
     eff_bind (verify_stage T flash_size fw) (\<lambda>_.
     eff_bind (on_event (UploadStepEvent REBOOTING)) (\<lambda>_.
     eff_bind (reboot T (en_sha256 en) False) (\<lambda>_.
     eff_bind (on_event (UploadStepEvent FINISHED)) (\<lambda>_. set_success)))))))))"

section \<open>The three tasks\<close>

text \<open>
  The callback that a task may get to announce expected failures, and \<open>on_rebooted\<close>, which calls
  it with \<open>count\<close> and marks the attempt as one that is retried.
\<close>

type_synonym 'w failure_callback = "(nat \<Rightarrow> 'w task_world \<Rightarrow> 'w task_world) option"

definition mark_rebooted :: "nat \<Rightarrow> 'w failure_callback \<Rightarrow> 'w task_world \<Rightarrow> 'w task_world" where
  "mark_rebooted count on_expected_failure w =
     (let w1 = w\<lparr>tw_retrying := True\<rparr>
      in case on_expected_failure of None \<Rightarrow> w1 | Some f \<Rightarrow> f count w1)"

text \<open>The first two events and the local flags of an attempt.\<close>

definition begin_attempt :: "bool \<Rightarrow> 'w task_world \<Rightarrow> 'w task_world" where
  "begin_attempt expecting_failure w =
     (report (UploadStepEvent CONNECTING) (report (lifecycle ''started'') w))
       \<lparr>tw_success := False, tw_retrying := expecting_failure\<rparr>"

definition on_target ::
  "'w environment \<Rightarrow> string \<Rightarrow> ('w task_world transport \<Rightarrow> ('w task_world connection, unit) eff) \<Rightarrow>
   ('w task_world, unit) eff" where
  "on_target en port body =
     eff_bind (on_io (create_transport en port)) (\<lambda>ep.
       with_connection (en_relock en) ep (body (task_transport (ep_transport ep))))"

definition upload_firmware ::
  "'w environment \<Rightarrow> string \<Rightarrow> bool \<Rightarrow> 'w failure_callback \<Rightarrow> ('w task_world, unit) eff" where
  "upload_firmware en port expecting_failure on_expected_failure w =
     (case tw_firmware w of
        None \<Rightarrow> Some (Inl (RuntimeError ''firmware is not loaded yet''), w)
      | Some fw \<Rightarrow>
          map_option
            (\<lambda>(r, w1).
               let w2 = (if r = Inl TimeoutError then report (lifecycle ''timeout'') w1 else w1)
               in (r, report (finished (tw_success w2) (r = Inl Cancelled) (tw_retrying w2)) w2))
            (on_target en port (\<lambda>T. upload_body en T fw (mark_rebooted 3 on_expected_failure))
               (begin_attempt expecting_failure w)))"

text \<open>The other two report \<open>retrying=False\<close> at the end, whatever happened.\<close>

definition finish_attempt :: "(unit result \<times> 'w task_world) option \<Rightarrow> (unit result \<times> 'w task_world) option" where
  "finish_attempt = map_option (\<lambda>(r, w). (r, report (finished (tw_success w) (r = Inl Cancelled) False) w))"

definition run_flash_bootloader ::
  "'w environment \<Rightarrow> string \<Rightarrow> bool \<Rightarrow> 'w failure_callback \<Rightarrow> ('w task_world, unit) eff" where
  "run_flash_bootloader en port expecting_failure on_expected_failure w =
     finish_attempt
       (on_target en port
          (\<lambda>T. eff_bind (ensure_in_mavlink T (en_sha256 en) 2000 (Some (mark_rebooted 10 on_expected_failure))) (\<lambda>_.
               eff_bind (flash_bootloader T (en_sha256 en)) (\<lambda>_.
               eff_bind (on_event (UploadProgressEvent 1)) (\<lambda>_.
               eff_bind (on_event (UploadStepEvent FINISHED)) (\<lambda>_. set_success)))))
          (begin_attempt expecting_failure w))"

definition perform_factory_reset ::
  "'w environment \<Rightarrow> string \<Rightarrow> bool \<Rightarrow> 'w failure_callback \<Rightarrow> ('w task_world, unit) eff" where
  "perform_factory_reset en port expecting_failure on_expected_failure w =
     finish_attempt
       (on_target en port
          (\<lambda>T. eff_bind (ensure_in_mavlink T (en_sha256 en) 2000 (Some (mark_rebooted 10 on_expected_failure))) (\<lambda>_.
               eff_bind (reset_to_factory_defaults T (en_sha256 en)) (\<lambda>_.
               eff_bind (on_event (UploadStepEvent REBOOTING)) (\<lambda>_.
               eff_bind (eff_catch (reboot T (en_sha256 en) False)
                           (\<lambda>e. if e = BrokenResourceError then eff_return () else eff_raise e)) (\<lambda>_.
               eff_bind (on_event (UploadProgressEvent 1)) (\<lambda>_.
               eff_bind (on_event (UploadStepEvent FINISHED)) (\<lambda>_. set_success)))))))
          (begin_attempt expecting_failure w))"

section \<open>Retrying\<close>

definition expect_failure :: "nat \<Rightarrow> 'w task_world \<Rightarrow> 'w task_world" where
  "expect_failure count w = w\<lparr>tw_expected_failures := tw_expected_failures w + count\<rparr>"

text \<open>\<open>str(exc)\<close> for the exceptions whose text is used; \<open>repr\<close> is a parameter.\<close>

fun exn_text :: "exn \<Rightarrow> string" where
  "exn_text (RuntimeError s) = s"
| "exn_text (LocalProtocolError s) = s"
| "exn_text (NotSupportedError s) = s"
| "exn_text RecursionError = ''maximum recursion depth exceeded''"
| "exn_text (OSError errno s) = s"
| "exn_text _ = ''''"

fun join_text :: "string \<Rightarrow> string list \<Rightarrow> string" where
  "join_text sep [] = ''''"
| "join_text sep [s] = s"
| "join_text sep (s # ss) = s @ sep @ join_text sep ss"

definition exception_reasons :: "(exn \<Rightarrow> string) \<Rightarrow> exn list \<Rightarrow> string list" where
  "exception_reasons repr exceptions =
     map (\<lambda>e. if is_RuntimeError e \<or> is_OSError e then exn_text e else repr e)
       (filter (\<lambda>e. e \<noteq> TimeoutError) exceptions)"

text \<open>\<open>errno.ENOENT\<close> and \<open>errno.EADDRINUSE\<close>, with their values on Linux.\<close>

fun not_worth_retrying :: "exn \<Rightarrow> bool" where
  "not_worth_retrying (OSError (Some errno) s) = (errno \<in> {2, 98})"
| "not_worth_retrying _ = False"

definition handle_exceptions ::
  "(exn \<Rightarrow> string) \<Rightarrow> exn list \<Rightarrow> 'w task_world \<Rightarrow> (string \<times> bool) \<times> 'w task_world" where
  "handle_exceptions repr exceptions w =
     (if tw_expected_failures w > 0
      then (('''', True), w\<lparr>tw_expected_failures := tw_expected_failures w - 1\<rparr>)
      else
        let reasons = exception_reasons repr exceptions;
            message = (if reasons \<noteq> [] then ''Upload failed: '' @ join_text '', '' reasons
                       else if TimeoutError \<in> set exceptions then ''Upload timed out''
                       else ''Upload failed'')
        in ((message, \<not> list_ex not_worth_retrying exceptions), w))"

text \<open>
  One call of \<open>func\<close> with a token of the limiter (\<open>tw_limiter\<close>: absent, or whether this task
  holds a token of it), which is returned on every way out.
\<close>

definition limited ::
  "('w task_world, unit) eff \<Rightarrow> ('w task_world, unit) eff" where
  "limited m w =
     (case tw_limiter w of
        None \<Rightarrow> m w
      | Some True \<Rightarrow> Some (Inl (RuntimeError ''this borrower is already holding one of this CapacityLimiter's tokens''), w)
      | Some False \<Rightarrow>
          map_option (\<lambda>(r, w1). (r, w1\<lparr>tw_limiter := Some False\<rparr>)) (m (w\<lparr>tw_limiter := Some True\<rparr>)))"

fun caught :: "exn \<Rightarrow> exn list" where
  "caught (ExceptionGroup exceptions) = exceptions"
| "caught e = [e]"

text \<open>What follows a failed call: the next value of \<open>attempt\<close>, with what is logged.\<close>

definition next_attempt ::
  "(exn \<Rightarrow> string) \<Rightarrow> int \<Rightarrow> int \<Rightarrow> exn \<Rightarrow> 'w task_world \<Rightarrow> int \<times> 'w task_world" where
  "next_attempt repr retries attempt e w =
     (let ((message, should_retry), w1) = handle_exceptions repr (caught e) w;
          attempt1 = (if should_retry then attempt else retries)
      in (attempt1 + 1,
          if attempt1 < retries
          then (if message \<noteq> '''' then report (LogEvent 30 (message @ '', retrying...'')) w1 else w1)
          else report (LogEvent 40 message) w1))"

lemma next_attempt_later: "next_attempt repr retries attempt e w = (attempt1, w1) \<Longrightarrow> attempt \<le> retries \<Longrightarrow> attempt < attempt1"
  by (auto simp: next_attempt_def Let_def split: prod.splits)

function run_attempts ::
  "(exn \<Rightarrow> string) \<Rightarrow> (bool \<Rightarrow> ('w task_world, unit) eff) \<Rightarrow> int \<Rightarrow> int \<Rightarrow> ('w task_world, unit) eff" where
  "run_attempts repr func retries attempt w =
     (if attempt \<le> retries then
        Option.bind (limited (func (tw_expected_failures w > 0)) w) (\<lambda>(r, w1).
          case r of
            Inr _ \<Rightarrow> Some (Inr (), w1)
          | Inl e \<Rightarrow>
              if e = Cancelled then Some (Inl e, w1)
              else
              let (attempt1, w2) = next_attempt repr retries attempt e w1
              in run_attempts repr func retries attempt1 w2)
      else Some (Inr (), w))"
  by pat_completeness auto
termination
  by (relation "measure (\<lambda>(repr, func, retries, attempt, w). nat (retries + 1 - attempt))")
     (auto dest: next_attempt_later split: prod.splits)

declare run_attempts.simps [simp del]

text \<open>\<open>UploaderTask(port).run(func, ...)\<close>.\<close>

definition UploaderTask_run ::
  "(exn \<Rightarrow> string) \<Rightarrow> (bool \<Rightarrow> 'w failure_callback \<Rightarrow> ('w task_world, unit) eff) \<Rightarrow> int \<Rightarrow>
   ('w task_world, unit) eff" where
  "UploaderTask_run repr func retries w =
     run_attempts repr (\<lambda>expecting_failure. func expecting_failure (Some expect_failure)) retries 0
       (w\<lparr>tw_expected_failures := 0\<rparr>)"

definition start_upload_to :: "(exn \<Rightarrow> string) \<Rightarrow> 'w environment \<Rightarrow> int \<Rightarrow> string \<Rightarrow> ('w task_world, unit) eff" where
  "start_upload_to repr en retries port = UploaderTask_run repr (upload_firmware en port) retries"

definition start_flash_bootloader_on ::
  "(exn \<Rightarrow> string) \<Rightarrow> 'w environment \<Rightarrow> int \<Rightarrow> string \<Rightarrow> ('w task_world, unit) eff" where
  "start_flash_bootloader_on repr en retries port = UploaderTask_run repr (run_flash_bootloader en port) retries"

definition start_factory_reset_on ::
  "(exn \<Rightarrow> string) \<Rightarrow> 'w environment \<Rightarrow> int \<Rightarrow> string \<Rightarrow> ('w task_world, unit) eff" where
  "start_factory_reset_on repr en retries port = UploaderTask_run repr (perform_factory_reset en port) retries"

end
