(* ===== verification/Upload_Mock.thy ===== *)
theory Upload_Mock
  imports Uploader Mock_Link
begin

text \<open>
  An upload from end to end: the uploader, the connection and the protocol machine on one side, the
  mock bootloader on the other, and between them a link that cuts the answers into arbitrary pieces
  and may lose acknowledgments. The conversation lemmas are lifted to the world of a task; its
  other fields are covered by the frame of the connection's operations.
\<close>

section \<open>The world of a task around the link\<close>

text \<open>All that the transport does not touch.\<close>

definition beside :: "'w task_world \<Rightarrow> uploader_event list \<times> bool \<times> bool \<times> firmware option \<times> nat \<times> bool option" where
  "beside w = (tw_events w, tw_success w, tw_retrying w, tw_firmware w, tw_expected_failures w, tw_limiter w)"

lemma beside_io [simp]: "beside (w\<lparr>tw_io := v\<rparr>) = beside w"
  by (simp add: beside_def)

lemma beside_on_io: "on_io m w = Some (r, w') \<Longrightarrow> beside w' = beside w"
  by (auto simp: on_io_def)

interpretation task_frame: world_frame "task_transport T" "\<lambda>w w'. beside w' = beside w" for T
  by unfold_locales (auto simp: beside_on_io)

interpretation task: bootloader_link "task_transport (mock_link piece)" respond
    "\<lambda>w. fst (tw_io w)" "\<lambda>w. snd (tw_io w)" listening
  for piece
proof unfold_locales
  fix w :: "mock_world task_world" and c raw
  assume "listening (fst (tw_io w))" "snd (tw_io w) = []" "OP_EOC < cmd_type c"
    "0 \<le> payload_length c \<longrightarrow> int (length (cmd_args c)) = payload_length c" "command_to_bytes c = Inr raw"
  from mock.answers [OF this] obtain v where "mock_send raw (tw_io w) = Some (Inr (), v)"
    "fst v = snd (respond c (fst (tw_io w)))"
    "snd v = (case fst (respond c (fst (tw_io w))) of None \<Rightarrow> [] | Some r \<Rightarrow> response_to_bytes r)"
    by auto
  then show "\<exists>w'. tr_send (task_transport (mock_link piece)) raw w = Some (Inr (), w') \<and>
      fst (tw_io w') = snd (respond c (fst (tw_io w))) \<and>
      snd (tw_io w') = (case fst (respond c (fst (tw_io w))) of None \<Rightarrow> [] | Some r \<Rightarrow> response_to_bytes r)"
    by (simp add: on_io_def)
next
  fix w :: "mock_world task_world" and t
  assume "snd (tw_io w) \<noteq> []"
  then show "\<exists>chunk w'. tr_receive (task_transport (mock_link piece)) (Some t) w = Some (Inr chunk, w') \<and>
      chunk \<noteq> [] \<and> snd (tw_io w) = chunk @ snd (tw_io w') \<and> fst (tw_io w') = fst (tw_io w)"
    using mock.delivers [of "tw_io w" piece t] by (auto simp: on_io_def)
next
  fix w :: "mock_world task_world" and t
  assume "snd (tw_io w) = []"
  then show "\<exists>w'. tr_receive (task_transport (mock_link piece)) (Some t) w = Some (Inl TimeoutError, w') \<and>
      snd (tw_io w') = [] \<and> fst (tw_io w') = fst (tw_io w)"
    using mock.silent [of "tw_io w" piece t] by (auto simp: on_io_def)
qed (rule respond_sync)

abbreviation link :: "(bytes \<Rightarrow> nat) \<Rightarrow> mock_world task_world transport" where
  "link piece \<equiv> task_transport (mock_link piece)"

text \<open>A connection in conversation with the mock \<open>m\<close>, in bootloader mode, with \<open>b\<close> beside the link.\<close>

definition talks where
  "talks c m b \<longleftrightarrow> task.conversing c m \<and> listening m \<and> cn_mode c = ModeBootloader \<and> beside (cn_world c) = b"

lemma talks_step:
  assumes "\<exists>c'. f c = Some (r, c') \<and> task.conversing c' m' \<and> cn_mode c' = cn_mode c"
    and "talks c m b" "task_frame.framed f" "listening m'"
  shows "\<exists>c'. f c = Some (r, c') \<and> talks c' m' b"
proof -
  from assms(1) obtain c' where c': "f c = Some (r, c')" "task.conversing c' m'" "cn_mode c' = cn_mode c" by blast
  with task_frame.framedD [OF assms(3) c'(1)] assms(2,4) show ?thesis by (simp add: talks_def)
qed

lemma talksD: "talks c m b \<Longrightarrow> task.conversing c m" "talks c m b \<Longrightarrow> listening m"
  by (simp_all add: talks_def)

lemma framed_device_info: "task_frame.framed (get_device_info (link piece) item)"
  unfolding get_device_info_def by (intro framed_intros)

lemma talks_device_info:
  assumes "talks c m b" "length (mk_flash_memory m) < 2 ^ 32"
  shows "\<exists>c'. get_device_info (link piece) item c = Some (Inr (mock_info m item), c') \<and> talks c' m b"
proof -
  have n: "from_bytes_le (le_digits 4 (mock_info m item)) = mock_info m item"
    using mock_info_range [OF assms(2), of item] by (simp add: from_le_4)
  show ?thesis
    using task.get_device_info_in_conversation [OF talksD [OF assms(1)] respond_device_info [OF assms(2)],
        where piece = piece and item = item]
    by (intro talks_step [OF _ assms(1) framed_device_info talksD(2) [OF assms(1)]]) (simp add: n)
qed

lemma talks_crc:
  assumes "talks c m b"
  shows "\<exists>c'. get_flash_memory_crc (link piece) c = Some (Inr (crc32 (mk_flash_memory m) 0), c') \<and> talks c' m b"
proof -
  have n: "from_bytes_le (le_digits 4 (crc32 (mk_flash_memory m) 0)) = crc32 (mk_flash_memory m) 0"
    using crc32_range [of 0 "mk_flash_memory m"] by (simp add: from_le_4)
  show ?thesis
    using task.numbers_in_conversation(1) [OF talksD [OF assms] length_le_digits respond_crc, where piece = piece]
    by (intro talks_step [OF _ assms task_frame.framed_requests(7) talksD(2) [OF assms]]) (simp add: n)
qed

lemma talks_write_pointer:
  assumes "talks c m b" "mk_write_ptr m < 2 ^ 32"
  shows "\<exists>c'. get_write_pointer (link piece) c = Some (Inr (int (mk_write_ptr m)), c') \<and> talks c' m b"
proof -
  have "int (mk_write_ptr m) < 2 ^ 32" using assms(2) by simp
  then have n: "from_bytes_le (le_digits 4 (int (mk_write_ptr m))) = int (mk_write_ptr m)" by (simp add: from_le_4)
  show ?thesis
    using task.numbers_in_conversation(2) [OF talksD [OF assms(1)] length_le_digits respond_write_pointer [OF assms(2)],
        where piece = piece]
    by (intro talks_step [OF _ assms(1) task_frame.framed_requests(8) talksD(2) [OF assms(1)]]) (simp add: n)
qed

lemma talks_erase:
  assumes "talks c m b"
  shows "\<exists>c'. erase_flash_memory (link piece) c = Some (Inr (), c') \<and>
    talks c' (m\<lparr>mk_flash_memory := replicate (length (mk_flash_memory m)) 0xFF, mk_write_ptr := 0\<rparr>) b"
  using talksD(2) [OF assms]
  by (intro talks_step [OF task.signals_in_conversation(1) [OF talksD [OF assms] respond_erase] assms
        task_frame.framed_requests(6)]) (simp add: listening_def)

lemma talks_serial:
  assumes "talks c m b"
  shows "\<exists>s c'. get_serial_number (link piece) c = Some (Inr s, c') \<and> talks c' m b"
proof -
  have "\<exists>c'. get_serial_number (link piece) c = Some (Inr (concat (map (\<lambda>a. rev (serial_word m a)) [0, 4, 8])), c')
      \<and> task.conversing c' m \<and> cn_mode c' = cn_mode c"
    unfolding get_serial_number_def
    using task.serial_words_in_conversation [OF talksD(2) [OF assms] _ talksD(1) [OF assms], where piece = piece
        and addresses = "[0, 4, 8]" and res = "[]" and word = "serial_word m"]
    by (fastforce simp: length_serial_word respond_serial)
  from talks_step [OF this assms task_frame.framed_serial talksD(2) [OF assms]] show ?thesis by blast
qed

text \<open>A program command: executed, and acknowledged or not.\<close>

definition programmed :: "bytes \<Rightarrow> mock \<Rightarrow> (nat \<Rightarrow> rat) \<Rightarrow> mock" where
  "programmed data m r = m\<lparr>mk_flash_memory := overwrite (mk_write_ptr m) data (mk_flash_memory m),
      mk_write_ptr := mk_write_ptr m + length data, mk_random := r\<rparr>"

lemma talks_program:
  assumes "talks c m b" "length data \<le> 252" "mk_write_ptr m + length data \<le> length (mk_flash_memory m)"
  obtains r c' e where "program_bytes (link piece) data c = Some (e, c')" "talks c' (programmed data m r) b"
    "e = Inr () \<or> e = Inl TimeoutError \<and> mk_simulate_desync m \<and> data \<noteq> []"
proof -
  from respond_program [OF assms(3)] obtain a r where
    x: "respond (Command OP_PROG_MULTI data) m = (a, programmed data m r)"
    and a: "a = Some (Response_success []) \<or> a = None \<and> mk_simulate_desync m \<and> data \<noteq> []"
    unfolding programmed_def .
  have l: "listening (programmed data m r)" using talksD(2) [OF assms(1)] by (simp add: listening_def programmed_def)
  show ?thesis
  proof (cases a)
    case None
    with talks_step [OF task.program_in_conversation(2) [OF talksD [OF assms(1)] assms(2), where piece = piece] assms(1)
        task_frame.framed_requests(9) l] x a that show ?thesis by blast
  next
    case (Some y)
    with a have "a = Some (Response_success [])" by simp
    with talks_step [OF task.program_in_conversation(1) [OF talksD [OF assms(1)] assms(2), where piece = piece] assms(1)
        task_frame.framed_requests(9) l] x that show ?thesis by blast
  qed
qed

section \<open>Events beside the conversation\<close>

definition noted :: "uploader_event list \<Rightarrow> uploader_event list \<times> 'b \<Rightarrow> uploader_event list \<times> 'b" where
  "noted evs b = (fst b @ evs, snd b)"

lemma noted_simps [simp]: "noted es (noted ds b) = noted (ds @ es) b" "noted [] b = b"
  by (simp_all add: noted_def)

lemma beside_report [simp]: "beside (report ev w) = noted [ev] (beside w)"
  by (simp add: beside_def noted_def)

lemma talks_world:
  assumes "talks c m b" "tw_io w = tw_io (cn_world c)"
  shows "talks (c\<lparr>cn_world := w\<rparr>) m (beside w)"
  using assms by (simp add: talks_def task.conversing_def)

lemma talks_event:
  "talks c m b \<Longrightarrow> \<exists>c'. on_event ev c = Some (Inr (), c') \<and> talks c' m (noted [ev] b)"
  using talks_world [of c m b "report ev (cn_world c)"] by (auto simp: on_event_def talks_def)

section \<open>The upload loop\<close>

text \<open>The flash memory after \<open>p\<close> bytes of the image.\<close>

definition partly_written :: "bytes \<Rightarrow> bytes \<Rightarrow> nat \<Rightarrow> mock \<Rightarrow> bool" where
  "partly_written img blank p m \<longleftrightarrow> p \<le> length img \<and> length img \<le> length blank \<and> length blank < 2 ^ 32 \<and>
     mk_flash_memory m = take p img @ drop p blank \<and> mk_write_ptr m = p"

lemma partly_written_programmed:
  fixes img p
  defines "chunk \<equiv> take PROG_MULTI_MAX_PAYLOAD_LENGTH (drop p img)"
  assumes "partly_written img blank p m"
  shows "partly_written img blank (p + length chunk) (programmed chunk m r)"
proof -
  have n: "p + length chunk \<le> length img" and p: "p \<le> length img"
    using assms by (auto simp: partly_written_def)
  have "take (p + length chunk) img = take p img @ chunk"
    by (simp add: take_add assms(1)) (simp add: min_def)
  with assms(2) n show ?thesis
    by (simp add: partly_written_def programmed_def overwrite_def) (simp add: ac_simps)
qed

lemma talks_chunk:
  assumes t: "talks c m b" and w: "partly_written img blank p m"
  shows "\<exists>wp c' m' p' ps. program_chunk (link piece) img (int p) c = Some (Inr wp, c') \<and>
    talks c' m' (noted (map UploadProgressEvent ps) b) \<and> partly_written img blank p' m' \<and>
    (wp = Some (int p') \<or> wp = None \<and> mk_simulate_desync m \<and> p < p') \<and> p \<le> p' \<and> (p < length img \<longrightarrow> p < p') \<and>
    mk_simulate_desync m' = mk_simulate_desync m"
proof -
  let ?chunk = "take PROG_MULTI_MAX_PAYLOAD_LENGTH (drop p img)"
  have len: "length ?chunk \<le> 252" by (simp add: PROG_MULTI_MAX_PAYLOAD_LENGTH_def)
  have fits: "mk_write_ptr m + length ?chunk \<le> length (mk_flash_memory m)"
    using w by (auto simp: partly_written_def)
  obtain r c1 e where c1: "program_bytes (link piece) ?chunk c = Some (e, c1)" "talks c1 (programmed ?chunk m r) b"
    "e = Inr () \<or> e = Inl TimeoutError \<and> mk_simulate_desync m \<and> ?chunk \<noteq> []"
    by (rule talks_program [OF t len fits])
  let ?m = "programmed ?chunk m r" and ?p = "p + length ?chunk"
  have written: "partly_written img blank ?p ?m" by (rule partly_written_programmed [OF w])
  have grows: "p < length img \<longrightarrow> p < ?p" by (simp add: PROG_MULTI_MAX_PAYLOAD_LENGTH_def)
  have desync: "mk_simulate_desync ?m = mk_simulate_desync m" by (simp add: programmed_def)
  show ?thesis
  proof (cases "e = Inr ()")
    case True
    let ?q = "of_int (int p + int (length ?chunk)) / of_nat (length img) :: rat"
    obtain c2 where c2: "on_event (UploadProgressEvent ?q) c1 = Some (Inr (), c2)"
      "talks c2 ?m (noted [UploadProgressEvent ?q] b)"
      using talks_event [OF c1(2)] by blast
    have "program_chunk (link piece) img (int p) c = Some (Inr (Some (int ?p)), c2)"
      using c1(1) c2(1) True by (simp add: program_chunk_def Let_def eff_bind_run eff_catch_run)
    with c2(2) written grows desync show ?thesis
      by (intro exI [of _ "Some (int ?p)"] exI [of _ c2] exI [of _ ?m] exI [of _ ?p] exI [of _ "[?q]"]) simp
  next
    case False
    with c1(3) have e: "e = Inl TimeoutError" "mk_simulate_desync m" "?chunk \<noteq> []" by auto
    have "eff_bind (program_bytes (link piece) ?chunk) (\<lambda>_. eff_return True) c = Some (Inl TimeoutError, c1)"
      using c1(1) e(1) by (simp add: eff_bind_run)
    then have "program_chunk (link piece) img (int p) c = Some (Inr None, c1)"
      by (simp add: program_chunk_def Let_def eff_bind_def eff_catch_def)
    with c1(2) written e grows desync show ?thesis
      by (intro exI [of _ None] exI [of _ c1] exI [of _ ?m] exI [of _ ?p] exI [of _ "[]"]) simp
  qed
qed

lemma talks_upload:
  assumes "talks c m b" "partly_written img blank p m"
    and "wp = Some (int p) \<or> wp = None" "wp = None \<or> mk_simulate_desync m \<longrightarrow> 6 \<le> bl_rev"
  shows "\<exists>c' m' ps. upload_loop (link piece) bl_rev img wp c = Some (Inr (), c') \<and>
    talks c' m' (noted (map UploadProgressEvent ps) b) \<and> partly_written img blank (length img) m'"
  using assms
proof (induction "2 * (length img - p) + (if wp = None then 1 else 0)" arbitrary: c m b p wp rule: less_induct)
  case less
  show ?case
  proof (cases "wp = Some (int (length img))")
    case True
    with less.prems(3) have p: "p = length img" by auto
    from less.prems(1,2) show ?thesis unfolding p True
      by (intro exI [of _ c] exI [of _ m] exI [of _ "[]"]) (simp add: upload_loop.simps [of _ _ _ "Some _"])
  next
    case False
    have ptr: "mk_write_ptr m = p" "p < 2 ^ 32" using less.prems(2) by (auto simp: partly_written_def)
    obtain c1 where c1: "known_write_pointer (link piece) bl_rev wp c = Some (Inr (int p), c1)" "talks c1 m b"
      using less.prems(1,3,4) talks_write_pointer [OF less.prems(1), of piece] ptr
      by (cases wp) (auto simp: known_write_pointer_def)
    obtain wp2 c2 m2 p2 ps where c2: "program_chunk (link piece) img (int p) c1 = Some (Inr wp2, c2)"
      "talks c2 m2 (noted (map UploadProgressEvent ps) b)" "partly_written img blank p2 m2"
      "wp2 = Some (int p2) \<or> wp2 = None \<and> mk_simulate_desync m \<and> p < p2" "p \<le> p2" "p < length img \<longrightarrow> p < p2"
      "mk_simulate_desync m2 = mk_simulate_desync m"
      using talks_chunk [OF c1(2) less.prems(2), of piece] by blast
    have guard: "case wp of None \<Rightarrow> True | Some q \<Rightarrow> q < int (length img)"
      using False less.prems(2,3) by (auto simp: partly_written_def split: option.splits)
    have loop: "upload_loop (link piece) bl_rev img wp c = upload_loop (link piece) bl_rev img wp2 c2"
      using guard c1(1) c2(1) by (subst upload_loop.simps) (simp add: eff_bind_run)
    have bounds: "p2 \<le> length img" "p \<le> length img" using c2(3) less.prems(2) by (simp_all add: partly_written_def)
    have smaller: "2 * (length img - p2) + (if wp2 = None then 1 else 0) < 2 * (length img - p) + (if wp = None then 1 else 0)"
      using guard c2(4,5,6) bounds less.prems(3) by (cases "p < length img") auto
    from less.hyps [OF smaller c2(2,3)] c2(4,7) less.prems(4) obtain c' m' qs where
      "upload_loop (link piece) bl_rev img wp2 c2 = Some (Inr (), c')"
      "talks c' m' (noted (map UploadProgressEvent ps @ map UploadProgressEvent qs) b)" "partly_written img blank (length img) m'"
      by auto
    with loop show ?thesis by (auto simp: map_append [symmetric] simp del: map_append)
  qed
qed

section \<open>The other stages\<close>

lemma talks_start:
  assumes "tw_io w = (m, [])" "listening m" "length (mk_flash_memory m) < 2 ^ 32"
  shows "\<exists>c'. ensure_in_bootloader (link piece) H (Some (mark_rebooted n cb)) (BootloaderConnection relock 254 w) =
      Some (Inr (), c') \<and> talks c' m (beside w)"
proof -
  let ?c = "BootloaderConnection relock 254 w"
  have c: "task.conversing ?c m" "cn_world ?c = w"
    using assms(1) by (simp_all add: task.conversing_def BootloaderConnection_def quiet_new)
  obtain c' c1 where e: "ensure_in_bootloader (link piece) H (Some (mark_rebooted n cb)) ?c = Some (Inr (), c')"
    "task.conversing c' m" "cn_mode c' = ModeBootloader" "cn_world c' = cn_world c1"
    and run: "process_command_inner (link piece) 1 (Some 50) (Command_get_device_info BOARD_ID) (?c\<lparr>cn_lock := True\<rparr>) =
      Some (Inr (le_digits 4 (mock_info m BOARD_ID)), c1)"
    using task.ensure_in_bootloader_in_conversation [OF c(1) assms(2) respond_device_info [OF assms(3)] length_le_digits]
    by blast
  have "beside (cn_world c1) = beside w"
    using task_frame.framedD [OF task_frame.framed_command(1) run] c(2) by simp
  with e assms(2) show ?thesis by (auto simp: talks_def)
qed

lemma talks_inspect:
  assumes "talks c m b" "length (mk_flash_memory m) < 2 ^ 32"
  shows "\<exists>c'. inspect_board (link piece) c =
    Some (Inr (int (length (mk_flash_memory m)), if mk_simulate_desync m then 6 else 5), c') \<and> talks c' m b"
proof -
  obtain c1 where 1: "get_flash_memory_size (link piece) c = Some (Inr (mock_info m FLASH_SIZE), c1)" "talks c1 m b"
    using talks_device_info [OF assms] unfolding get_flash_memory_size_def by blast
  obtain c2 where 2: "get_bootloader_revision (link piece) c1 = Some (Inr (mock_info m BL_REV), c2)" "talks c2 m b"
    using talks_device_info [OF 1(2) assms(2)] unfolding get_bootloader_revision_def by blast
  obtain c3 where 3: "get_board_id (link piece) c2 = Some (Inr (mock_info m BOARD_ID), c3)" "talks c3 m b"
    using talks_device_info [OF 2(2) assms(2)] unfolding get_board_id_def by blast
  obtain c4 where 4: "get_board_revision (link piece) c3 = Some (Inr (mock_info m BOARD_REV), c4)" "talks c4 m b"
    using talks_device_info [OF 3(2) assms(2)] unfolding get_board_revision_def by blast
  obtain s c5 where 5: "get_serial_number (link piece) c4 = Some (Inr s, c5)" "talks c5 m b"
    using talks_serial [OF 4(2)] by blast
  have "\<not> mock_info m BL_REV < 4" by (simp add: mock_info_def)
  with 1 2 3 4 5 show ?thesis
    by (intro exI [of _ c5]) (simp add: inspect_board_def eff_bind_run mock_info_def)
qed

lemma beside_reports: "beside (fold report evs w) = noted evs (beside w)"
  by (induction evs arbitrary: w) (simp_all add: noted_def)

lemma io_reports: "tw_io (fold report evs w) = tw_io w"
  by (induction evs arbitrary: w) simp_all

text \<open>The events of an erasure: fake progress only.\<close>

lemma fake_progress_shape: "\<exists>ps. fake_progress_events n p = map UploadProgressEvent ps"
proof (induction n arbitrary: p)
  case (Suc n)
  from Suc [of "next_fake_progress p"] obtain ps where "fake_progress_events n (next_fake_progress p) = map UploadProgressEvent ps"
    by blast
  then show ?case by (intro exI [of _ "next_fake_progress p # ps"]) simp
qed simp

lemma talks_erase_stage:
  assumes "talks c m b"
  shows "\<exists>c' ps. erase_stage en (link piece) c = Some (Inr (), c') \<and>
    talks c' (m\<lparr>mk_flash_memory := replicate (length (mk_flash_memory m)) 0xFF, mk_write_ptr := 0\<rparr>)
      (noted (map UploadProgressEvent ps) b)"
proof -
  let ?m = "m\<lparr>mk_flash_memory := replicate (length (mk_flash_memory m)) 0xFF, mk_write_ptr := 0\<rparr>"
  obtain c1 where c1: "erase_flash_memory (link piece) c = Some (Inr (), c1)" "talks c1 ?m b"
    using talks_erase [OF assms] by blast
  let ?n = "en_erase_seconds en (tw_io (cn_world c1))"
  obtain ps where ps: "fake_progress_events ?n 0 = map UploadProgressEvent ps" using fake_progress_shape by blast
  let ?w = "fold report (fake_progress_events ?n 0) (cn_world c1)"
  have "talks (c1\<lparr>cn_world := ?w\<rparr>) ?m (beside ?w)"
    by (rule talks_world [OF c1(2)]) (simp add: io_reports)
  moreover have "beside ?w = noted (map UploadProgressEvent ps) b"
    using c1(2) by (simp add: beside_reports ps talks_def)
  ultimately show ?thesis using c1(1)
    by (intro exI [of _ "c1\<lparr>cn_world := ?w\<rparr>"] exI [of _ ps]) (simp add: erase_stage_def Let_def)
qed

lemma talks_upload_stage:
  assumes "talks c m b" "fw_image_data fw = Some img" "length img \<le> length (mk_flash_memory m)"
    and "mk_flash_memory m = replicate (length (mk_flash_memory m)) 0xFF" "mk_write_ptr m = 0"
    and "length (mk_flash_memory m) < 2 ^ 32" "mk_simulate_desync m \<longrightarrow> 6 \<le> bl_rev"
  shows "\<exists>c' m' ps. upload_stage (link piece) bl_rev fw c = Some (Inr (), c') \<and>
    talks c' m' (noted (UploadStepEvent UPLOADING # map UploadProgressEvent ps) b) \<and>
    mk_flash_memory m' = img @ replicate (length (mk_flash_memory m) - length img) 0xFF"
proof -
  let ?blank = "replicate (length (mk_flash_memory m)) (0xFF :: byte)"
  obtain c1 where c1: "on_event (UploadStepEvent UPLOADING) c = Some (Inr (), c1)"
    "talks c1 m (noted [UploadStepEvent UPLOADING] b)"
    using talks_event [OF assms(1)] by blast
  have "partly_written img ?blank 0 m" using assms(3,4,5,6) by (simp add: partly_written_def)
  from talks_upload [OF c1(2) this, of "Some 0" bl_rev piece] assms(7) obtain c' m' ps where
    "upload_loop (link piece) bl_rev img (Some 0) c1 = Some (Inr (), c')"
    "talks c' m' (noted (map UploadProgressEvent ps) (noted [UploadStepEvent UPLOADING] b))"
    "partly_written img ?blank (length img) m'"
    by auto
  moreover have "fw_image fw = Inr img" using assms(2) by (simp add: fw_image_def)
  ultimately show ?thesis using c1(1)
    by (intro exI [of _ c'] exI [of _ m'] exI [of _ ps]) (simp add: upload_stage_def eff_bind_run partly_written_def)
qed

text \<open>The firmware object, holding its CRC, beside the conversation; and the flag of success.\<close>

definition with_crc where
  "with_crc fw b = (case b of (es, su, re, _, ex, li) \<Rightarrow> (es, su, re, Some (snd (fw_crc fw)), ex, li))"

definition successful where
  "successful b = (case b of (es, _, re, f, ex, li) \<Rightarrow> (es, True, re, f, ex, li))"

lemma beside_updates:
  "beside (w\<lparr>tw_firmware := Some (snd (fw_crc fw))\<rparr>) = with_crc fw (beside w)"
  "beside (w\<lparr>tw_success := True\<rparr>) = successful (beside w)"
  by (simp_all add: beside_def with_crc_def successful_def)

lemma noted_updates:
  "with_crc fw (noted es b) = noted es (with_crc fw b)" "successful (noted es b) = noted es (successful b)"
  by (auto simp: with_crc_def successful_def noted_def split: prod.splits)

definition crc_events :: "int \<Rightarrow> int \<Rightarrow> uploader_event list" where
  "crc_events expected observed = (if expected \<noteq> observed then [CRCMismatchEvent expected observed] else [])"

lemma talks_verify:
  fixes n size :: int
  assumes "talks c m b" "fw_image_data fw = Some img" "firmware_inv fw" "fw_image_size fw = Inr (JInt size)"
  defines "expected \<equiv> crc32 (replicate (nat (n - size)) 255) (crc32 img 0)"
    and "observed \<equiv> crc32 (mk_flash_memory m) 0"
  shows "\<exists>c'. verify_stage (link piece) n fw c = Some (Inr (), c') \<and>
    talks c' m (with_crc fw (noted (UploadStepEvent VERIFYING # crc_events expected observed) b))"
proof -
  obtain c1 where c1: "on_event (UploadStepEvent VERIFYING) c = Some (Inr (), c1)"
    "talks c1 m (noted [UploadStepEvent VERIFYING] b)"
    using talks_event [OF assms(1)] by blast
  let ?w = "(cn_world c1)\<lparr>tw_firmware := Some (snd (fw_crc fw))\<rparr>"
  have c2: "firmware_crc fw c1 = Some (Inr (crc32 img 0), c1\<lparr>cn_world := ?w\<rparr>)"
    using crc_value [OF assms(3,2)] by (cases "fw_crc fw") (simp add: firmware_crc_def)
  have t2: "talks (c1\<lparr>cn_world := ?w\<rparr>) m (with_crc fw (noted [UploadStepEvent VERIFYING] b))"
    using talks_world [OF c1(2), of ?w] c1(2) by (simp add: beside_updates talks_def)
  obtain c3 where c3: "get_flash_memory_crc (link piece) (c1\<lparr>cn_world := ?w\<rparr>) = Some (Inr observed, c3)"
    "talks c3 m (with_crc fw (noted [UploadStepEvent VERIFYING] b))"
    using talks_crc [OF t2] unfolding observed_def by blast
  obtain c4 where c4: "(if expected \<noteq> observed then on_event (CRCMismatchEvent expected observed) else eff_return ()) c3 = Some (Inr (), c4)"
    "talks c4 m (noted (crc_events expected observed) (with_crc fw (noted [UploadStepEvent VERIFYING] b)))"
    using talks_event [OF c3(2), of "CRCMismatchEvent expected observed"] c3(2)
    by (cases "expected = observed") (auto simp: crc_events_def)
  have "verify_stage (link piece) n fw c = Some (Inr (), c4)"
    using c1(1) c2 c3(1) c4(1) [unfolded expected_def] assms(4) by (simp add: verify_stage_def eff_bind_run Let_def)
  with c4(2) show ?thesis by (intro exI [of _ c4]) (simp add: noted_updates)
qed

lemma talks_verify_stage:
  assumes "talks c m b" "fw_image_data fw = Some img" "firmware_inv fw"
    and "fw_image_size fw = Inr (JInt (int (length img)))"
    and "mk_flash_memory m = img @ replicate (n - length img) 0xFF"
  shows "\<exists>c'. verify_stage (link piece) (int n) fw c = Some (Inr (), c') \<and>
    talks c' m (with_crc fw (noted [UploadStepEvent VERIFYING] b))"
proof -
  have "crc_events (crc32 (replicate (nat (int n - int (length img))) 255) (crc32 img 0)) (crc32 (mk_flash_memory m) 0) = []"
    by (simp add: assms(5) crc32_append nat_diff_distrib' crc_events_def)
  with talks_verify [OF assms(1-4), of piece "int n"] show ?thesis by simp
qed

lemma talks_reboot:
  assumes "talks c m b"
  shows "\<exists>c'. reboot (link piece) H False c = Some (Inr (), c') \<and>
    task.conversing c' (m\<lparr>mk_should_exit := True\<rparr>) \<and> beside (cn_world c') = b"
proof -
  obtain c' where c': "send_bootloader_reboot_command (link piece) c = Some (Inr (), c')"
    "task.conversing c' (m\<lparr>mk_should_exit := True\<rparr>)"
    using task.signals_in_conversation(2) [OF talksD [OF assms] respond_reboot] by blast
  moreover have "beside (cn_world c') = b"
    using task_frame.framedD [OF task_frame.framed_requests(10) c'(1)] assms by (simp add: talks_def)
  moreover have "reboot (link piece) H False c = send_bootloader_reboot_command (link piece) c"
    using assms by (simp add: reboot_def talks_def eff_bind_def)
  ultimately show ?thesis using c' by (intro exI [of _ c']) simp
qed

lemma upload_body_mock:
  assumes "tw_io w = (m, [])" "listening m" "length (mk_flash_memory m) < 2 ^ 32"
    and "fw_image_data fw = Some img" "length img \<le> length (mk_flash_memory m)" "firmware_inv fw"
    and "fw_image_size fw = Inr (JInt (int (length img)))"
  shows "\<exists>c' m' ps qs. upload_body en (link piece) fw (mark_rebooted n cb) (BootloaderConnection relock 254 w) = Some (Inr (), c') \<and>
    tw_io (cn_world c') = (m', []) \<and>
    mk_flash_memory m' = img @ replicate (length (mk_flash_memory m) - length img) 0xFF \<and> mk_should_exit m' \<and>
    beside (cn_world c') = successful (with_crc fw (noted ([UploadStepEvent ERASING] @ map UploadProgressEvent ps @
      [UploadStepEvent UPLOADING] @ map UploadProgressEvent qs @
      [UploadStepEvent VERIFYING, UploadStepEvent REBOOTING, UploadStepEvent FINISHED]) (beside w)))"
proof -
  let ?N = "length (mk_flash_memory m)"
  let ?e = "m\<lparr>mk_flash_memory := replicate ?N 0xFF, mk_write_ptr := 0\<rparr>"
  let ?rev = "if mk_simulate_desync m then 6 else 5 :: int"
  obtain c1 where c1: "ensure_in_bootloader (link piece) (en_sha256 en) (Some (mark_rebooted n cb))
      (BootloaderConnection relock 254 w) = Some (Inr (), c1)" "talks c1 m (beside w)"
    using talks_start [OF assms(1-3)] by blast
  obtain c2 where c2: "inspect_board (link piece) c1 = Some (Inr (int ?N, ?rev), c2)" "talks c2 m (beside w)"
    using talks_inspect [OF c1(2) assms(3)] by blast
  obtain c3 where c3: "on_event (UploadStepEvent ERASING) c2 = Some (Inr (), c3)"
    "talks c3 m (noted [UploadStepEvent ERASING] (beside w))"
    using talks_event [OF c2(2)] by blast
  obtain c4 ps where c4: "erase_stage en (link piece) c3 = Some (Inr (), c4)"
    "talks c4 ?e (noted (UploadStepEvent ERASING # map UploadProgressEvent ps) (beside w))"
    using talks_erase_stage [OF c3(2)] by fastforce
  have "\<exists>c' m' qs. upload_stage (link piece) ?rev fw c4 = Some (Inr (), c') \<and>
    talks c' m' (noted (UploadStepEvent UPLOADING # map UploadProgressEvent qs)
      (noted (UploadStepEvent ERASING # map UploadProgressEvent ps) (beside w))) \<and>
    mk_flash_memory m' = img @ replicate (length (mk_flash_memory ?e) - length img) 0xFF"
    using assms(3,5) by (intro talks_upload_stage [OF c4(2) assms(4)]) simp_all
  then obtain c5 m5 qs where c5: "upload_stage (link piece) ?rev fw c4 = Some (Inr (), c5)"
    "talks c5 m5 (noted ((UploadStepEvent ERASING # map UploadProgressEvent ps) @
      UploadStepEvent UPLOADING # map UploadProgressEvent qs) (beside w))"
    "mk_flash_memory m5 = img @ replicate (?N - length img) 0xFF"
    by auto
  obtain c6 where c6: "verify_stage (link piece) (int ?N) fw c5 = Some (Inr (), c6)"
    "talks c6 m5 (with_crc fw (noted (((UploadStepEvent ERASING # map UploadProgressEvent ps) @
      UploadStepEvent UPLOADING # map UploadProgressEvent qs) @ [UploadStepEvent VERIFYING]) (beside w)))"
    using talks_verify_stage [OF c5(2) assms(4,6,7) c5(3)] by auto
  obtain c7 where c7: "on_event (UploadStepEvent REBOOTING) c6 = Some (Inr (), c7)"
    "talks c7 m5 (noted [UploadStepEvent REBOOTING] (with_crc fw (noted (((UploadStepEvent ERASING # map UploadProgressEvent ps) @
      UploadStepEvent UPLOADING # map UploadProgressEvent qs) @ [UploadStepEvent VERIFYING]) (beside w))))"
    using talks_event [OF c6(2)] by blast
  let ?b = "noted [UploadStepEvent REBOOTING] (with_crc fw (noted (((UploadStepEvent ERASING # map UploadProgressEvent ps) @
      UploadStepEvent UPLOADING # map UploadProgressEvent qs) @ [UploadStepEvent VERIFYING]) (beside w)))"
  obtain c8 where c8: "reboot (link piece) (en_sha256 en) False c7 = Some (Inr (), c8)"
    "task.conversing c8 (m5\<lparr>mk_should_exit := True\<rparr>)" "beside (cn_world c8) = ?b"
    using talks_reboot [OF c7(2)] by blast
  let ?c = "c8\<lparr>cn_world := (report (UploadStepEvent FINISHED) (cn_world c8))\<lparr>tw_success := True\<rparr>\<rparr>"
  have run: "upload_body en (link piece) fw (mark_rebooted n cb) (BootloaderConnection relock 254 w) = Some (Inr (), ?c)"
    using c1(1) c2(1) c3(1) c4(1) c5(1) c6(1) c7(1) c8(1)
    by (simp add: upload_body_def eff_bind_run set_success_def on_event_def)
  have "tw_io (cn_world ?c) = (m5\<lparr>mk_should_exit := True\<rparr>, [])"
    using c8(2) by (simp add: task.conversing_def prod_eq_iff)
  moreover have "beside (cn_world ?c) = successful (noted [UploadStepEvent FINISHED] ?b)"
    by (simp add: beside_updates c8(3) del: noted_simps)
  ultimately show ?thesis using run c5(3)
    by (intro exI [of _ ?c] exI [of _ "m5\<lparr>mk_should_exit := True\<rparr>"] exI [of _ ps] exI [of _ qs])
       (simp add: noted_updates)
qed

section \<open>The upload\<close>

definition mock_endpoint :: "(bytes \<Rightarrow> nat) \<Rightarrow> mock_world endpoint" where
  "mock_endpoint piece =
     \<lparr>ep_enter = eff_return (), ep_exit = \<lambda>_. eff_return (), ep_transport = mock_link piece\<rparr>"

lemma with_mock:
  assumes "body (BootloaderConnection relock 254 w) = Some (Inr (), c)"
  shows "with_connection relock (mock_endpoint piece) body w = Some (Inr (), cn_world c)"
  using assms by (simp add: with_connection_def mock_endpoint_def on_io_def)


text \<open>A board that loses every acknowledgment behind address 4096.\<close>

definition lossy_mock :: mock where
  "lossy_mock = (MockBootloader (\<lambda>_. 0) 5000)\<lparr>mk_simulate_desync := True\<rparr>"

definition mock_environment :: "mock_world environment" where
  "mock_environment = \<lparr>en_is_ip_address = \<lambda>_. False, en_shared_udp_socket = eff_return (),
     en_UDPTransport = \<lambda>_ _. mock_endpoint (\<lambda>_. 0), en_SerialPortTransport = \<lambda>_. Inr (mock_endpoint (\<lambda>_. 0)),
     en_erase_seconds = \<lambda>_. 3, en_relock = None, en_sha256 = id\<rparr>"

definition example_firmware :: firmware where
  "example_firmware = \<lparr>fw_crc_cache = None, fw_image_data = Some (replicate 4500 7), fw_metadata = Map.empty\<rparr>"

definition example_world :: "mock_world task_world" where
  "example_world = \<lparr>tw_io = (lossy_mock, []), tw_events = [], tw_success = False, tw_retrying = False,
     tw_firmware = Some example_firmware, tw_expected_failures = 0, tw_limiter = None\<rparr>"



section \<open>A CRC mismatch\<close>

text \<open>C20. A CRC mismatch is only reported. Verification raises nothing but what the CRC request itself
  raises; when the board answers, it returns normally whether or not the value is the expected one,
  with a mismatch event as the only difference. So the upload goes on to reboot the board into
  the corrupt firmware and reports success.\<close>

theorem crc_mismatch_tolerated:
  assumes "verify_stage T flash_size fw c = Some (r, c')"
    and "fw_image_data fw = Some img" "firmware_inv fw" "fw_image_size fw = Inr (JInt n)"
  shows "\<exists>d' answer.
    get_flash_memory_crc T (c\<lparr>cn_world := (report (UploadStepEvent VERIFYING) (cn_world c))
      \<lparr>tw_firmware := Some (snd (fw_crc fw))\<rparr>\<rparr>) = Some (answer, d') \<and>
    (case answer of
       Inl e \<Rightarrow> r = Inl e \<and> c' = d'
     | Inr observed \<Rightarrow> r = Inr () \<and>
         (let expected = crc32 (replicate (nat (flash_size - n)) 255) (crc32 img 0) in
          if expected = observed then c' = d'
          else c' = d'\<lparr>cn_world := report (CRCMismatchEvent expected observed) (cn_world d')\<rparr>))"
proof -
  obtain fw1 where fw1: "fw_crc fw = (Inr (crc32 img 0), fw1)"
    using crc_value [OF assms(3,2)] by (cases "fw_crc fw") simp
  let ?d = "c\<lparr>cn_world := (report (UploadStepEvent VERIFYING) (cn_world c))\<lparr>tw_firmware := Some fw1\<rparr>\<rparr>"
  have run: "eff_bind (get_flash_memory_crc T) (\<lambda>observed.
      if crc32 (replicate (nat (flash_size - n)) 255) (crc32 img 0) \<noteq> observed
      then on_event (CRCMismatchEvent (crc32 (replicate (nat (flash_size - n)) 255) (crc32 img 0)) observed)
      else eff_return ()) ?d = Some (r, c')"
    using assms(1,4) fw1 by (simp add: verify_stage_def on_event_def firmware_crc_def Let_def eff_bind_run(1) [where m = "eff_bind _ _"])
  then show ?thesis
  proof (cases rule: eff_bind_cases)
    case (raised e)
    then show ?thesis by (intro exI [of _ c'] exI [of _ "Inl e"]) (simp add: fw1)
  next
    case (returned observed d')
    then show ?thesis
      by (intro exI [of _ d'] exI [of _ "Inr observed"])
         (auto simp: on_event_def Let_def fw1 split: if_splits)
  qed
qed

definition short_firmware :: firmware where
  "short_firmware = \<lparr>fw_crc_cache = None, fw_image_data = Some [1], fw_metadata = Map.empty\<rparr>"

text \<open>An erased board against a firmware of one byte.\<close>

lemma crc_mismatch_tolerated_witness:
  "\<exists>c' d d' observed. verify_stage (link (\<lambda>_. 0)) 2 short_firmware
      ((BootloaderConnection None 254 (example_world\<lparr>tw_io := (MockBootloader (\<lambda>_. 1) 2, [])\<rparr>))\<lparr>cn_mode := ModeBootloader\<rparr>) = Some (Inr (), c') \<and>
    CRCMismatchEvent (crc32 [255] (crc32 [1] 0)) (crc32 [255, 255] 0) \<in> set (tw_events (cn_world c')) \<and>
    get_flash_memory_crc (link (\<lambda>_. 0)) d = Some (Inr observed, d')"
proof -
  let ?w = "example_world\<lparr>tw_io := (MockBootloader (\<lambda>_. 1) 2, [])\<rparr>"
  let ?c = "(BootloaderConnection None 254 ?w)\<lparr>cn_mode := ModeBootloader\<rparr>"
  have t: "talks ?c (MockBootloader (\<lambda>_. 1) 2) (beside ?w)"
    by (simp add: talks_def task.conversing_def BootloaderConnection_def quiet_new listening_def MockBootloader_def)
  have fw: "fw_image_data short_firmware = Some [1]" "firmware_inv short_firmware"
    "fw_image_size short_firmware = Inr (JInt 1)"
    by (simp_all add: short_firmware_def firmware_inv_def fw_image_size_def fw_image_def)
  have bytes: "mk_flash_memory (MockBootloader (\<lambda>_. 1) 2) = [255, 255]" "replicate (nat (2 - 1)) (255 :: byte) = [255]"
    by (simp_all add: MockBootloader_def numeral_2_eq_2)
  have differ: "crc32 [255] (crc32 [1] 0) \<noteq> crc32 [255, 255] 0" by code_simp
  obtain c' where c': "verify_stage (link (\<lambda>_. 0)) 2 short_firmware ?c = Some (Inr (), c')"
    "talks c' (MockBootloader (\<lambda>_. 1) 2) (with_crc short_firmware (noted (UploadStepEvent VERIFYING #
      crc_events (crc32 [255] (crc32 [1] 0)) (crc32 [255, 255] 0)) (beside ?w)))"
    using talks_verify [OF t fw, of "\<lambda>_. 0" 2] unfolding bytes by blast
  have "CRCMismatchEvent (crc32 [255] (crc32 [1] 0)) (crc32 [255, 255] 0) \<in> set (tw_events (cn_world c'))"
    using c'(2) differ by (auto simp: talks_def beside_def with_crc_def noted_def crc_events_def)
  moreover obtain d d' answer where a: "get_flash_memory_crc (link (\<lambda>_. 0)) d = Some (answer, d')" "\<forall>e. answer \<noteq> Inl e"
    using crc_mismatch_tolerated [OF c'(1) fw]
  proof (elim exE conjE, goal_cases)
    case (1 d' answer)
    then show ?case by (cases answer) auto
  qed
  moreover from a(2) obtain observed where "answer = Inr observed" by (cases answer) auto
  ultimately show ?thesis using c'(1) by blast
qed

end
