(* ===== verification/Uploader_Events.thy ===== *)
theory Uploader_Events
  imports Uploader Connection_Frame
begin

text \<open>
  What the tasks of the uploader report and how they are retried, on any transport and whatever the
  device does: the shape of the events of one attempt, and the bounds on attempts, log messages
  and held limiter tokens of a whole task.
\<close>

section \<open>The frame of an attempt\<close>

fun is_lifecycle :: "uploader_event \<Rightarrow> bool" where
  "is_lifecycle (UploaderLifecycleEvent _ _ _ _) = True"
| "is_lifecycle _ = False"

fun is_log :: "uploader_event \<Rightarrow> bool" where
  "is_log (LogEvent _ _) = True"
| "is_log _ = False"

text \<open>
  Inside an attempt: events are only added, none of them a lifecycle or log event; a token of the
  limiter stays where it is, a loaded firmware stays loaded, and success is not claimed before the last step.
\<close>

definition inside :: "'w task_world \<Rightarrow> 'w task_world \<Rightarrow> bool" where
  "inside w w' \<longleftrightarrow>
     (\<exists>evs. tw_events w' = tw_events w @ evs \<and> (\<forall>ev \<in> set evs. \<not> is_lifecycle ev \<and> \<not> is_log ev) \<and>
        (tw_success w' \<longrightarrow> tw_success w \<or> UploadStepEvent FINISHED \<in> set evs)) \<and>
     tw_limiter w' = tw_limiter w \<and> (tw_firmware w \<noteq> None \<longrightarrow> tw_firmware w' \<noteq> None)"

lemma inside_refl: "inside w w"
  by (auto simp: inside_def)

lemma inside_trans: "inside w1 w2 \<Longrightarrow> inside w2 w3 \<Longrightarrow> inside w1 w3"
  by (fastforce simp: inside_def)

lemma inside_on_io: "on_io m w = Some (r, w') \<Longrightarrow> inside w w'"
  by (auto simp: on_io_def inside_def)

lemma inside_report: "\<not> is_lifecycle ev \<Longrightarrow> \<not> is_log ev \<Longrightarrow> inside w (report ev w)"
  by (auto simp: inside_def)

interpretation attempt: world_frame "task_transport T" inside for T
  by unfold_locales (auto intro: inside_refl inside_trans inside_on_io)

lemma framed_event [framed_intros]: "\<not> is_lifecycle ev \<Longrightarrow> \<not> is_log ev \<Longrightarrow> attempt.framed (on_event ev)"
  unfolding on_event_def by (intro attempt.framed_modify) (simp add: inside_report)

lemma inside_reports: "inside w (fold report (fake_progress_events n p) w)"
proof (induction n arbitrary: w p)
  case (Suc n)
  let ?ev = "UploadProgressEvent (next_fake_progress p)"
  have "inside w (report ?ev w)" by (simp add: inside_report)
  with Suc.IH [of "report ?ev w" "next_fake_progress p"] show ?case by (auto intro: inside_trans)
qed (simp add: inside_refl)

lemma framed_inspect [framed_intros]: "attempt.framed (inspect_board (task_transport T))"
  unfolding inspect_board_def by (auto intro!: framed_intros)

lemma framed_erase [framed_intros]: "attempt.framed (erase_stage en (task_transport T))"
proof (rule attempt.framedI)
  fix c r c'
  assume run: "erase_stage en (task_transport T) c = Some (r, c')"
  then obtain r1 c1 where c1: "erase_flash_memory (task_transport T) c = Some (r1, c1)"
    and c': "c' = c1\<lparr>cn_world := fold report (fake_progress_events (en_erase_seconds en (tw_io (cn_world c1))) 0) (cn_world c1)\<rparr>"
    by (auto simp: erase_stage_def Let_def bind_eq_Some_conv)
  have "inside (cn_world c) (cn_world c1)" by (rule attempt.framedD [OF attempt.framed_requests(6) c1])
  then show "inside (cn_world c) (cn_world c')" by (auto simp: c' intro: inside_trans inside_reports)
qed

lemma framed_write_pointer [framed_intros]: "attempt.framed (known_write_pointer (task_transport T) bl wp)"
  unfolding known_write_pointer_def by (cases wp) (auto intro!: framed_intros)

lemma framed_chunk [framed_intros]: "attempt.framed (program_chunk (task_transport T) img p)"
  unfolding program_chunk_def Let_def by (auto intro!: framed_intros)

lemma framed_upload [framed_intros]: "attempt.framed (upload_loop (task_transport T) bl img wp)"
proof (rule attempt.framedI)
  fix c :: "'a task_world connection" and r c'
  assume run: "upload_loop (task_transport T) bl img wp c = Some (r, c')"
  have "task_transport T = task_transport T \<longrightarrow> inside (cn_world c) (cn_world (snd (r, c')))"
  proof (rule upload_loop.raw_induct [OF _ run,
        where P = "\<lambda>T' _ _ _ c rc. T' = task_transport T \<longrightarrow> inside (cn_world c) (cn_world (snd rc))"])
    fix f :: "'a task_world transport \<Rightarrow> int \<Rightarrow> bytes \<Rightarrow> int option \<Rightarrow> ('a task_world connection, unit) eff"
      and T' bl img wp c and rc :: "unit result \<times> 'a task_world connection"
    assume IH: "\<And>T' bl img wp c rc. f T' bl img wp c = Some rc \<Longrightarrow>
        T' = task_transport T \<longrightarrow> inside (cn_world c) (cn_world (snd rc))"
      and step: "(if (case wp of None \<Rightarrow> True | Some p \<Rightarrow> p < int (length img)) then
        Option.bind (eff_bind (known_write_pointer T' bl wp) (program_chunk T' img) c)
          (\<lambda>(r, c1). case r of Inl e \<Rightarrow> Some (Inl e, c1) | Inr wp1 \<Rightarrow> f T' bl img wp1 c1)
        else Some (Inr (), c)) = Some rc"
    show "T' = task_transport T \<longrightarrow> inside (cn_world c) (cn_world (snd rc))"
    proof
      assume T: "T' = task_transport T"
      show "inside (cn_world c) (cn_world (snd rc))"
      proof (cases "case wp of None \<Rightarrow> True | Some p \<Rightarrow> p < int (length img)")
        case True
        with step T obtain r1 c1 where
          c1: "eff_bind (known_write_pointer (task_transport T) bl wp) (program_chunk (task_transport T) img) c = Some (r1, c1)"
          and rest: "(case r1 of Inl e \<Rightarrow> Some (Inl e, c1) | Inr wp1 \<Rightarrow> f T' bl img wp1 c1) = Some rc"
          by (auto simp: bind_eq_Some_conv)
        have "attempt.framed (eff_bind (known_write_pointer (task_transport T) bl wp) (program_chunk (task_transport T) img))"
          by (intro framed_intros)
        from attempt.framedD [OF this c1] rest T show ?thesis
          by (cases r1) (auto intro: inside_trans dest: IH)
      next
        case False
        with step show ?thesis by (auto intro: inside_refl)
      qed
    qed
  qed
  then show "inside (cn_world c) (cn_world c')" by simp
qed

lemma framed_crc [framed_intros]: "attempt.framed (firmware_crc fw)"
proof -
  have "inside w (w\<lparr>tw_firmware := Some fw1\<rparr>)" for w :: "'a task_world" and fw1 by (auto simp: inside_def)
  then show ?thesis unfolding firmware_crc_def by (auto intro!: framed_intros split: prod.splits)
qed

lemma framed_verify [framed_intros]: "attempt.framed (verify_stage (task_transport T) n fw)"
  unfolding verify_stage_def Let_def by (auto intro!: framed_intros)

lemma framed_upload_stage [framed_intros]: "attempt.framed (upload_stage (task_transport T) bl fw)"
  unfolding upload_stage_def by (auto intro!: framed_intros)

text \<open>The two callbacks that tasks are started with.\<close>

definition harmless :: "'w failure_callback \<Rightarrow> bool" where
  "harmless cb \<longleftrightarrow> cb = None \<or> cb = Some expect_failure"

lemma inside_rebooted: "harmless cb \<Longrightarrow> inside w (mark_rebooted n cb w)"
  by (auto simp: harmless_def mark_rebooted_def expect_failure_def inside_def)

lemma framed_end [framed_intros]:
  "attempt.framed (eff_bind (on_event (UploadStepEvent FINISHED)) (\<lambda>_. set_success))"
  by (rule attempt.framedI) (auto simp: on_event_def set_success_def inside_def)

lemma framed_body: "harmless cb \<Longrightarrow> attempt.framed (upload_body en (task_transport T) fw (mark_rebooted n cb))"
  unfolding upload_body_def by (auto intro!: framed_intros simp: inside_rebooted)

section \<open>The events of one attempt\<close>

lemma with_connection_cases [consumes 1, case_names failed entered]:
  assumes "with_connection relock ep body w = Some (r, w')"
  obtains e where "on_io (ep_enter ep) w = Some (Inl e, w')" "r = Inl e"
  | w1 r2 c r3 where "on_io (ep_enter ep) w = Some (Inr (), w1)" "body (BootloaderConnection relock 254 w1) = Some (r2, c)"
      "on_io (ep_exit ep (case r2 of Inl e \<Rightarrow> Some e | Inr _ \<Rightarrow> None)) (cn_world c) = Some (r3, w')"
      "r = (case r3 of Inl e \<Rightarrow> Inl e | Inr _ \<Rightarrow> r2)"
proof -
  from assms obtain r1 w1 where enter: "on_io (ep_enter ep) w = Some (r1, w1)"
    by (auto simp: with_connection_def bind_eq_Some_conv)
  show thesis
  proof (cases r1)
    case (Inl e)
    with assms enter show ?thesis by (intro that(1)) (auto simp: with_connection_def)
  next
    case (Inr u)
    with assms enter show ?thesis
      by (auto simp: with_connection_def bind_eq_Some_conv intro: that(2))
  qed
qed

lemma target_inside:
  assumes "on_target en port body w = Some (r, w')" and "\<And>T. attempt.framed (body (task_transport T))"
  shows "inside w w'"
  using assms(1) unfolding on_target_def
proof (cases rule: eff_bind_cases)
  case (raised e)
  then show ?thesis by (auto intro: inside_on_io)
next
  case (returned ep w1)
  from returned(2) have "inside w1 w'"
  proof (cases rule: with_connection_cases)
    case (failed e)
    from failed(1) show ?thesis by (rule inside_on_io)
  next
    case (entered w2 r2 c r3)
    from attempt.framedD [OF assms(2) entered(2)] have "inside w2 (cn_world c)"
      by (simp add: BootloaderConnection_def)
    with entered(1,3) show ?thesis by (blast intro: inside_trans inside_on_io)
  qed
  with returned(1) show ?thesis by (blast intro: inside_trans inside_on_io)
qed

text \<open>A body that returns has claimed success, and nothing after it takes that back.\<close>

lemma target_success:
  assumes "on_target en port body w = Some (Inr u, w')"
    and "\<And>T c c'. body T c = Some (Inr (), c') \<Longrightarrow> tw_success (cn_world c')"
  shows "tw_success w'"
  using assms(1) unfolding on_target_def
proof (cases rule: eff_bind_cases)
  case (returned ep w1)
  from returned(2) show ?thesis
  proof (cases rule: with_connection_cases)
    case (entered w2 r2 c r3)
    then have "r2 = Inr ()" by (cases r2; cases r3) auto
    with entered(2,3) assms(2) show ?thesis by (auto simp: on_io_def)
  qed simp
qed simp

lemma ends_with_success:
  assumes "eff_bind m (\<lambda>_. set_success) c = Some (Inr u, c')"
  shows "tw_success (cn_world c')"
  using assms by (cases rule: eff_bind_cases) (auto simp: set_success_def)

lemma body_success:
  assumes "upload_body en T fw f c = Some (Inr u, c')"
  shows "tw_success (cn_world c')"
  using assms unfolding upload_body_def
  by (elim eff_bind_cases) (auto simp: set_success_def split: prod.splits elim!: eff_bind_cases)


lemma begin_events: "tw_events (begin_attempt b w) = tw_events w @ [lifecycle ''started'', UploadStepEvent CONNECTING]"
  "tw_limiter (begin_attempt b w) = tw_limiter w" "tw_firmware (begin_attempt b w) = tw_firmware w"
  "\<not> tw_success (begin_attempt b w)"
  by (simp_all add: begin_attempt_def)

lemma upload_attempt:
  assumes run: "upload_firmware en port b cb w = Some (r, w')" and "tw_firmware w \<noteq> None" "harmless cb"
  shows "\<exists>evs. tw_events w' = tw_events w @ [lifecycle ''started'', UploadStepEvent CONNECTING] @ evs @
      (if r = Inl TimeoutError then [lifecycle ''timeout''] else []) @ [finished (tw_success w') (r = Inl Cancelled) (tw_retrying w')] \<and>
    (\<forall>ev \<in> set evs. \<not> is_lifecycle ev \<and> \<not> is_log ev) \<and> (r = Inr () \<longrightarrow> tw_success w') \<and>
    (tw_success w' \<longrightarrow> UploadStepEvent FINISHED \<in> set evs) \<and>
    tw_limiter w' = tw_limiter w \<and> tw_firmware w' \<noteq> None"
proof -
  from assms(2) obtain fw where fw: "tw_firmware w = Some fw" by blast
  let ?body = "\<lambda>T. upload_body en T fw (mark_rebooted 3 cb)"
  from run fw obtain w1 where w1: "on_target en port ?body (begin_attempt b w) = Some (r, w1)"
    and w': "w' = (let w2 = if r = Inl TimeoutError then report (lifecycle ''timeout'') w1 else w1
                  in report (finished (tw_success w2) (r = Inl Cancelled) (tw_retrying w2)) w2)"
    by (auto simp: upload_firmware_def Let_def)
  have "inside (begin_attempt b w) w1"
    by (rule target_inside [OF w1 framed_body [OF assms(3)]])
  then obtain evs where "tw_events w1 = tw_events (begin_attempt b w) @ evs"
    "\<forall>ev \<in> set evs. \<not> is_lifecycle ev \<and> \<not> is_log ev" "tw_success w1 \<longrightarrow> UploadStepEvent FINISHED \<in> set evs"
    "tw_limiter w1 = tw_limiter w" "tw_firmware w1 \<noteq> None"
    using assms(2) by (auto simp: inside_def begin_events)
  moreover have "r = Inr () \<longrightarrow> tw_success w1"
    using target_success [where body = ?body] w1 body_success by blast
  ultimately show ?thesis
    by (intro exI [of _ evs]) (auto simp: w' Let_def begin_events)
qed

section \<open>A task and its retries\<close>

definition attempt_shape :: "'w task_world \<Rightarrow> unit result \<Rightarrow> 'w task_world \<Rightarrow> bool" where
  "attempt_shape w r w' \<longleftrightarrow>
     (\<exists>evs b. tw_events w' = tw_events w @ lifecycle ''started'' # evs @ [finished (tw_success w') (r = Inl Cancelled) b] \<and>
        lifecycle ''started'' \<notin> set evs \<and> (\<forall>ev \<in> set evs. \<not> is_log ev) \<and> (r = Inr () \<longrightarrow> tw_success w')) \<and>
     tw_limiter w' = tw_limiter w \<and> (tw_firmware w \<noteq> None \<longrightarrow> tw_firmware w' \<noteq> None)"

definition errors :: "uploader_event list \<Rightarrow> uploader_event list" where
  "errors evs = filter (\<lambda>ev. case ev of LogEvent level _ \<Rightarrow> level = 40 | _ \<Rightarrow> False) evs"

lemma errors_simps [simp]: "errors (xs @ ys) = errors xs @ errors ys" "errors [] = []"
  "errors (ev # evs) = (case ev of LogEvent level _ \<Rightarrow> if level = 40 then [ev] else [] | _ \<Rightarrow> []) @ errors evs"
  by (auto simp: errors_def split: uploader_event.splits)

lemma no_errors: "\<forall>ev \<in> set evs. \<not> is_log ev \<Longrightarrow> errors evs = []"
  by (induction evs) (auto split: uploader_event.splits)

lemma count_lifecycle: "x \<notin> set xs \<Longrightarrow> count_list xs x = 0"
  by (induction xs) auto

lemma started_is_not: "lifecycle ''started'' \<noteq> finished a b c" "lifecycle ''started'' \<noteq> lifecycle ''timeout''"
  "lifecycle ''started'' \<noteq> LogEvent n s" "LogEvent n s \<noteq> lifecycle ''started''"
  "lifecycle ''started'' \<noteq> UploadStepEvent st"
  by (simp_all add: lifecycle_def finished_def)

text \<open>The ways a task ends: with the end of a successful attempt, with an error message, or cancelled.\<close>

definition task_ended :: "unit result \<Rightarrow> uploader_event list \<Rightarrow> bool" where
  "task_ended r evs \<longleftrightarrow>
     r = Inr () \<and> errors evs = [] \<and> (\<exists>b. last evs = finished True False b) \<or>
     r = Inr () \<and> (\<exists>message. errors evs = [LogEvent 40 message] \<and> last evs = LogEvent 40 message) \<or>
     r = Inl Cancelled \<and> errors evs = [] \<and> (\<exists>success b. last evs = finished success True b)"

lemma task_ended_append: "task_ended r evs2 \<Longrightarrow> evs2 \<noteq> [] \<Longrightarrow> errors evs1 = [] \<Longrightarrow> task_ended r (evs1 @ evs2)"
  by (simp add: task_ended_def)

text \<open>The contract of what \<open>UploaderTask.run\<close> calls.\<close>

locale reporting_task =
  fixes func :: "bool \<Rightarrow> ('w task_world, unit) eff" and needs_firmware :: bool
  assumes call_reports: "func b w = Some (r, w') \<Longrightarrow> needs_firmware \<longrightarrow> tw_firmware w \<noteq> None \<Longrightarrow> attempt_shape w r w'"
begin

lemma limited_call:
  assumes "limited (func b) w = Some (r, w')" "tw_limiter w \<noteq> Some True" "needs_firmware \<longrightarrow> tw_firmware w \<noteq> None"
  shows "attempt_shape w r w'"
proof (cases "tw_limiter w")
  case None
  with assms show ?thesis by (auto simp: limited_def dest: call_reports)
next
  case (Some held)
  with assms(2) have held: "tw_limiter w = Some False" by simp
  with assms(1) obtain w1 where w1: "func b (w\<lparr>tw_limiter := Some True\<rparr>) = Some (r, w1)"
    "w' = w1\<lparr>tw_limiter := Some False\<rparr>"
    by (auto simp: limited_def)
  have "attempt_shape (w\<lparr>tw_limiter := Some True\<rparr>) r w1" using call_reports [OF w1(1)] assms(3) by simp
  with held show ?thesis by (simp add: attempt_shape_def w1(2))
qed

lemma run_outcome:
  "run_attempts repr func retries attempt w = Some (r, w') \<Longrightarrow> attempt \<le> retries \<Longrightarrow>
   tw_limiter w \<noteq> Some True \<Longrightarrow> (needs_firmware \<longrightarrow> tw_firmware w \<noteq> None) \<Longrightarrow>
   tw_limiter w' = tw_limiter w \<and>
   (\<exists>evs. tw_events w' = tw_events w @ evs \<and> evs \<noteq> [] \<and>
      1 \<le> count_list evs (lifecycle ''started'') \<and>
      int (count_list evs (lifecycle ''started'')) \<le> retries + 1 - attempt \<and> task_ended r evs)"
proof (induction "nat (retries + 1 - attempt)" arbitrary: attempt w rule: less_induct)
  case less
  from less.prems(1,2) obtain r1 w1 where w1: "limited (func (tw_expected_failures w > 0)) w = Some (r1, w1)"
    and rest: "(case r1 of Inr _ \<Rightarrow> Some (Inr (), w1)
      | Inl e \<Rightarrow> if e = Cancelled then Some (Inl e, w1) else
              let (attempt1, w2) = next_attempt repr retries attempt e w1 in run_attempts repr func retries attempt1 w2) = Some (r, w')"
    by (subst (asm) run_attempts.simps) (auto simp: bind_eq_Some_conv)
  from limited_call [OF w1 less.prems(3,4)] obtain evs b where
    evs: "tw_events w1 = tw_events w @ lifecycle ''started'' # evs @ [finished (tw_success w1) (r1 = Inl Cancelled) b]"
    "lifecycle ''started'' \<notin> set evs" "\<forall>ev \<in> set evs. \<not> is_log ev" "r1 = Inr () \<longrightarrow> tw_success w1"
    and same: "tw_limiter w1 = tw_limiter w" "tw_firmware w \<noteq> None \<longrightarrow> tw_firmware w1 \<noteq> None"
    by (auto simp: attempt_shape_def)
  let ?evs = "lifecycle ''started'' # evs @ [finished (tw_success w1) (r1 = Inl Cancelled) b]"
  have facts: "errors ?evs = []" "count_list ?evs (lifecycle ''started'') = 1"
    using evs(2,3) started_is_not by (simp_all add: no_errors count_lifecycle lifecycle_def finished_def)
  show ?case
  proof (cases r1)
    case (Inr u)
    with rest have "r = Inr ()" "w' = w1" by auto
    with evs facts same Inr less.prems(2) show ?thesis
      by (intro conjI exI [of _ ?evs]) (auto simp: task_ended_def)
  next
    case (Inl e)
    show ?thesis
    proof (cases "e = Cancelled")
      case True
      with rest Inl have "r = Inl Cancelled" "w' = w1" by auto
      with evs facts same Inl True less.prems(2) show ?thesis
        by (intro conjI exI [of _ ?evs]) (auto simp: task_ended_def)
    next
      case uncancelled: False
      obtain message should_retry w2 where h: "handle_exceptions repr (caught e) w1 = ((message, should_retry), w2)"
        by (metis prod.collapse)
      have w2: "tw_events w2 = tw_events w1" "tw_limiter w2 = tw_limiter w1" "tw_firmware w2 = tw_firmware w1"
        using h by (auto simp: handle_exceptions_def Let_def split: if_splits)
      let ?attempt = "if should_retry then attempt else retries"
      show ?thesis
      proof (cases "?attempt < retries")
        case False
        with rest Inl uncancelled h less.prems(2) have "run_attempts repr func retries (?attempt + 1) (report (LogEvent 40 message) w2) = Some (r, w')"
          by (simp add: next_attempt_def split: if_splits)
        moreover have "\<not> ?attempt + 1 \<le> retries" using False less.prems(2) by simp
        ultimately have "r = Inr ()" "w' = report (LogEvent 40 message) w2"
          by (subst (asm) run_attempts.simps; simp)+
        with evs facts same w2 less.prems(2) show ?thesis
          by (intro conjI exI [of _ "?evs @ [LogEvent 40 message]"]) (auto simp: started_is_not task_ended_def)
      next
        case True
        let ?w3 = "if message \<noteq> '''' then report (LogEvent 30 (message @ '', retrying...'')) w2 else w2"
        have retry: should_retry using True by (simp split: if_splits)
        with rest Inl uncancelled h True have run: "run_attempts repr func retries (attempt + 1) ?w3 = Some (r, w')"
          by (simp add: next_attempt_def)
        have goes_on: "attempt + 1 \<le> retries" using True retry by simp
        obtain w3 log where w3: "run_attempts repr func retries (attempt + 1) w3 = Some (r, w')"
            "tw_limiter w3 = tw_limiter w" "tw_limiter w3 \<noteq> Some True" "needs_firmware \<longrightarrow> tw_firmware w3 \<noteq> None"
          and log: "tw_events w3 = tw_events w1 @ log" "errors log = []" "count_list log (lifecycle ''started'') = 0"
        proof (cases "message = []")
          case True
          with run same w2 less.prems(3,4) that [of w2 "[]"] show ?thesis by simp
        next
          case False
          with run same w2 less.prems(3,4) that [of ?w3 "[LogEvent 30 (message @ '', retrying...'')]"] started_is_not
          show ?thesis by simp
        qed
        have smaller: "nat (retries + 1 - (attempt + 1)) < nat (retries + 1 - attempt)" using goes_on by simp
        from less.hyps [OF smaller w3(1) goes_on w3(3,4)] obtain evs2 where
          ih: "tw_events w' = tw_events w3 @ evs2" "evs2 \<noteq> []" "1 \<le> count_list evs2 (lifecycle ''started'')"
          "int (count_list evs2 (lifecycle ''started'')) \<le> retries + 1 - (attempt + 1)"
          "task_ended r evs2"
          by (elim conjE exE) (rule that; assumption)
        have "tw_limiter w' = tw_limiter w"
          using less.hyps [OF smaller w3(1) goes_on w3(3,4)] w3(2) by simp
        moreover have "task_ended r ((?evs @ log) @ evs2)"
          using ih(2,5) facts(1) log(2) by (intro task_ended_append) auto
        ultimately show ?thesis using ih evs(1) facts log
          by (intro conjI exI [of _ "?evs @ log @ evs2"]) auto
      qed
    qed
  qed
qed

end


lemma upload_shape:
  assumes "upload_firmware en port b (Some expect_failure) w = Some (r, w')" "tw_firmware w \<noteq> None"
  shows "attempt_shape w r w'"
proof -
  have "harmless (Some expect_failure)" by (simp add: harmless_def)
  from upload_attempt [OF assms this] obtain evs where
    evs: "tw_events w' = tw_events w @ [lifecycle ''started'', UploadStepEvent CONNECTING] @ evs @
      (if r = Inl TimeoutError then [lifecycle ''timeout''] else []) @ [finished (tw_success w') (r = Inl Cancelled) (tw_retrying w')]"
    "\<forall>ev \<in> set evs. \<not> is_lifecycle ev \<and> \<not> is_log ev" "r = Inr () \<longrightarrow> tw_success w'"
    "tw_limiter w' = tw_limiter w" "tw_firmware w' \<noteq> None"
    by blast
  let ?evs = "UploadStepEvent CONNECTING # evs @ (if r = Inl TimeoutError then [lifecycle ''timeout''] else [])"
  have "lifecycle ''started'' \<notin> set ?evs" "\<forall>ev \<in> set ?evs. \<not> is_log ev"
    using evs(2) by (auto simp: lifecycle_def)
  with evs show ?thesis unfolding attempt_shape_def
    by (intro conjI exI [of _ ?evs] exI [of _ "tw_retrying w'"]) auto
qed

lemma other_shape:
  assumes run: "finish_attempt (on_target en port body (begin_attempt b w)) = Some (r, w')"
    and framed: "\<And>T. attempt.framed (body (task_transport T))"
    and success: "\<And>T c c'. body T c = Some (Inr (), c') \<Longrightarrow> tw_success (cn_world c')"
  shows "attempt_shape w r w'"
proof -
  from run obtain w1 where w1: "on_target en port body (begin_attempt b w) = Some (r, w1)"
    and w': "w' = report (finished (tw_success w1) (r = Inl Cancelled) False) w1"
    by (auto simp: finish_attempt_def)
  from target_inside [OF w1 framed] obtain evs where evs: "tw_events w1 = tw_events (begin_attempt b w) @ evs"
    "\<forall>ev \<in> set evs. \<not> is_lifecycle ev \<and> \<not> is_log ev" "tw_limiter w1 = tw_limiter w"
    "tw_firmware w \<noteq> None \<longrightarrow> tw_firmware w1 \<noteq> None"
    by (auto simp: inside_def begin_events)
  have "r = Inr () \<longrightarrow> tw_success w1" using target_success [where body = body] w1 success by blast
  moreover have "lifecycle ''started'' \<notin> set evs" using evs(2) by (auto simp: lifecycle_def)
  ultimately show ?thesis using evs unfolding attempt_shape_def
    by (intro conjI exI [of _ "UploadStepEvent CONNECTING # evs"] exI [of _ False])
       (auto simp: w' begin_events started_is_not)
qed

lemma framed_ensure_mavlink [framed_intros]:
  "harmless cb \<Longrightarrow> attempt.framed (ensure_in_mavlink (task_transport T) H t (Some (mark_rebooted n cb)))"
  by (auto intro!: framed_intros simp: inside_rebooted)

lemma ends_in_success:
  "(\<And>a s r s'. f a s = Some (Inr r, s') \<Longrightarrow> tw_success (cn_world s')) \<Longrightarrow>
   eff_bind m f c = Some (Inr r, c') \<Longrightarrow> tw_success (cn_world c')"
  by (erule eff_bind_cases) auto

lemma harmless_expect: "harmless (Some expect_failure)"
  by (simp add: harmless_def)

interpretation upload_task: reporting_task "\<lambda>b. upload_firmware en port b (Some expect_failure)" True for en port
  by unfold_locales (simp add: upload_shape)

lemma flash_shape:
  assumes "run_flash_bootloader en port b (Some expect_failure) w = Some (r, w')"
  shows "attempt_shape w r w'"
  using assms unfolding run_flash_bootloader_def
proof (rule other_shape, goal_cases)
  case (1 T)
  show ?case by (auto intro!: framed_intros harmless_expect)
next
  case (2 T c c')
  then show ?case by (elim ends_in_success [rotated]) (auto simp: set_success_def)
qed

lemma reset_shape:
  assumes "perform_factory_reset en port b (Some expect_failure) w = Some (r, w')"
  shows "attempt_shape w r w'"
  using assms unfolding perform_factory_reset_def
proof (rule other_shape, goal_cases)
  case (1 T)
  show ?case by (auto intro!: framed_intros harmless_expect)
next
  case (2 T c c')
  then show ?case by (elim ends_in_success [rotated]) (auto simp: set_success_def)
qed

interpretation flash_task: reporting_task "\<lambda>b. run_flash_bootloader en port b (Some expect_failure)" False for en port
  by unfold_locales (rule flash_shape)

interpretation reset_task: reporting_task "\<lambda>b. perform_factory_reset en port b (Some expect_failure)" False for en port
  by unfold_locales (rule reset_shape)


section \<open>Properties of the tasks\<close>

text \<open>A port that does not exist.\<close>

definition no_port :: "unit environment" where
  "no_port = \<lparr>en_is_ip_address = \<lambda>_. False, en_shared_udp_socket = eff_return (),
     en_UDPTransport = \<lambda>_ _. \<lparr>ep_enter = eff_return (), ep_exit = \<lambda>_. eff_return (),
        ep_transport = \<lparr>tr_send = \<lambda>_. eff_return (), tr_receive = \<lambda>_. eff_raise TimeoutError\<rparr>\<rparr>,
     en_SerialPortTransport = \<lambda>_. Inl (OSError (Some 2) ''could not open port''),
     en_erase_seconds = \<lambda>_. 0, en_relock = None, en_sha256 = id\<rparr>"

definition fresh_world :: "firmware option \<Rightarrow> bool option \<Rightarrow> unit task_world" where
  "fresh_world fw limiter = \<lparr>tw_io = (), tw_events = [], tw_success = False, tw_retrying = False,
     tw_firmware = fw, tw_expected_failures = 0, tw_limiter = limiter\<rparr>"

text \<open>C18. The events of one upload attempt, on any transport and device and with any outcome: it reports
  "started" and the connecting step first and "finished" last; in between there is no other lifecycle
  or log event, except a "timeout" right before the end exactly if the attempt ended in a
  \<open>TimeoutError\<close>. An attempt that returns has reported success, success is only reported after the
  last step, and the attempt leaves the limiter's token alone.\<close>

theorem attempt_events:
  assumes "upload_firmware en port b cb w = Some (r, w')" and "tw_firmware w \<noteq> None"
    and "cb = None \<or> cb = Some expect_failure"
  shows "\<exists>evs. tw_events w' = tw_events w @ [lifecycle ''started'', UploadStepEvent CONNECTING] @ evs @
      (if r = Inl TimeoutError then [lifecycle ''timeout''] else []) @ [finished (tw_success w') (r = Inl Cancelled) (tw_retrying w')] \<and>
    (\<forall>ev \<in> set evs. \<not> is_lifecycle ev \<and> \<not> is_log ev) \<and> (r = Inr () \<longrightarrow> tw_success w') \<and>
    (tw_success w' \<longrightarrow> UploadStepEvent FINISHED \<in> set evs) \<and> tw_limiter w' = tw_limiter w"
  using upload_attempt [OF assms(1,2)] assms(3) by (auto simp: harmless_def)

lemma attempt_events_witness:
  "\<exists>r w'. upload_firmware no_port ''COM3'' False None (fresh_world (Some FirmwareBase) None) = Some (r, w') \<and>
     (\<exists>evs. tw_events w' = [lifecycle ''started'', UploadStepEvent CONNECTING] @ evs @ [finished (tw_success w') (r = Inl Cancelled) (tw_retrying w')])"
proof -
  obtain w' where run: "upload_firmware no_port ''COM3'' False None (fresh_world (Some FirmwareBase) None) =
      Some (Inl (OSError (Some 2) ''could not open port''), w')"
    by (simp add: upload_firmware_def fresh_world_def on_target_def on_io_def eff_bind_def create_transport_def
        partition_at_def no_port_def begin_attempt_def Let_def)
  have "tw_firmware (fresh_world (Some FirmwareBase) None) \<noteq> None" "tw_events (fresh_world (Some FirmwareBase) None) = []"
    by (simp_all add: fresh_world_def)
  with attempt_events [OF run] run show ?thesis by auto
qed

text \<open>C5. An upload task contains its errors: with \<open>r\<close> retries it calls \<open>upload_firmware\<close> at least once and
  at most \<open>r + 1\<close> times, raises nothing but a cancellation, gives back the token of the limiter in any case, and
  ends in one of three ways: with the end of a successful attempt and no error message; with exactly one
  error message, its last event; or, cancelled, at once with the end of the attempt, reported as cancelled,
  and no error message.\<close>

theorem upload_task_outcome:
  assumes "start_upload_to repr en retries port w = Some (r, w')"
    and "tw_firmware w \<noteq> None" "tw_limiter w \<noteq> Some True" "0 \<le> retries"
  shows "tw_limiter w' = tw_limiter w \<and>
    (\<exists>evs. tw_events w' = tw_events w @ evs \<and> evs \<noteq> [] \<and>
      1 \<le> count_list evs (lifecycle ''started'') \<and> int (count_list evs (lifecycle ''started'')) \<le> retries + 1 \<and>
      (r = Inr () \<and> errors evs = [] \<and> (\<exists>b. last evs = finished True False b) \<or>
       r = Inr () \<and> (\<exists>message. errors evs = [LogEvent 40 message] \<and> last evs = LogEvent 40 message) \<or>
       r = Inl Cancelled \<and> errors evs = [] \<and> (\<exists>success b. last evs = finished success True b)))"
  using upload_task.run_outcome [OF assms(1) [unfolded start_upload_to_def UploaderTask_run_def]] assms(2-4)
  by (simp add: task_ended_def)

lemma upload_task_outcome_witness:
  "\<exists>r w'. start_upload_to (\<lambda>_. '''') no_port 3 ''COM3'' (fresh_world (Some FirmwareBase) (Some False)) = Some (r, w') \<and>
     tw_limiter w' = Some False \<and> int (count_list (tw_events w') (lifecycle ''started'')) \<le> 3 + 1"
proof -
  let ?w = "fresh_world (Some FirmwareBase) (Some False)"
  obtain r w' where run: "start_upload_to (\<lambda>_. '''') no_port 3 ''COM3'' ?w = Some (r, w')"
    by (simp add: start_upload_to_def UploaderTask_run_def run_attempts.simps next_attempt_def limited_def upload_firmware_def
        fresh_world_def on_target_def on_io_def eff_bind_def create_transport_def partition_at_def no_port_def
        begin_attempt_def Let_def handle_exceptions_def exception_reasons_def)
  have "tw_firmware ?w \<noteq> None" "tw_limiter ?w = Some False" "tw_events ?w = []" by (simp_all add: fresh_world_def)
  with upload_task_outcome [OF run] run show ?thesis by auto
qed

text \<open>The progress that is faked during an erasure stays positive, never reaches 100 percent and never
  goes back, however long the erasure takes.\<close>

theorem fake_progress_monotone:
  "\<exists>ps. fake_progress_events n 0 = map UploadProgressEvent ps \<and> length ps = n \<and> sorted ps \<and>
     (\<forall>p \<in> set ps. 0 < p \<and> p \<le> 99 / 100)"
proof -
  have half: "p + (1 - p) / 2 = (1 + p) / 2" for p :: rat by (simp add: field_simps)
  have "\<exists>ps. fake_progress_events n p = map UploadProgressEvent ps \<and> length ps = n \<and> sorted ps \<and>
     (\<forall>q \<in> set ps. p \<le> q \<and> 0 < q \<and> q \<le> 99 / 100)" if "0 \<le> p" "p \<le> 99 / 100" for p
    using that
  proof (induction n arbitrary: p)
    case (Suc n)
    let ?p = "next_fake_progress p"
    have "p \<le> ?p" "0 < ?p" "?p \<le> 99 / 100"
      using Suc.prems by (auto simp: next_fake_progress_def Let_def half)
    with Suc.IH [of ?p] obtain ps where "fake_progress_events n ?p = map UploadProgressEvent ps" "length ps = n" "sorted ps"
      "\<forall>q \<in> set ps. ?p \<le> q \<and> 0 < q \<and> q \<le> 99 / 100" by auto
    with \<open>p \<le> ?p\<close> \<open>0 < ?p\<close> \<open>?p \<le> 99 / 100\<close> show ?case
      by (intro exI [of _ "?p # ps"]) (auto intro: order_trans)
  qed simp
  from this [of 0] show ?thesis by auto
qed

lemma fake_progress_monotone_witness:
  "fake_progress_events 2 0 = map UploadProgressEvent [1 / 10, 2 / 10] \<and> (1 / 10 :: rat) \<le> 99 / 100"
  using fake_progress_monotone [of 2]
  by (auto simp: numeral_2_eq_2 next_fake_progress_def Let_def)

end
