(* ===== verification/Network.thy ===== *)
theory Network
  imports Effects
begin

text \<open>
  \<^verbatim>\<open>network.py\<close> and \<^verbatim>\<open>io/udp.py\<close>: one UDP socket shared by many transports. The record \<open>shared_socket\<close>
  holds the queues of a \<open>SharedUDPSocket\<close>: one per subscribed peer, one for the datagrams of unknown peers, one for
  datagrams to be sent. Each method, and each turn of the two worker tasks, is one step on it; the tasks
  of the program interleave at these steps. The operating-system socket behind it delivers
  datagrams to \<open>reader_step\<close> and takes them from \<open>writer_step\<close>. A memory object stream is its
  buffer with a maximal size; a receiver that waits takes what is put into it at once.
\<close>

type_synonym address = "string \<times> int"

definition WouldBlock :: exn where
  "WouldBlock = OtherException ''WouldBlock''"

section \<open>Subscriptions\<close>

record subscription =
  sb_open :: bool
  sb_max_buffer_size :: nat
  sb_queue :: "bytes list"

definition SharedUDPSocketSubscription :: "nat \<Rightarrow> subscription" where
  "SharedUDPSocketSubscription buffer_size =
     \<lparr>sb_open = True, sb_max_buffer_size = buffer_size, sb_queue = []\<rparr>"

definition subscription_aclose :: "subscription \<Rightarrow> subscription" where
  "subscription_aclose sub = sub\<lparr>sb_open := False\<rparr>"

text \<open>\<open>receive\<close>: \<open>None\<close> while there is nothing to return. A closed receive stream raises.\<close>

definition subscription_receive :: "subscription \<Rightarrow> (bytes result \<times> subscription) option" where
  "subscription_receive sub =
     (if \<not> sb_open sub then Some (Inl ClosedResourceError, sub)
      else case sb_queue sub of
        [] \<Rightarrow> None
      | data # rest \<Rightarrow> Some (Inr data, sub\<lparr>sb_queue := rest\<rparr>))"

text \<open>\<open>dispatch\<close>: \<open>send_nowait\<close> on the stream.\<close>

definition dispatch :: "bytes \<Rightarrow> subscription \<Rightarrow> unit result \<times> subscription" where
  "dispatch data sub =
     (if \<not> sb_open sub then (Inl ClosedResourceError, sub)
      else if length (sb_queue sub) < sb_max_buffer_size sub
      then (Inr (), sub\<lparr>sb_queue := sb_queue sub @ [data]\<rparr>)
      else (Inl WouldBlock, sub))"

section \<open>The shared socket\<close>

text \<open>\<open>us_unmatched_queue\<close> and \<open>us_send_queue\<close> are \<open>None\<close> or the queue, the former with its size;
  \<open>us_socket\<close> says whether the socket is open.\<close>

record shared_socket =
  us_buffer_size :: nat
  us_local_address :: address
  us_socket :: bool
  us_subscriptions :: "address \<rightharpoonup> subscription"
  us_send_queue :: "(bytes \<times> address) list option"
  us_unmatched_queue :: "(nat \<times> (bytes \<times> address) list) option"

definition SharedUDPSocket :: "string \<Rightarrow> int \<Rightarrow> nat \<Rightarrow> shared_socket" where
  "SharedUDPSocket local_host local_port buffer_size =
     \<lparr>us_buffer_size = buffer_size, us_local_address = (local_host, local_port), us_socket = False,
      us_subscriptions = Map.empty, us_send_queue = None, us_unmatched_queue = None\<rparr>"

text \<open>\<open>use\<close>: entering and leaving.\<close>

definition use_enter :: "shared_socket \<Rightarrow> unit result \<times> shared_socket" where
  "use_enter s =
     (if us_socket s then (Inl (RuntimeError ''SharedUDPSocket is already being used''), s)
      else (Inr (), s\<lparr>us_socket := True, us_send_queue := Some []\<rparr>))"

definition use_exit :: "shared_socket \<Rightarrow> shared_socket" where
  "use_exit s = s\<lparr>us_send_queue := None, us_socket := False\<rparr>"

definition allow_broadcasts :: "shared_socket \<Rightarrow> unit result" where
  "allow_broadcasts s = (if \<not> us_socket s then Inl ClosedResourceError else Inr ())"

text \<open>\<open>send\<close> waits (\<open>None\<close>) while the queue is full.\<close>

definition socket_send :: "bytes \<Rightarrow> address \<Rightarrow> (shared_socket, unit) eff" where
  "socket_send data destination s =
     (case us_send_queue s of
        None \<Rightarrow> Some (Inl ClosedResourceError, s)
      | Some q \<Rightarrow>
          if length q < us_buffer_size s
          then Some (Inr (), s\<lparr>us_send_queue := Some (q @ [(data, destination)])\<rparr>)
          else None)"

text \<open>\<open>subscribed_to\<close>: entering and leaving. Leaving closes the subscription, then removes it.\<close>

definition subscribe :: "address \<Rightarrow> shared_socket \<Rightarrow> unit result \<times> shared_socket" where
  "subscribe peer s =
     (if us_subscriptions s peer \<noteq> None
      then (Inl (RuntimeError ''Another subscription already exists for this address''), s)
      else (Inr (), s\<lparr>us_subscriptions := (us_subscriptions s)(peer \<mapsto> SharedUDPSocketSubscription (us_buffer_size s))\<rparr>))"

definition close_subscription :: "address \<Rightarrow> shared_socket \<Rightarrow> shared_socket" where
  "close_subscription peer s = s\<lparr>us_subscriptions := (us_subscriptions s)
     (peer := map_option subscription_aclose (us_subscriptions s peer))\<rparr>"

definition unsubscribe :: "address \<Rightarrow> shared_socket \<Rightarrow> shared_socket" where
  "unsubscribe peer s = s\<lparr>us_subscriptions := (us_subscriptions s)(peer := None)\<rparr>"

text \<open>\<open>unmatched_handler\<close>: entering and leaving, and the queue it hands out.\<close>

definition unmatched_enter :: "nat \<Rightarrow> shared_socket \<Rightarrow> unit result \<times> shared_socket" where
  "unmatched_enter buffer_size s =
     (if us_unmatched_queue s \<noteq> None
      then (Inl (RuntimeError ''another unmatched packet handler is already registered''), s)
      else (Inr (), s\<lparr>us_unmatched_queue := Some (buffer_size, [])\<rparr>))"

definition unmatched_exit :: "shared_socket \<Rightarrow> shared_socket" where
  "unmatched_exit s = s\<lparr>us_unmatched_queue := None\<rparr>"

definition unmatched_receive :: "shared_socket \<Rightarrow> ((bytes \<times> address) \<times> shared_socket) option" where
  "unmatched_receive s =
     (case us_unmatched_queue s of
        Some (n, x # q) \<Rightarrow> Some (x, s\<lparr>us_unmatched_queue := Some (n, q)\<rparr>)
      | _ \<Rightarrow> None)"

section \<open>The workers\<close>

text \<open>One turn of \<open>_reader_worker\<close> with a received datagram. An exception ends the worker.\<close>

definition reader_step :: "bytes \<Rightarrow> address \<Rightarrow> shared_socket \<Rightarrow> unit result \<times> shared_socket" where
  "reader_step payload sender s =
     (case us_subscriptions s sender of
        Some sub \<Rightarrow>
          (let (r, sub1) = dispatch payload sub
           in (r, s\<lparr>us_subscriptions := (us_subscriptions s)(sender \<mapsto> sub1)\<rparr>))
      | None \<Rightarrow>
          (case us_unmatched_queue s of
             None \<Rightarrow> (Inr (), s)
           | Some (n, q) \<Rightarrow>
               if length q < n
               then (Inr (), s\<lparr>us_unmatched_queue := Some (n, q @ [(payload, sender)])\<rparr>)
               else (Inr (), s)))"

text \<open>One turn of \<open>_writer_worker\<close>: the datagram it hands to the operating system.\<close>

definition writer_step :: "shared_socket \<Rightarrow> ((bytes \<times> address) \<times> shared_socket) option" where
  "writer_step s =
     (case us_send_queue s of
        Some (x # q) \<Rightarrow> Some (x, s\<lparr>us_send_queue := Some q\<rparr>)
      | _ \<Rightarrow> None)"

section \<open>UDPTransport\<close>

text \<open>The transport is its remote address; whether it is open is the second component.\<close>

record udp_transport =
  ut_remote_address :: address
  ut_subscribed :: bool

definition UDPTransport :: "string \<Rightarrow> int \<Rightarrow> udp_transport" where
  "UDPTransport host port = \<lparr>ut_remote_address = (host, port), ut_subscribed = False\<rparr>"

definition udp_aenter :: "udp_transport \<times> shared_socket \<Rightarrow> unit result \<times> (udp_transport \<times> shared_socket)" where
  "udp_aenter ts = (case ts of (t, s) \<Rightarrow>
     (case subscribe (ut_remote_address t) s of
        (Inl e, s1) \<Rightarrow> (Inl e, (t, s1))
      | (Inr _, s1) \<Rightarrow> (Inr (), (t\<lparr>ut_subscribed := True\<rparr>, s1))))"

text \<open>\<open>aclose\<close> in its two stages, between which other tasks run.\<close>

definition udp_aclose_begin :: "udp_transport \<times> shared_socket \<Rightarrow> udp_transport \<times> shared_socket" where
  "udp_aclose_begin ts = (case ts of (t, s) \<Rightarrow>
     if ut_subscribed t then (t\<lparr>ut_subscribed := False\<rparr>, close_subscription (ut_remote_address t) s) else (t, s))"

definition udp_aclose_end :: "udp_transport \<times> shared_socket \<Rightarrow> udp_transport \<times> shared_socket" where
  "udp_aclose_end ts = (case ts of (t, s) \<Rightarrow> (t, unsubscribe (ut_remote_address t) s))"

definition udp_receive :: "(udp_transport \<times> shared_socket, bytes) eff" where
  "udp_receive ts = (case ts of (t, s) \<Rightarrow>
     if \<not> ut_subscribed t then Some (Inl ClosedResourceError, (t, s))
     else (case us_subscriptions s (ut_remote_address t) of
        None \<Rightarrow> Some (Inl ClosedResourceError, (t, s))
      | Some sub \<Rightarrow> map_option
          (\<lambda>(r, sub1). (r, (t, s\<lparr>us_subscriptions := (us_subscriptions s)(ut_remote_address t \<mapsto> sub1)\<rparr>)))
          (subscription_receive sub)))"

definition udp_send :: "bytes \<Rightarrow> (udp_transport \<times> shared_socket, unit) eff" where
  "udp_send data ts = (case ts of (t, s) \<Rightarrow>
     map_option (\<lambda>(r, s1). (r, (t, s1))) (socket_send data (ut_remote_address t) s))"

section \<open>UDPListenerTransport\<close>

text \<open>The datagrams that arrive are the list \<open>ul_incoming\<close>, those sent are \<open>ul_sent\<close>.\<close>

record listener =
  ul_local_address :: address
  ul_remote_address :: "address option"
  ul_socket :: bool
  ul_incoming :: "(bytes \<times> address) list"
  ul_sent :: "(bytes \<times> address) list"

definition UDPListenerTransport :: "string \<Rightarrow> int \<Rightarrow> (bytes \<times> address) list \<Rightarrow> listener" where
  "UDPListenerTransport host port incoming =
     \<lparr>ul_local_address = (host, port), ul_remote_address = None, ul_socket = False,
      ul_incoming = incoming, ul_sent = []\<rparr>"

definition listener_aenter :: "listener \<Rightarrow> listener" where
  "listener_aenter l = l\<lparr>ul_socket := True\<rparr>"

definition listener_aclose :: "listener \<Rightarrow> listener" where
  "listener_aclose l = l\<lparr>ul_socket := False\<rparr>"

text \<open>The loop of \<open>receive\<close> over the datagrams that arrive; \<open>None\<close> when they run out.\<close>

fun listener_loop :: "(bytes \<times> address) list \<Rightarrow> listener \<Rightarrow> (bytes result \<times> listener) option" where
  "listener_loop [] l = None"
| "listener_loop ((payload, sender) # rest) l =
     (case ul_remote_address l of
        None \<Rightarrow> Some (Inr payload, l\<lparr>ul_remote_address := Some sender, ul_incoming := rest\<rparr>)
      | Some remote \<Rightarrow>
          if sender \<noteq> remote then listener_loop rest l
          else Some (Inr payload, l\<lparr>ul_incoming := rest\<rparr>))"

definition listener_receive :: "(listener, bytes) eff" where
  "listener_receive l =
     (if \<not> ul_socket l then Some (Inl ClosedResourceError, l) else listener_loop (ul_incoming l) l)"

definition listener_send :: "bytes \<Rightarrow> (listener, unit) eff" where
  "listener_send data l =
     (if \<not> ul_socket l then Some (Inl ClosedResourceError, l)
      else case ul_remote_address l of
        None \<Rightarrow> Some (Inl (RuntimeError ''socket is not connected''), l)
      | Some remote \<Rightarrow> Some (Inr (), l\<lparr>ul_sent := ul_sent l @ [(data, remote)]\<rparr>))"

end
