(* ===== verification/Network_Queues.thy ===== *)
theory Network_Queues
  imports Network
begin

text \<open>
  What the shared socket guarantees its users. A first-in first-out buffer is the interface \<open>fifo\<close>; both kinds
  of receive queues provide it. For every interleaving of datagrams, receptions, sends and
  subscriptions of other peers, a subscribed transport gets the datagrams of its own peer, in order and
  without loss, as long as its queue has room; and what the program does when it has none.
\<close>

section \<open>First in, first out\<close>

datatype 'a queue_op = Put 'a | Get

locale fifo =
  fixes put :: "'a \<Rightarrow> 'q \<Rightarrow> 'q option"
    and get :: "'q \<Rightarrow> ('a \<times> 'q) option"
    and contents :: "'q \<Rightarrow> 'a list"
  assumes put_appends: "put x q = Some q' \<Longrightarrow> contents q' = contents q @ [x]"
    and get_takes: "get q = Some (x, q') \<Longrightarrow> contents q = x # contents q'"
begin

text \<open>A sequence of operations: what was accepted, what was taken out, and the buffer at the end.\<close>

fun queue_run :: "'a queue_op list \<Rightarrow> 'q \<Rightarrow> 'a list \<times> 'a list \<times> 'q" where
  "queue_run [] q = ([], [], q)"
| "queue_run (Put x # ops) q =
     (case put x q of
        None \<Rightarrow> queue_run ops q
      | Some q1 \<Rightarrow> (let (accepted, taken, q2) = queue_run ops q1 in (x # accepted, taken, q2)))"
| "queue_run (Get # ops) q =
     (case get q of
        None \<Rightarrow> queue_run ops q
      | Some (x, q1) \<Rightarrow> (let (accepted, taken, q2) = queue_run ops q1 in (accepted, x # taken, q2)))"

lemma in_order: "queue_run ops q = (accepted, taken, q') \<Longrightarrow> contents q @ accepted = taken @ contents q'"
proof (induction ops q arbitrary: accepted taken rule: queue_run.induct)
  case (2 x ops q)
  show ?case
  proof (cases "put x q")
    case (Some q1)
    with "2.prems" obtain as where "queue_run ops q1 = (as, taken, q')" "accepted = x # as"
      by (auto split: prod.splits)
    with "2.IH"(2) [OF Some] put_appends [OF Some] show ?thesis by auto
  qed (use 2 in simp)
next
  case (3 ops q)
  show ?case
  proof (cases "get q")
    case (Some xq)
    obtain x q1 where xq: "xq = (x, q1)" by fastforce
    with "3.prems" Some obtain ts where "queue_run ops q1 = (accepted, ts, q')" "taken = x # ts"
      by (auto split: prod.splits)
    with "3.IH"(2) [OF Some xq [symmetric]] get_takes [of q x q1] Some xq show ?thesis by auto
  qed (use 3 in simp)
qed simp

end

section \<open>The queue of a subscription\<close>

definition sub_put :: "bytes \<Rightarrow> subscription \<Rightarrow> subscription option" where
  "sub_put data sub = (case dispatch data sub of (Inr _, sub1) \<Rightarrow> Some sub1 | (Inl _, _) \<Rightarrow> None)"

definition sub_get :: "subscription \<Rightarrow> (bytes \<times> subscription) option" where
  "sub_get sub = (case subscription_receive sub of Some (Inr data, sub1) \<Rightarrow> Some (data, sub1) | _ \<Rightarrow> None)"

interpretation sub: fifo sub_put sub_get sb_queue
  by unfold_locales
     (auto simp: sub_put_def sub_get_def dispatch_def subscription_receive_def split: if_splits list.splits)

section \<open>The queue of unmatched datagrams\<close>

definition unmatched_put :: "bytes \<times> address \<Rightarrow> shared_socket \<Rightarrow> shared_socket option" where
  "unmatched_put d s =
     (if us_subscriptions s (snd d) = None \<and> us_unmatched_queue (snd (reader_step (fst d) (snd d) s)) \<noteq> us_unmatched_queue s
      then Some (snd (reader_step (fst d) (snd d) s)) else None)"

definition unmatched_contents :: "shared_socket \<Rightarrow> (bytes \<times> address) list" where
  "unmatched_contents s = (case us_unmatched_queue s of None \<Rightarrow> [] | Some (n, q) \<Rightarrow> q)"

interpretation unmatched: fifo unmatched_put unmatched_receive unmatched_contents
  by unfold_locales
     (auto simp: unmatched_put_def unmatched_receive_def unmatched_contents_def reader_step_def
       split: option.splits if_splits list.splits)

section \<open>Interleavings on the shared socket\<close>

datatype net_op =
    Datagram bytes address
  | ReceiveFrom address
  | SendTo bytes address
  | Write
  | Subscribe address
  | CloseSubscription address
  | Unsubscribe address
  | UnmatchedEnter nat
  | UnmatchedExit
  | UnmatchedReceive

text \<open>What an operation answers: it returned, raised, delivered bytes, or has to wait.\<close>

datatype net_out = Returned | Raised exn | Got bytes | Waits

fun out_of :: "unit result \<Rightarrow> net_out" where
  "out_of (Inr _) = Returned"
| "out_of (Inl e) = Raised e"

fun net_exec :: "net_op \<Rightarrow> shared_socket \<Rightarrow> net_out \<times> shared_socket" where
  "net_exec (Datagram data sender) s = apfst out_of (reader_step data sender s)"
| "net_exec (ReceiveFrom p) s =
     (case udp_receive (\<lparr>ut_remote_address = p, ut_subscribed = True\<rparr>, s) of
        None \<Rightarrow> (Waits, s)
      | Some (Inr data, (_, s1)) \<Rightarrow> (Got data, s1)
      | Some (Inl e, (_, s1)) \<Rightarrow> (Raised e, s1))"
| "net_exec (SendTo data p) s =
     (case socket_send data p s of None \<Rightarrow> (Waits, s) | Some (r, s1) \<Rightarrow> (out_of r, s1))"
| "net_exec Write s = (case writer_step s of None \<Rightarrow> (Waits, s) | Some (_, s1) \<Rightarrow> (Returned, s1))"
| "net_exec (Subscribe p) s = apfst out_of (subscribe p s)"
| "net_exec (CloseSubscription p) s = (Returned, close_subscription p s)"
| "net_exec (Unsubscribe p) s = (Returned, unsubscribe p s)"
| "net_exec (UnmatchedEnter n) s = apfst out_of (unmatched_enter n s)"
| "net_exec UnmatchedExit s = (Returned, unmatched_exit s)"
| "net_exec UnmatchedReceive s =
     (case unmatched_receive s of None \<Rightarrow> (Waits, s) | Some (_, s1) \<Rightarrow> (Returned, s1))"

fun net_run :: "net_op list \<Rightarrow> shared_socket \<Rightarrow> (net_op \<times> net_out) list \<times> shared_socket" where
  "net_run [] s = ([], s)"
| "net_run (op # ops) s =
     (let (out, s1) = net_exec op s; (outs, s2) = net_run ops s1 in ((op, out) # outs, s2))"

text \<open>The datagrams of a peer that were accepted, and those its transport has received.\<close>

fun accepted_from :: "address \<Rightarrow> (net_op \<times> net_out) list \<Rightarrow> bytes list" where
  "accepted_from p [] = []"
| "accepted_from p ((op, out) # rest) =
     (case op of Datagram data sender \<Rightarrow> if sender = p \<and> out = Returned then [data] else [] | _ \<Rightarrow> []) @ accepted_from p rest"

fun received_from :: "address \<Rightarrow> (net_op \<times> net_out) list \<Rightarrow> bytes list" where
  "received_from p [] = []"
| "received_from p ((op, out) # rest) =
     (case (op, out) of (ReceiveFrom q, Got data) \<Rightarrow> if q = p then [data] else [] | _ \<Rightarrow> []) @ received_from p rest"

lemma accepted_cons: "accepted_from p (x # rest) = accepted_from p [x] @ accepted_from p rest"
  by (cases x) simp

lemma received_cons: "received_from p (x # rest) = received_from p [x] @ received_from p rest"
  by (cases x) simp

lemma exec_in_order:
  assumes "net_exec op s = (out, s')" "us_subscriptions s p = Some sub" "sb_open sub"
    and "op \<notin> {CloseSubscription p, Unsubscribe p}" "length (sb_queue sub) \<le> sb_max_buffer_size sub"
  shows "\<exists>sub'. us_subscriptions s' p = Some sub' \<and> sb_open sub' \<and> sb_max_buffer_size sub' = sb_max_buffer_size sub \<and>
    length (sb_queue sub') \<le> sb_max_buffer_size sub \<and>
    sb_queue sub @ accepted_from p [(op, out)] = received_from p [(op, out)] @ sb_queue sub'"
  using assms
proof (cases op)
  case (Datagram data sender)
  with assms show ?thesis
    by (cases "sender = p") (auto simp: reader_step_def dispatch_def Let_def split: option.splits if_splits prod.splits)
next
  case (ReceiveFrom q)
  with assms show ?thesis
    by (cases "q = p") (auto simp: udp_receive_def subscription_receive_def split: option.splits if_splits list.splits)
qed (auto simp: socket_send_def writer_step_def subscribe_def close_subscription_def unsubscribe_def unmatched_enter_def
      unmatched_exit_def unmatched_receive_def split: option.splits if_splits list.splits)

lemma run_in_order:
  assumes "net_run ops s = (outs, s')" "us_subscriptions s p = Some sub" "sb_open sub"
    and "CloseSubscription p \<notin> set ops" "Unsubscribe p \<notin> set ops" "length (sb_queue sub) \<le> sb_max_buffer_size sub"
  shows "\<exists>sub'. us_subscriptions s' p = Some sub' \<and> length (sb_queue sub') \<le> sb_max_buffer_size sub \<and>
    sb_queue sub @ accepted_from p outs = received_from p outs @ sb_queue sub'"
  using assms
proof (induction ops arbitrary: s s' outs sub)
  case (Cons op ops)
  obtain out s1 where 1: "net_exec op s = (out, s1)" by fastforce
  obtain outs2 s2 where 2: "net_run ops s1 = (outs2, s2)" by fastforce
  from exec_in_order [OF 1 Cons.prems(2,3) _ Cons.prems(6)] Cons.prems(4,5) obtain sub1 where
    sub1: "us_subscriptions s1 p = Some sub1" "sb_open sub1" "sb_max_buffer_size sub1 = sb_max_buffer_size sub"
    "length (sb_queue sub1) \<le> sb_max_buffer_size sub"
    "sb_queue sub @ accepted_from p [(op, out)] = received_from p [(op, out)] @ sb_queue sub1" by auto
  from Cons.IH [OF 2 sub1(1,2)] Cons.prems(4,5) sub1(3,4) obtain sub2 where
    "us_subscriptions s2 p = Some sub2" "length (sb_queue sub2) \<le> sb_max_buffer_size sub"
    "sb_queue sub1 @ accepted_from p outs2 = received_from p outs2 @ sb_queue sub2" by auto
  moreover have "outs = (op, out) # outs2" "s' = s2" using Cons.prems(1) 1 2 by simp_all
  moreover have "sb_queue sub @ accepted_from p [(op, out)] @ accepted_from p outs2 =
      received_from p [(op, out)] @ sb_queue sub1 @ accepted_from p outs2"
    using arg_cong [OF sub1(5), of "\<lambda>xs. xs @ accepted_from p outs2"] by (simp del: accepted_from.simps received_from.simps)
  ultimately show ?case
    by (intro exI [of _ sub2])
       (simp add: accepted_cons [of p _ outs2] received_cons [of p _ outs2] del: accepted_from.simps received_from.simps)
qed simp


section \<open>The listener\<close>

text \<open>Receiving up to \<open>n\<close> times.\<close>

fun listener_drain :: "nat \<Rightarrow> listener \<Rightarrow> bytes list \<times> listener" where
  "listener_drain 0 l = ([], l)"
| "listener_drain (Suc n) l =
     (case listener_receive l of
        Some (Inr data, l1) \<Rightarrow> (let (ds, l2) = listener_drain n l1 in (data # ds, l2))
      | _ \<Rightarrow> ([], l))"

lemma latched_loop:
  assumes "ul_remote_address l = Some a"
  shows "listener_loop ds l =
    (case dropWhile (\<lambda>d. snd d \<noteq> a) ds of [] \<Rightarrow> None | d # rest \<Rightarrow> Some (Inr (fst d), l\<lparr>ul_incoming := rest\<rparr>))"
  using assms by (induction ds) auto

lemma filter_dropWhile: "filter P ds = filter P (dropWhile (\<lambda>d. \<not> P d) ds)"
  by (induction ds) auto

lemma latched_drain:
  "ul_socket l \<Longrightarrow> ul_remote_address l = Some a \<Longrightarrow> length (ul_incoming l) \<le> n \<Longrightarrow>
   fst (listener_drain n l) = map fst (filter (\<lambda>d. snd d = a) (ul_incoming l))"
proof (induction n arbitrary: l)
  case (Suc n)
  let ?d = "dropWhile (\<lambda>d. snd d \<noteq> a) (ul_incoming l)"
  have same: "filter (\<lambda>d. snd d = a) (ul_incoming l) = filter (\<lambda>d. snd d = a) ?d" by (rule filter_dropWhile)
  show ?case
  proof (cases ?d)
    case Nil
    have "listener_loop (ul_incoming l) l = None" unfolding latched_loop [OF Suc.prems(2)] Nil by simp
    moreover have "filter (\<lambda>d. snd d = a) (ul_incoming l) = []" unfolding same Nil by simp
    ultimately show ?thesis using Suc.prems(1) by (simp add: listener_receive_def)
  next
    case (Cons d rest)
    have "snd d = a" using Cons hd_dropWhile [of "\<lambda>d. snd d \<noteq> a" "ul_incoming l"] by simp
    moreover have "length rest \<le> n"
      using Cons Suc.prems(3) length_dropWhile_le [of "\<lambda>d. snd d \<noteq> a" "ul_incoming l"] by simp
    then have "fst (listener_drain n (l\<lparr>ul_incoming := rest\<rparr>)) = map fst (filter (\<lambda>d. snd d = a) rest)"
      using Suc.IH [of "l\<lparr>ul_incoming := rest\<rparr>"] Suc.prems by simp
    moreover have "listener_loop (ul_incoming l) l = Some (Inr (fst d), l\<lparr>ul_incoming := rest\<rparr>)"
      unfolding latched_loop [OF Suc.prems(2)] Cons by simp
    moreover have "filter (\<lambda>d. snd d = a) (ul_incoming l) = filter (\<lambda>d. snd d = a) (d # rest)" unfolding same Cons ..
    ultimately show ?thesis using Suc.prems(1)
      by (auto simp: listener_receive_def split: prod.splits)
  qed
qed simp

section \<open>Properties\<close>

text \<open>C36. Datagrams arrive in order: for every interleaving of incoming datagrams, receptions, sends,
  subscriptions of other peers and unmatched traffic, what a subscribed transport has received, followed by what waits
  in its queue, is exactly what was queued before followed by the accepted datagrams of its own peer;
  and the queue never exceeds its size.\<close>

theorem datagrams_in_order:
  assumes "net_run ops s = (outs, s')" and "us_subscriptions s p = Some sub" "sb_open sub"
    and "CloseSubscription p \<notin> set ops" "Unsubscribe p \<notin> set ops"
    and "length (sb_queue sub) \<le> sb_max_buffer_size sub"
  shows "\<exists>sub'. us_subscriptions s' p = Some sub' \<and> length (sb_queue sub') \<le> sb_max_buffer_size sub \<and>
    sb_queue sub @ accepted_from p outs = received_from p outs @ sb_queue sub'"
  using assms by (rule run_in_order)

definition two_peers :: "address \<Rightarrow> address \<Rightarrow> shared_socket" where
  "two_peers p q = snd (subscribe q (snd (subscribe p
     (snd (use_enter (SharedUDPSocket ''0.0.0.0'' 14550 2))))))"

lemma two_peers_subscriptions:
  "p \<noteq> q \<Longrightarrow> us_subscriptions (two_peers p q) =
     [p \<mapsto> SharedUDPSocketSubscription 2, q \<mapsto> SharedUDPSocketSubscription 2]"
  by (simp add: two_peers_def subscribe_def use_enter_def SharedUDPSocket_def)

lemma two_peers_run:
  assumes "p \<noteq> q"
  shows "fst (net_run [Datagram [1] p, Datagram [9] q, Datagram [2] p, ReceiveFrom p] (two_peers p q)) =
    [(Datagram [1] p, Returned), (Datagram [9] q, Returned), (Datagram [2] p, Returned), (ReceiveFrom p, Got [1])]"
  using assms
  by (simp add: two_peers_subscriptions SharedUDPSocketSubscription_def reader_step_def dispatch_def
      udp_receive_def subscription_receive_def fun_upd_twist)

lemma datagrams_in_order_witness:
  "\<exists>sub'. us_subscriptions (snd (net_run [Datagram [1] (''p'', 1), Datagram [9] (''q'', 1),
       Datagram [2] (''p'', 1), ReceiveFrom (''p'', 1)] (two_peers (''p'', 1) (''q'', 1)))) (''p'', 1) = Some sub' \<and>
     length (sb_queue sub') \<le> 2 \<and> [[1], [2]] = [[1]] @ sb_queue sub'"
proof -
  let ?p = "(''p'', 1) :: address" and ?q = "(''q'', 1) :: address"
  let ?ops = "[Datagram [1] ?p, Datagram [9] ?q, Datagram [2] ?p, ReceiveFrom ?p]"
  have distinct: "?p \<noteq> ?q" by simp
  obtain outs s' where run: "net_run ?ops (two_peers ?p ?q) = (outs, s')" by fastforce
  have sub: "us_subscriptions (two_peers ?p ?q) ?p = Some (SharedUDPSocketSubscription 2)"
    by (simp add: two_peers_subscriptions [OF distinct])
  have outs: "outs = [(Datagram [1] ?p, Returned), (Datagram [9] ?q, Returned), (Datagram [2] ?p, Returned),
      (ReceiveFrom ?p, Got [1])]"
    using two_peers_run [OF distinct] unfolding run fst_conv .
  have "accepted_from ?p outs = [[1], [2]]" "received_from ?p outs = [[1]]"
    unfolding outs by simp_all
  moreover have "\<exists>sub'. us_subscriptions s' ?p = Some sub' \<and> length (sb_queue sub') \<le> 2 \<and>
      accepted_from ?p outs = received_from ?p outs @ sb_queue sub'"
    using datagrams_in_order [OF run sub] by (simp add: SharedUDPSocketSubscription_def)
  ultimately show ?thesis unfolding run snd_conv by simp
qed

text \<open>The reader is not shielded from its subscribers: a datagram from an unknown peer never raises, even
  when the queue of unmatched datagrams is full, but one from a peer whose own queue is full, or whose transport
  is between the two stages of \<open>aclose\<close>, raises in the reader task, which ends the reception for
  every transport of the socket.\<close>

theorem reader_not_shielded:
  assumes "us_subscriptions s (ut_remote_address t) = Some sub" "ut_subscribed t" "us_subscriptions s q = None"
  shows "fst (reader_step data q s) = Inr () \<and>
    (sb_open sub \<and> length (sb_queue sub) = sb_max_buffer_size sub \<longrightarrow>
       fst (reader_step data (ut_remote_address t) s) = Inl WouldBlock) \<and>
    fst (reader_step data (ut_remote_address t) (snd (udp_aclose_begin (t, s)))) = Inl ClosedResourceError"
  using assms
  by (auto simp: reader_step_def dispatch_def udp_aclose_begin_def close_subscription_def subscription_aclose_def
      split: option.splits)

lemma reader_not_shielded_witness:
  "fst (reader_step [1] (''p'', 1) (snd (udp_aclose_begin
     (\<lparr>ut_remote_address = (''p'', 1), ut_subscribed = True\<rparr>, two_peers (''p'', 1) (''q'', 1))))) =
   Inl ClosedResourceError"
  using reader_not_shielded [of "two_peers (''p'', 1) (''q'', 1)" "\<lparr>ut_remote_address = (''p'', 1), ut_subscribed = True\<rparr>"
      "SharedUDPSocketSubscription 2" "(''r'', 1)" "[1]"]
  by (simp add: two_peers_subscriptions)

text \<open>One transport per peer: while a transport is open, entering a second one for the same peer raises and
  leaves the first one's queue untouched; other peers are not affected; and once the first is closed the
  peer is free again.\<close>

theorem one_transport_per_peer:
  assumes "udp_aenter (t, s) = (Inr (), (t1, s1))" and "ut_remote_address u = ut_remote_address t"
  shows "(\<exists>e. udp_aenter (u, s1) = (Inl e, (u, s1))) \<and> ut_subscribed t1 \<and>
    (\<forall>q. q \<noteq> ut_remote_address t \<longrightarrow> us_subscriptions s1 q = us_subscriptions s q) \<and>
    (\<exists>u1 s2. udp_aenter (u, snd (udp_aclose_end (udp_aclose_begin (t1, s1)))) = (Inr (), (u1, s2)))"
proof -
  let ?p = "ut_remote_address t"
  have free: "us_subscriptions s ?p = None"
    using assms(1) by (simp add: udp_aenter_def subscribe_def split: if_splits)
  then have t1: "t1 = t\<lparr>ut_subscribed := True\<rparr>"
    and s1: "s1 = s\<lparr>us_subscriptions := (us_subscriptions s)(?p \<mapsto> SharedUDPSocketSubscription (us_buffer_size s))\<rparr>"
    using assms(1) by (simp_all add: udp_aenter_def subscribe_def)
  have "\<exists>e. udp_aenter (u, s1) = (Inl e, (u, s1))"
    by (simp add: udp_aenter_def subscribe_def s1 assms(2))
  moreover have "us_subscriptions s1 q = us_subscriptions s q" if "q \<noteq> ?p" for q
    using that by (simp add: s1)
  moreover have "us_subscriptions (snd (udp_aclose_end (udp_aclose_begin (t1, s1)))) ?p = None"
    by (simp add: udp_aclose_begin_def udp_aclose_end_def unsubscribe_def t1)
  then have "\<exists>u1 s2. udp_aenter (u, snd (udp_aclose_end (udp_aclose_begin (t1, s1)))) = (Inr (), (u1, s2))"
    by (simp add: udp_aenter_def subscribe_def assms(2))
  ultimately show ?thesis by (simp add: t1)
qed

lemma one_transport_per_peer_witness:
  "\<exists>e s1. udp_aenter (UDPTransport ''r'' 1, s1) = (Inl e, (UDPTransport ''r'' 1, s1))"
proof -
  obtain t1 s1 where "udp_aenter (UDPTransport ''r'' 1, two_peers (''p'', 1) (''q'', 1)) = (Inr (), (t1, s1))"
    by (simp add: udp_aenter_def subscribe_def UDPTransport_def two_peers_subscriptions)
  from one_transport_per_peer [OF this, of "UDPTransport ''r'' 1"] show ?thesis by blast
qed

text \<open>A listener latches on to the first sender: from then on it returns the datagrams of that sender, all
  of them and in order, skips those of everybody else, and answers go to that sender only.\<close>

theorem listener_latches:
  assumes "ul_socket l" "ul_remote_address l = None" "ul_incoming l = (data, a) # rest" "length rest < n"
  shows "fst (listener_drain n l) = data # map fst (filter (\<lambda>d. snd d = a) rest) \<and>
    (\<exists>l1. listener_receive l = Some (Inr data, l1) \<and>
       (\<forall>x. \<exists>l2. listener_send x l1 = Some (Inr (), l2) \<and> ul_sent l2 = ul_sent l @ [(x, a)]))"
proof -
  obtain k where n: "n = Suc k" "length rest \<le> k" using assms(4) by (cases n) auto
  let ?l = "l\<lparr>ul_remote_address := Some a, ul_incoming := rest\<rparr>"
  have first: "listener_receive l = Some (Inr data, ?l)" using assms(1-3) by (simp add: listener_receive_def)
  moreover have "fst (listener_drain k ?l) = map fst (filter (\<lambda>d. snd d = a) rest)"
    using latched_drain [of ?l a k] assms(1) n(2) by simp
  ultimately show ?thesis using assms(1) n(1)
    by (auto simp: listener_send_def split: prod.splits)
qed

lemma listener_latches_witness:
  "fst (listener_drain 5 (listener_aenter (UDPListenerTransport '''' 0
      [([1], (''p'', 7)), ([2], (''q'', 7)), ([3], (''p'', 7))]))) = [[1], [3]]"
  using listener_latches [of "listener_aenter (UDPListenerTransport '''' 0
      [([1], (''p'', 7)), ([2], (''q'', 7)), ([3], (''p'', 7))])" "[1]" "(''p'', 7)"
      "[([2], (''q'', 7)), ([3], (''p'', 7))]" 5]
  by (simp add: listener_aenter_def UDPListenerTransport_def)

end
