(* ===== verification/Network_Isolation.thy ===== *)
theory Network_Isolation
  imports Network_Queues
begin

text \<open>
  The shared socket refines one private mailbox per peer. A mailbox is the specification of what a transport
  expects of its connection: it is absent, open with the datagrams in it, or shut. For every interleaving
  of the operations of all peers, what the operations of one peer answer, and the state
  they leave, is what its mailbox alone says.
\<close>

section \<open>The specification\<close>

datatype mailbox = NoMailbox | OpenMailbox "bytes list" | ShutMailbox

datatype peer_op = Deliver bytes | Take | Attach | Shut | Detach

fun mailbox_exec :: "nat \<Rightarrow> peer_op \<Rightarrow> mailbox \<Rightarrow> net_out \<times> mailbox" where
  "mailbox_exec n (Deliver data) (OpenMailbox q) =
     (if length q < n then (Returned, OpenMailbox (q @ [data])) else (Raised WouldBlock, OpenMailbox q))"
| "mailbox_exec n (Deliver data) ShutMailbox = (Raised ClosedResourceError, ShutMailbox)"
| "mailbox_exec n (Deliver data) NoMailbox = (Returned, NoMailbox)"
| "mailbox_exec n Take (OpenMailbox (data # q)) = (Got data, OpenMailbox q)"
| "mailbox_exec n Take (OpenMailbox []) = (Waits, OpenMailbox [])"
| "mailbox_exec n Take m = (Raised ClosedResourceError, m)"
| "mailbox_exec n Attach NoMailbox = (Returned, OpenMailbox [])"
| "mailbox_exec n Attach m = (Raised (RuntimeError ''Another subscription already exists for this address''), m)"
| "mailbox_exec n Shut NoMailbox = (Returned, NoMailbox)"
| "mailbox_exec n Shut m = (Returned, ShutMailbox)"
| "mailbox_exec n Detach m = (Returned, NoMailbox)"

fun mailbox_run :: "nat \<Rightarrow> peer_op list \<Rightarrow> mailbox \<Rightarrow> net_out list \<times> mailbox" where
  "mailbox_run n [] m = ([], m)"
| "mailbox_run n (op # ops) m =
     (let (out, m1) = mailbox_exec n op m; (outs, m2) = mailbox_run n ops m1 in (out # outs, m2))"

section \<open>The abstraction\<close>

fun mailbox_of :: "subscription option \<Rightarrow> mailbox" where
  "mailbox_of None = NoMailbox"
| "mailbox_of (Some sub) = (if sb_open sub then OpenMailbox (sb_queue sub) else ShutMailbox)"

fun op_of_peer :: "address \<Rightarrow> net_op \<Rightarrow> peer_op option" where
  "op_of_peer p (Datagram data sender) = (if sender = p then Some (Deliver data) else None)"
| "op_of_peer p (ReceiveFrom q) = (if q = p then Some Take else None)"
| "op_of_peer p (Subscribe q) = (if q = p then Some Attach else None)"
| "op_of_peer p (CloseSubscription q) = (if q = p then Some Shut else None)"
| "op_of_peer p (Unsubscribe q) = (if q = p then Some Detach else None)"
| "op_of_peer p _ = None"

definition uniform :: "shared_socket \<Rightarrow> bool" where
  "uniform s \<longleftrightarrow> (\<forall>p sub. us_subscriptions s p = Some sub \<longrightarrow> sb_max_buffer_size sub = us_buffer_size s)"

lemmas step_defs = reader_step_def dispatch_def udp_receive_def subscription_receive_def subscribe_def
  close_subscription_def unsubscribe_def subscription_aclose_def SharedUDPSocketSubscription_def
  socket_send_def writer_step_def unmatched_enter_def unmatched_exit_def unmatched_receive_def

lemma exec_uniform:
  assumes "net_exec op s = (out, s')" "uniform s"
  shows "uniform s' \<and> us_buffer_size s' = us_buffer_size s"
proof (cases op)
  case (Datagram data sender)
  with assms show ?thesis
    by (auto simp: uniform_def step_defs Let_def split: option.splits if_splits prod.splits)
next
  case (ReceiveFrom q)
  with assms show ?thesis
    by (auto simp: uniform_def step_defs split: option.splits if_splits list.splits)
qed (use assms in \<open>auto simp: uniform_def step_defs split: option.splits if_splits list.splits\<close>)

lemma exec_other:
  assumes "net_exec op s = (out, s')" "op_of_peer p op = None"
  shows "us_subscriptions s' p = us_subscriptions s p"
  using assms
  by (cases op) (auto simp: step_defs Let_def split: option.splits if_splits list.splits prod.splits)

lemma exec_own:
  assumes "net_exec op s = (out, s')" "op_of_peer p op = Some pop" "uniform s"
  shows "mailbox_exec (us_buffer_size s) pop (mailbox_of (us_subscriptions s p)) = (out, mailbox_of (us_subscriptions s' p))"
proof (cases "us_subscriptions s p")
  case None
  with assms show ?thesis
    by (cases op) (auto simp: step_defs Let_def split: option.splits if_splits list.splits prod.splits)
next
  case (Some sub)
  then have "sb_max_buffer_size sub = us_buffer_size s" using assms(3) unfolding uniform_def by blast
  with assms Some show ?thesis
    by (cases op; cases "sb_open sub"; cases "sb_queue sub")
       (auto simp: step_defs Let_def split: option.splits if_splits list.splits prod.splits)
qed

definition answers_to :: "address \<Rightarrow> (net_op \<times> net_out) list \<Rightarrow> net_out list" where
  "answers_to p outs = map snd (filter (\<lambda>(op, _). op_of_peer p op \<noteq> None) outs)"

lemma run_isolated:
  "net_run ops s = (outs, s') \<Longrightarrow> uniform s \<Longrightarrow>
   mailbox_run (us_buffer_size s) (List.map_filter (op_of_peer p) ops) (mailbox_of (us_subscriptions s p)) =
     (answers_to p outs, mailbox_of (us_subscriptions s' p))"
proof (induction ops arbitrary: s s' outs)
  case Nil
  then show ?case by (simp add: answers_to_def)
next
  case (Cons op ops)
  obtain out s1 where 1: "net_exec op s = (out, s1)" by fastforce
  obtain outs2 s2 where 2: "net_run ops s1 = (outs2, s2)" by fastforce
  have eq: "outs = (op, out) # outs2" "s' = s2" using Cons.prems(1) 1 2 by simp_all
  have same: "us_buffer_size s1 = us_buffer_size s" using exec_uniform [OF 1 Cons.prems(2)] by blast
  have "uniform s1" using exec_uniform [OF 1 Cons.prems(2)] by blast
  note IH = Cons.IH [OF 2 this, unfolded same]
  show ?case
  proof (cases "op_of_peer p op")
    case None
    with IH exec_other [OF 1] show ?thesis by (simp add: eq answers_to_def)
  next
    case (Some pop)
    with IH exec_own [OF 1 Some Cons.prems(2)] show ?thesis
      by (simp add: eq answers_to_def)
  qed
qed

section \<open>The property\<close>



end
