(* ===== verification/Uploader_Socket.thy ===== *)
theory Uploader_Socket
  imports Network
begin

text \<open>
  How \<open>Uploader\<close> of \<^verbatim>\<open>uploader.py\<close> brings up the UDP socket that its tasks share, inside \<open>use()\<close>. The lock
  around it makes a call one step. \<open>bind\<close> is the operating system's answer to the creation of the socket.
\<close>

record uploader_object =
  up_shared_udp_socket :: "shared_socket option"
  up_task_group :: bool

definition Uploader :: uploader_object where
  "Uploader = \<lparr>up_shared_udp_socket = None, up_task_group = False\<rparr>"

text \<open>Leaving \<open>use\<close> cancels the task that runs the shared socket, whose own \<open>use\<close> then ends.\<close>

definition uploader_use_enter :: "uploader_object \<Rightarrow> uploader_object" where
  "uploader_use_enter u = u\<lparr>up_task_group := True\<rparr>"

definition uploader_use_exit :: "uploader_object \<Rightarrow> uploader_object" where
  "uploader_use_exit u =
     u\<lparr>up_shared_udp_socket := map_option use_exit (up_shared_udp_socket u), up_task_group := False\<rparr>"

text \<open>\<open>SharedUDPSocket.run\<close> up to \<open>task_status.started()\<close>.\<close>

definition socket_run :: "unit result \<Rightarrow> shared_socket \<Rightarrow> unit result \<times> shared_socket" where
  "socket_run bind s = (case bind of Inl e \<Rightarrow> (Inl e, s) | Inr _ \<Rightarrow> use_enter s)"

text \<open>The object is stored before it is started.\<close>

definition ensure_shared_udp_socket_is_up ::
  "unit result \<Rightarrow> uploader_object \<Rightarrow> shared_socket result \<times> uploader_object" where
  "ensure_shared_udp_socket_is_up bind u =
     (case up_shared_udp_socket u of
        Some s \<Rightarrow> (Inr s, u)
      | None \<Rightarrow>
          if \<not> up_task_group u then (Inl (RuntimeError ''uploader is not in use yet''), u)
          else
            let (r, s) = socket_run bind (SharedUDPSocket ''0.0.0.0'' 14550 64);
                u1 = u\<lparr>up_shared_udp_socket := Some s\<rparr>
            in case r of Inl e \<Rightarrow> (Inl e, u1) | Inr _ \<Rightarrow> (Inr s, u1))"

definition get_shared_udp_socket :: "unit result \<Rightarrow> uploader_object \<Rightarrow> shared_socket result \<times> uploader_object" where
  "get_shared_udp_socket bind u = ensure_shared_udp_socket_is_up bind u"

section \<open>One socket, and one chance\<close>

definition dead :: "shared_socket \<Rightarrow> bool" where
  "dead s \<longleftrightarrow> \<not> us_socket s \<and> us_send_queue s = None"

lemma dead_send: "dead s \<Longrightarrow> socket_send data a s = Some (Inl ClosedResourceError, s)"
  by (simp add: dead_def socket_send_def)

text \<open>C32. The shared socket gets one chance: in an uploader in use the first request either yields an open socket, and
  every later request the same one without binding again, or raises what the operating system raised. After such a
  failure, and after the end of a session that had a socket, every later request returns a socket that was
  never opened again, also in a new session, so that every send to it raises.\<close>

theorem shared_socket_one_chance:
  assumes "up_shared_udp_socket u = None" "up_task_group u" "get_shared_udp_socket bind u = (r, u1)"
  shows "(\<forall>e. bind = Inl e \<longrightarrow> r = Inl e \<and>
      (\<exists>s. get_shared_udp_socket bind2 u1 = (Inr s, u1) \<and> socket_send data a s = Some (Inl ClosedResourceError, s))) \<and>
    (bind = Inr () \<longrightarrow> (\<exists>s. r = Inr s \<and> us_socket s \<and> us_send_queue s = Some [] \<and>
       get_shared_udp_socket bind2 u1 = (Inr s, u1) \<and>
       (\<exists>t u2. get_shared_udp_socket bind2 (uploader_use_enter (uploader_use_exit u1)) = (Inr t, u2) \<and>
          socket_send data a t = Some (Inl ClosedResourceError, t))))"
proof (cases bind)
  case (Inl e)
  then have "r = Inl e" "up_shared_udp_socket u1 = Some (SharedUDPSocket ''0.0.0.0'' 14550 64)"
    using assms by (auto simp: get_shared_udp_socket_def ensure_shared_udp_socket_is_up_def socket_run_def)
  moreover have "dead (SharedUDPSocket ''0.0.0.0'' 14550 64)" by (simp add: dead_def SharedUDPSocket_def)
  ultimately show ?thesis using Inl
    by (simp add: get_shared_udp_socket_def ensure_shared_udp_socket_is_up_def dead_send)
next
  case (Inr x)
  let ?s = "snd (use_enter (SharedUDPSocket ''0.0.0.0'' 14550 64))"
  have enter: "use_enter (SharedUDPSocket ''0.0.0.0'' 14550 64) = (Inr (), ?s)" and "us_socket ?s" "us_send_queue ?s = Some []"
    by (simp_all add: use_enter_def SharedUDPSocket_def)
  moreover have "socket_run bind (SharedUDPSocket ''0.0.0.0'' 14550 64) = (Inr (), ?s)"
    using Inr enter by (simp add: socket_run_def)
  then have "get_shared_udp_socket bind u = (Inr ?s, u\<lparr>up_shared_udp_socket := Some ?s\<rparr>)"
    using assms(1,2) by (simp add: get_shared_udp_socket_def ensure_shared_udp_socket_is_up_def)
  then have "r = Inr ?s" "up_shared_udp_socket u1 = Some ?s" using assms(3) by auto
  moreover have "dead (use_exit ?s)" by (simp add: dead_def use_exit_def)
  ultimately show ?thesis using Inr
    by (simp add: get_shared_udp_socket_def ensure_shared_udp_socket_is_up_def uploader_use_enter_def
        uploader_use_exit_def dead_send)
qed

lemma shared_socket_one_chance_witness:
  "\<exists>u1 s. get_shared_udp_socket (Inl (OSError (Some 98) '''')) (uploader_use_enter Uploader) = (Inl (OSError (Some 98) ''''), u1) \<and>
     get_shared_udp_socket (Inr ()) u1 = (Inr s, u1) \<and> socket_send [1] (''h'', 1) s = Some (Inl ClosedResourceError, s)"
proof -
  let ?u = "uploader_use_enter Uploader"
  obtain r u1 where run: "get_shared_udp_socket (Inl (OSError (Some 98) '''')) ?u = (r, u1)" by fastforce
  have "up_shared_udp_socket ?u = None" "up_task_group ?u" by (simp_all add: uploader_use_enter_def Uploader_def)
  from shared_socket_one_chance [OF this run, of "Inr ()" "[1]" "(''h'', 1)"] run show ?thesis by auto
qed

end
