(* ===== verification/Scanners.thy ===== *)
theory Scanners
  imports Uploader Network "HOL-Library.Sublist"
begin

text \<open>
  The scanners under \<^verbatim>\<open>scanners/\<close>, which find the targets to upload to, and the recognisers and platform
  tests of \<^verbatim>\<open>utils.py\<close> that they use. The UDP scanner is a fold over the datagrams it takes from the
  queue of unmatched datagrams. The serial scanner runs beside its inspection tasks; \<open>scan_step\<close> is
  the step relation of the two, with the yielded device as its label. \<open>glob\<close> and \<open>comports\<close> are inputs.
\<close>

section \<open>Platforms and ports\<close>

text \<open>What \<open>system()\<close> and \<open>uname()[2]\<close> return.\<close>

record platform =
  pf_system :: string
  pf_release :: string

definition lower_char :: "char \<Rightarrow> char" where
  "lower_char c = (let n = of_char c :: nat in if 65 \<le> n \<and> n \<le> 90 then char_of (n + 32) else c)"

definition lower :: "string \<Rightarrow> string" where
  "lower s = map lower_char s"

definition is_cygwin :: "platform \<Rightarrow> bool" where
  "is_cygwin pf \<longleftrightarrow> prefix ''cygwin'' (lower (pf_system pf))"

definition is_linux :: "platform \<Rightarrow> bool" where
  "is_linux pf \<longleftrightarrow> pf_system pf = ''Linux''"

definition is_macos :: "platform \<Rightarrow> bool" where
  "is_macos pf \<longleftrightarrow> pf_system pf = ''Darwin''"

definition is_wsl :: "platform \<Rightarrow> bool" where
  "is_wsl pf \<longleftrightarrow> sublist ''Microsoft'' (pf_release pf)"

definition get_default_serial_port_candidates :: "platform \<Rightarrow> string list" where
  "get_default_serial_port_candidates pf =
     [''/dev/serial/by-id/usb-Ardu*'', ''/dev/serial/by-id/usb-3D*'', ''/dev/serial/by-id/usb-APM*'',
      ''/dev/serial/by-id/usb-Radio*'', ''/dev/serial/by-id/usb-*_3DR_*'',
      ''/dev/serial/by-id/usb-Hex_Technology_Limited*'', ''/dev/serial/by-id/usb-Hex_ProfiCNC*'',
      ''/dev/serial/by-id/usb-Holybro*'', ''/dev/serial/by-id/usb-mRo*'', ''/dev/tty.usbmodem*''] @
     (if is_cygwin pf \<or> is_wsl pf then [''/dev/ttyS*''] else [])"

definition should_use_globs :: "platform \<Rightarrow> bool" where
  "should_use_globs pf \<longleftrightarrow> is_cygwin pf \<or> is_linux pf \<or> is_macos pf"

definition get_serial_port_candidates :: "platform \<Rightarrow> (string \<Rightarrow> string list) \<Rightarrow> string list option \<Rightarrow> string list" where
  "get_serial_port_candidates pf glob seed =
     (let patterns = (case seed of None \<Rightarrow> [] | Some ps \<Rightarrow> ps);
          port_list = (if should_use_globs pf then concat (map glob patterns) else []);
          system_str = lower (pf_system pf)
      in if sublist ''cygwin'' system_str then port_list
         else if sublist ''darwin'' system_str
         then filter (\<lambda>port. \<not> sublist ''COM'' port \<and> \<not> sublist ''ACM'' port) port_list
         else if sublist ''win'' system_str then filter (\<lambda>port. CHR ''/'' \<notin> set port) port_list
         else port_list)"

text \<open>\<open>iter_chunks\<close>; a step of zero makes \<open>range\<close> raise.\<close>

function chunks_from :: "'a list \<Rightarrow> nat \<Rightarrow> nat \<Rightarrow> 'a list list" where
  "chunks_from seq n offset =
     (if 0 < n \<and> offset < length seq then take n (drop offset seq) # chunks_from seq n (offset + n) else [])"
  by pat_completeness auto
termination
  by (relation "measure (\<lambda>(seq, n, offset). length seq - offset)") auto

declare chunks_from.simps [simp del]

definition iter_chunks :: "'a list \<Rightarrow> nat \<Rightarrow> nat \<Rightarrow> 'a list list result" where
  "iter_chunks seq n start = (if n = 0 then Inl (ValueError ''range() arg 3 must not be zero'') else Inr (chunks_from seq n start))"

section \<open>Recognisers\<close>

text \<open>A port that is not a USB device has \<open>None\<close> for both.\<close>

definition looks_like_flight_controller_vid_pid_pair :: "int option \<Rightarrow> int option \<Rightarrow> bool" where
  "looks_like_flight_controller_vid_pid_pair vid pid \<longleftrightarrow>
     vid = Some 0x1209 \<and> pid \<in> {Some 0x5740, Some 0x5741}"

definition looks_like_mavlink_heartbeat_from_autopilot :: "bytes \<Rightarrow> bool" where
  "looks_like_mavlink_heartbeat_from_autopilot data =
     (if data = [] then False
      else if data ! 0 = 0xFE \<and> length data \<ge> 8 then data ! 4 = 1 \<and> data ! 5 = 0
      else if data ! 0 = 0xFD \<and> length data \<ge> 12 then data ! 6 = 1 \<and> take 3 (drop 7 data) = [0, 0, 0]
      else False)"

section \<open>FixedTargetList\<close>

definition FixedTargetList_run :: "string list \<Rightarrow> string list" where
  "FixedTargetList_run targets = targets"

section \<open>UDPMAVLinkHeartbeatScanner\<close>

text \<open>\<open>str(i)\<close> for an integer, and \<open>f"{host}:{port}"\<close>.\<close>

fun decimal :: "nat \<Rightarrow> string" where
  "decimal n = (if n < 10 then [] else decimal (n div 10)) @ [char_of (48 + n mod 10)]"

declare decimal.simps [simp del]

definition str_int :: "int \<Rightarrow> string" where
  "str_int i = (if i < 0 then CHR ''-'' # decimal (nat (- i)) else decimal (nat i))"

definition target_of :: "address \<Rightarrow> string" where
  "target_of sender = (case sender of (host, port) \<Rightarrow> host @ '':'' @ str_int port)"

text \<open>One turn of the loop: the targets it yields, and the senders yielded so far.\<close>

definition udp_scan_step :: "bytes \<times> address \<Rightarrow> address list \<Rightarrow> string list \<times> address list" where
  "udp_scan_step d yielded = (case d of (payload, sender) \<Rightarrow>
     if sender \<notin> set yielded \<and> looks_like_mavlink_heartbeat_from_autopilot payload
     then ([target_of sender], yielded @ [sender])
     else ([], yielded))"

fun udp_scan :: "(bytes \<times> address) list \<Rightarrow> address list \<Rightarrow> string list \<times> address list" where
  "udp_scan [] yielded = ([], yielded)"
| "udp_scan (d # ds) yielded =
     (let (ts, yielded1) = udp_scan_step d yielded; (us, yielded2) = udp_scan ds yielded1
      in (ts @ us, yielded2))"

text \<open>\<open>run\<close> on the datagrams that come out of the queue, from its entry into the unmatched handler on.\<close>

definition UDPMAVLinkHeartbeatScanner_run ::
  "(bytes \<times> address) list \<Rightarrow> shared_socket \<Rightarrow> string list result \<times> shared_socket" where
  "UDPMAVLinkHeartbeatScanner_run datagrams s =
     (case allow_broadcasts s of
        Inl e \<Rightarrow> (Inl e, s)
      | Inr _ \<Rightarrow>
          (case unmatched_enter 256 s of
             (Inl e, s1) \<Rightarrow> (Inl e, s1)
           | (Inr _, s1) \<Rightarrow> (Inr (fst (udp_scan datagrams [])), unmatched_exit s1)))"

section \<open>SerialPortScanner\<close>

datatype serial_port_state = ToYield | Yielded | Ignored | Inspecting

record port_info =
  po_name :: string
  po_device :: string
  po_vid :: "int option"
  po_pid :: "int option"

definition should_inspect_port :: "platform \<Rightarrow> port_info \<Rightarrow> bool" where
  "should_inspect_port pf port =
     (if is_macos pf then prefix ''cu.usbserial'' (po_name port) \<or> prefix ''cu.usbmodem'' (po_name port)
      else looks_like_flight_controller_vid_pid_pair (po_vid port) (po_pid port))"

definition inspect_port_inner :: "platform \<Rightarrow> port_info \<Rightarrow> bool" where
  "inspect_port_inner pf port = (if \<not> should_inspect_port pf port then False else True)"

text \<open>
  \<open>seen_ports\<close>, the inspections that were started and have not finished, and the scan in
  progress: the ports left of it and the names met so far; \<open>None\<close> while the scanner waits for the next period.
\<close>

record serial_scan =
  sc_seen :: "string \<rightharpoonup> serial_port_state"
  sc_pending :: "port_info list"
  sc_scan :: "(port_info list \<times> string set) option"

definition serial_scan_start :: serial_scan where
  "serial_scan_start = \<lparr>sc_seen = Map.empty, sc_pending = [], sc_scan = None\<rparr>"

text \<open>The turn of the scan for one port: the new state and what it yields.\<close>

definition scan_port :: "port_info \<Rightarrow> serial_scan \<Rightarrow> string option \<times> serial_scan" where
  "scan_port port s =
     (case sc_seen s (po_name port) of
        Some ToYield \<Rightarrow> (Some (po_device port), s\<lparr>sc_seen := (sc_seen s)(po_name port \<mapsto> Yielded)\<rparr>)
      | Some Yielded \<Rightarrow> (None, s)
      | Some Ignored \<Rightarrow> (None, s)
      | Some Inspecting \<Rightarrow> (None, s)
      | None \<Rightarrow> (None, s\<lparr>sc_seen := (sc_seen s)(po_name port \<mapsto> Inspecting), sc_pending := sc_pending s @ [port]\<rparr>))"

definition forget_unseen :: "string set \<Rightarrow> serial_scan \<Rightarrow> serial_scan" where
  "forget_unseen names s = s\<lparr>sc_seen := sc_seen s |` names\<rparr>"

definition when_done :: "string \<Rightarrow> bool \<Rightarrow> serial_scan \<Rightarrow> serial_scan" where
  "when_done name result s = s\<lparr>sc_seen := (sc_seen s)(name \<mapsto> (if result then ToYield else Ignored))\<rparr>"

datatype scan_label = Listed "port_info list" | Visited port_info "string option" | Swept | Inspected port_info

text \<open>The scanner and its inspection tasks interleave where the scanner awaits: between periods and at a \<open>yield\<close>.\<close>

inductive scan_step :: "platform \<Rightarrow> serial_scan \<Rightarrow> scan_label \<Rightarrow> serial_scan \<Rightarrow> bool" for pf where
  list_ports: "sc_scan s = None \<Longrightarrow> scan_step pf s (Listed ports) (s\<lparr>sc_scan := Some (ports, {})\<rparr>)"
| visit: "sc_scan s = Some (port # ports, names) \<Longrightarrow> scan_port port s = (out, s1) \<Longrightarrow>
    scan_step pf s (Visited port out) (s1\<lparr>sc_scan := Some (ports, insert (po_name port) names)\<rparr>)"
| sweep: "sc_scan s = Some ([], names) \<Longrightarrow> scan_step pf s Swept ((forget_unseen names s)\<lparr>sc_scan := None\<rparr>)"
| inspected: "sc_pending s = before @ port # after \<Longrightarrow>
    scan_step pf s (Inspected port)
      ((when_done (po_name port) (inspect_port_inner pf port) s)\<lparr>sc_pending := before @ after\<rparr>)"

inductive scan_run :: "platform \<Rightarrow> serial_scan \<Rightarrow> scan_label list \<Rightarrow> serial_scan \<Rightarrow> bool" for pf s where
  none: "scan_run pf s [] s"
| step: "scan_run pf s ls s1 \<Longrightarrow> scan_step pf s1 l s2 \<Longrightarrow> scan_run pf s (ls @ [l]) s2"

inductive_simps scan_run_Nil: "scan_run pf s [] s'"

end
