(* ===== verification/Scanner_Targets.thy ===== *)
theory Scanner_Targets
  imports Scanners Mavlink_Roundtrip
begin

text \<open>
  What the scanners promise the uploader: the heartbeat recogniser decides what it claims to decide
  on every packet of the codec, a sender is proposed once, the text of a target is taken apart
  again into the address it was made of, and a serial port is proposed once per appearance.
\<close>

section \<open>Numbers as text\<close>

lemma decimal_digits: "c \<in> set (decimal n) \<Longrightarrow> is_digit c"
proof (induction n rule: decimal.induct)
  case (1 n)
  have "n mod 10 < 10" by simp
  then have "(of_char (char_of (48 + n mod 10) :: char) :: nat) = 48 + n mod 10" by (simp add: of_char_mod_256)
  then have "is_digit (char_of (48 + n mod 10))" by (simp add: is_digit_def)
  with 1 show ?case by (subst (asm) (2) decimal.simps) (auto split: if_splits)
qed

lemma decimal_not_Nil [simp]: "decimal n \<noteq> []"
  by (subst decimal.simps) simp

definition digits_value :: "int \<Rightarrow> string \<Rightarrow> int" where
  "digits_value acc s = foldl (\<lambda>a c. a * 10 + (of_char c - 48)) acc s"

lemma digits_value_decimal: "digits_value 0 (decimal n) = int n"
proof (induction n rule: decimal.induct)
  case (1 n)
  have "n mod 10 < 10" by simp
  then have "(of_char (char_of (48 + n mod 10) :: char) :: nat) = 48 + n mod 10" by (simp add: of_char_mod_256)
  then have "int (of_char (char_of (48 + n mod 10) :: char)) = int (48 + n mod 10)" by (rule arg_cong)
  then have d: "(of_char (char_of (48 + n mod 10) :: char) :: int) = 48 + int (n mod 10)"
    unfolding of_nat_of_char by simp
  show ?case
  proof (cases "n < 10")
    case True
    then show ?thesis using d by (subst decimal.simps) (simp add: digits_value_def)
  next
    case False
    with 1 have "digits_value 0 (decimal (n div 10)) = int (n div 10)" by simp
    with False d show ?thesis by (subst decimal.simps) (simp add: digits_value_def zdiv_int zmod_int)
  qed
qed

lemma int_digits_value:
  "(\<forall>c \<in> set s. is_digit c) \<Longrightarrow> s \<noteq> [] \<or> after_digit \<Longrightarrow> int_digits s after_digit acc = Some (digits_value acc s)"
  by (induction s arbitrary: after_digit acc) (auto simp: digits_value_def)

lemma int_digits_decimal: "int_digits (decimal n) False 0 = Some (int n)"
  using int_digits_value [of "decimal n" False 0] decimal_digits by (simp add: digits_value_decimal)

lemma digit_chars: "is_digit c \<Longrightarrow> \<not> is_space c \<and> c \<noteq> CHR '':'' \<and> c \<noteq> CHR ''-'' \<and> c \<noteq> CHR ''+''"
  by (auto simp: is_digit_def is_space_def)

lemma strip_id: "s \<noteq> [] \<Longrightarrow> \<not> is_space (hd s) \<Longrightarrow> \<not> is_space (last s) \<Longrightarrow> strip s = s"
proof -
  assume s: "s \<noteq> []" "\<not> is_space (hd s)" "\<not> is_space (last s)"
  have "dropWhile is_space s = s" using s(1,2) by (cases s) auto
  moreover have "dropWhile is_space (rev s) = rev s" using s(1,3) by (cases s rule: rev_cases) auto
  ultimately show ?thesis by (simp add: strip_def)
qed

lemma str_int_ends:
  "str_int i \<noteq> []" "\<not> is_space (hd (str_int i))" "\<not> is_space (last (str_int i))" "CHR '':'' \<notin> set (str_int i)"
proof -
  have d: "\<not> is_space (hd (decimal n)) \<and> \<not> is_space (last (decimal n)) \<and> CHR '':'' \<notin> set (decimal n)" for n
    using decimal_digits [of _ n] digit_chars by (metis decimal_not_Nil hd_in_set last_in_set)
  have m: "\<not> is_space CHR ''-''" by (simp add: is_space_def)
  show "str_int i \<noteq> []" "\<not> is_space (hd (str_int i))" "\<not> is_space (last (str_int i))" "CHR '':'' \<notin> set (str_int i)"
    using d m by (auto simp: str_int_def)
qed

lemma py_int_str_int: "py_int (str_int i) = Inr i"
proof -
  have s: "strip (str_int i) = str_int i" by (intro strip_id str_int_ends)
  obtain c cs where d: "decimal (nat i) = c # cs" by (cases "decimal (nat i)") auto
  then have "c \<noteq> CHR ''-''" "c \<noteq> CHR ''+''" using decimal_digits [of c "nat i"] digit_chars [of c] by simp_all
  then show ?thesis
    using int_digits_decimal [of "nat i"] int_digits_decimal [of "nat (- i)"] d
    unfolding py_int_def s by (cases "i < 0") (simp_all add: str_int_def del: int_digits.simps)
qed

lemma int_digits_colon: "CHR '':'' \<in> set s \<Longrightarrow> int_digits s after_digit acc = None"
  by (induction s arbitrary: after_digit acc) (auto simp: is_digit_def)

lemma dropWhile_keeps: "x \<in> set s \<Longrightarrow> \<not> P x \<Longrightarrow> x \<in> set (dropWhile P s)"
  by (induction s) auto

lemma py_int_colon: "CHR '':'' \<in> set s \<Longrightarrow> py_int s = Inl (ValueError ''invalid literal for int()'')"
proof -
  assume "CHR '':'' \<in> set s"
  moreover have "\<not> is_space CHR '':''" by (simp add: is_space_def)
  ultimately have "CHR '':'' \<in> set (strip s)" by (simp add: strip_def dropWhile_keeps)
  then show ?thesis
    using int_digits_colon [of "strip s"] int_digits_colon [of "tl (strip s)"]
    by (cases "strip s") (auto simp: py_int_def)
qed

section \<open>Targets\<close>

lemma eff_bind_result:
  "eff_bind (eff_result (Inr x)) k = k x" "eff_bind (eff_result (Inl e)) k = eff_raise e"
  by (simp_all add: fun_eq_iff eff_bind_def eff_result_def eff_raise_def)

lemma partition_target:
  "CHR '':'' \<notin> set host \<Longrightarrow> partition_at CHR '':'' (host @ CHR '':'' # rest) = (host, True, rest)"
  by (induction host) (auto simp: partition_at_def)

lemma inj_target_of: "inj target_of"
proof (rule injI)
  fix a b assume eq: "target_of a = target_of b"
  obtain h p k q where ab [simp]: "a = (h, p)" "b = (k, q)" by (cases a; cases b)
  have colon: "h @ CHR '':'' # str_int p = k @ CHR '':'' # str_int q" using eq by (simp add: target_of_def)
  have no: "CHR '':'' \<notin> set (rev (str_int i))" for i using str_int_ends(4) [of i] by simp
  have "rev (str_int p) @ CHR '':'' # rev h = rev (str_int q) @ CHR '':'' # rev k"
    using arg_cong [OF colon, of rev] by simp
  from arg_cong [OF this, of "partition_at CHR '':''"]
  have "rev (str_int p) = rev (str_int q) \<and> rev h = rev k"
    unfolding partition_target [OF no] by simp
  then have "h = k" and strs: "str_int p = str_int q" by simp_all
  moreover from arg_cong [OF strs, of py_int] have "p = q" unfolding py_int_str_int by simp
  ultimately show "a = b" by simp
qed

section \<open>The UDP scanner\<close>

lemma udp_scan_yields:
  "\<exists>senders. udp_scan ds yielded = (map target_of senders, yielded @ senders) \<and>
     distinct senders \<and> set senders \<inter> set yielded = {} \<and>
     set senders \<union> set yielded = {a. \<exists>p. (p, a) \<in> set ds \<and> looks_like_mavlink_heartbeat_from_autopilot p} \<union> set yielded"
proof (induction ds arbitrary: yielded)
  case (Cons d ds)
  obtain p a where d: "d = (p, a)" by (cases d)
  show ?case
  proof (cases "a \<notin> set yielded \<and> looks_like_mavlink_heartbeat_from_autopilot p")
    case True
    from Cons.IH [of "yielded @ [a]"] obtain senders where
      s: "udp_scan ds (yielded @ [a]) = (map target_of senders, (yielded @ [a]) @ senders)" "distinct senders"
      "set senders \<inter> set (yielded @ [a]) = {}"
      "set senders \<union> set (yielded @ [a]) =
        {a. \<exists>p. (p, a) \<in> set ds \<and> looks_like_mavlink_heartbeat_from_autopilot p} \<union> set (yielded @ [a])" by blast
    from True s(1) have "udp_scan (d # ds) yielded = (map target_of (a # senders), yielded @ a # senders)"
      by (simp add: d udp_scan_step_def)
    moreover have "distinct (a # senders)" "set (a # senders) \<inter> set yielded = {}" using True s(2,3) by auto
    moreover have "set (a # senders) \<union> set yielded =
        {a. \<exists>p. (p, a) \<in> set (d # ds) \<and> looks_like_mavlink_heartbeat_from_autopilot p} \<union> set yielded"
      using True s(4) by (auto simp: d)
    ultimately show ?thesis by blast
  next
    case False
    from Cons.IH [of yielded] obtain senders where
      s: "udp_scan ds yielded = (map target_of senders, yielded @ senders)" "distinct senders"
      "set senders \<inter> set yielded = {}"
      "set senders \<union> set yielded =
        {a. \<exists>p. (p, a) \<in> set ds \<and> looks_like_mavlink_heartbeat_from_autopilot p} \<union> set yielded" by blast
    from False s(1) have "udp_scan (d # ds) yielded = (map target_of senders, yielded @ senders)"
      by (auto simp: d udp_scan_step_def)
    moreover have "set senders \<union> set yielded =
        {a. \<exists>p. (p, a) \<in> set (d # ds) \<and> looks_like_mavlink_heartbeat_from_autopilot p} \<union> set yielded"
      using False s(4) by (auto simp: d)
    ultimately show ?thesis using s(2,3) by blast
  qed
qed simp

section \<open>The serial scanner\<close>

definition yields :: "string \<Rightarrow> scan_label list \<Rightarrow> string list" where
  "yields n ls = concat (map (\<lambda>l. case l of Visited port (Some device) \<Rightarrow> if po_name port = n then [device] else [] | _ \<Rightarrow> []) ls)"

lemma yields_simps [simp]: "yields n [] = []" "yields n (ls @ ms) = yields n ls @ yields n ms"
  by (simp_all add: yields_def)

text \<open>While a port stays listed, its state and its inspection are in one of five stages.\<close>

definition inspections :: "string \<Rightarrow> serial_scan \<Rightarrow> nat" where
  "inspections n s = length (filter (\<lambda>port. po_name port = n) (sc_pending s))"

definition port_stage :: "string \<Rightarrow> serial_scan \<Rightarrow> nat \<Rightarrow> bool" where
  "port_stage n s k \<longleftrightarrow>
     (case sc_seen s n of
        None \<Rightarrow> inspections n s = 0 \<and> k = 0
      | Some Inspecting \<Rightarrow> inspections n s = 1 \<and> k = 0
      | Some ToYield \<Rightarrow> inspections n s = 0 \<and> k = 0
      | Some Ignored \<Rightarrow> inspections n s = 0 \<and> k = 0
      | Some Yielded \<Rightarrow> inspections n s = 0 \<and> k = 1)"

definition still_listed :: "string \<Rightarrow> serial_scan \<Rightarrow> bool" where
  "still_listed n s \<longleftrightarrow>
     (case sc_scan s of None \<Rightarrow> True | Some (ports, names) \<Rightarrow> n \<in> names \<or> n \<in> po_name ` set ports)"

lemma scan_step_stage:
  assumes "scan_step pf s l s'" "port_stage n s k" "still_listed n s"
    and "\<And>ports. l = Listed ports \<Longrightarrow> n \<in> po_name ` set ports"
  shows "port_stage n s' (k + length (yields n [l])) \<and> still_listed n s'"
  using assms(1)
proof (cases rule: scan_step.cases)
  case (list_ports ports)
  with assms show ?thesis
    by (auto simp: port_stage_def inspections_def still_listed_def yields_def split: option.splits serial_port_state.splits)
next
  case (visit port ports names out s1)
  show ?thesis
  proof (cases "po_name port = n")
    case True
    with visit assms(2,3) show ?thesis
      by (auto simp: scan_port_def port_stage_def inspections_def still_listed_def yields_def
          split: option.splits serial_port_state.splits)
  next
    case False
    with visit assms(2,3) show ?thesis
      by (auto simp: scan_port_def port_stage_def inspections_def still_listed_def yields_def
          split: option.splits serial_port_state.splits)
  qed
next
  case (sweep names)
  with assms show ?thesis
    by (auto simp: port_stage_def inspections_def still_listed_def yields_def forget_unseen_def
        split: option.splits serial_port_state.splits)
next
  case (inspected before port after)
  with assms show ?thesis
    by (auto simp: port_stage_def inspections_def still_listed_def yields_def when_done_def
        split: option.splits serial_port_state.splits)
qed

lemma scan_run_stage:
  assumes "scan_run pf s ls s'" "port_stage n s 0" "still_listed n s"
    and "\<And>ports. Listed ports \<in> set ls \<Longrightarrow> n \<in> po_name ` set ports"
  shows "port_stage n s' (length (yields n ls)) \<and> still_listed n s'"
  using assms(1,4)
proof (induction rule: scan_run.induct)
  case none
  with assms(2,3) show ?case by simp
next
  case (step ls s1 l s2)
  then have "port_stage n s1 (length (yields n ls))" "still_listed n s1" by simp_all
  from scan_step_stage [OF step.hyps(2) this] step.prems show ?case by simp
qed

text \<open>A chosen port is yielded by the next visit, and only chosen ports are.\<close>

abbreviation chosen_port :: "platform \<Rightarrow> string \<Rightarrow> port_info \<Rightarrow> bool" where
  "chosen_port pf n port \<equiv> po_name port = n \<and> should_inspect_port pf port"

lemma scan_step_chosen:
  assumes "scan_step pf s l s'" "port_stage n s k" "still_listed n s" "sc_seen s n \<in> {Some ToYield, Some Yielded}"
  shows "sc_seen s' n \<in> {Some ToYield, Some Yielded} \<and> (sc_seen s n = Some Yielded \<longrightarrow> sc_seen s' n = Some Yielded) \<and>
    (\<forall>port out. l = Visited port out \<longrightarrow> po_name port = n \<longrightarrow> sc_seen s' n = Some Yielded)"
  using assms(1)
proof (cases rule: scan_step.cases)
  case (visit port ports names out s1)
  with assms(4) show ?thesis
    by (cases "po_name port = n") (auto simp: scan_port_def split: option.splits serial_port_state.splits)
next
  case (sweep names)
  with assms(3,4) show ?thesis by (auto simp: forget_unseen_def still_listed_def)
next
  case (inspected before port after)
  have "inspections n s = 0" using assms(2,4) by (auto simp: port_stage_def)
  with inspected have "po_name port \<noteq> n" by (auto simp: inspections_def)
  with inspected assms(4) show ?thesis by (auto simp: when_done_def)
qed (use assms(4) in auto)

lemma scan_run_chosen:
  assumes "scan_run pf s ls s'" "port_stage n s 0" "still_listed n s"
    and "\<And>ports. Listed ports \<in> set ls \<Longrightarrow> n \<in> po_name ` set ports"
    and "ls = ls1 @ Inspected port # ls2" "chosen_port pf n port"
  shows "sc_seen s' n \<in> {Some ToYield, Some Yielded} \<and>
    (\<forall>port' out. Visited port' out \<in> set ls2 \<longrightarrow> po_name port' = n \<longrightarrow> sc_seen s' n = Some Yielded)"
  using assms(1,4,5)
proof (induction arbitrary: ls2 rule: scan_run.induct)
  case (step ls s1 l s2)
  have stage: "port_stage n s1 (length (yields n ls))" "still_listed n s1"
    using scan_run_stage [OF step.hyps(1) assms(2,3)] step.prems(1) by simp_all
  show ?case
  proof (cases ls2 rule: rev_cases)
    case Nil
    with step.prems(2) have "l = Inspected port" by simp
    with step.hyps(2) assms(6) show ?thesis
      by (cases rule: scan_step.cases) (auto simp: Nil when_done_def inspect_port_inner_def)
  next
    case (snoc ls3 l')
    with step.prems(2) have ls: "ls = ls1 @ Inspected port # ls3" "l' = l" by simp_all
    from step.IH [OF _ ls(1)] step.prems(1)
    have IH: "sc_seen s1 n \<in> {Some ToYield, Some Yielded}"
      "\<And>port' out. Visited port' out \<in> set ls3 \<Longrightarrow> po_name port' = n \<Longrightarrow> sc_seen s1 n = Some Yielded"
      by (simp_all, blast)
    show ?thesis using scan_step_chosen [OF step.hyps(2) stage IH(1)] IH(2) snoc ls(2) by auto
  qed
qed simp

lemma scan_run_only_chosen:
  assumes "scan_run pf s ls s'" "sc_seen s n = None"
  shows "yields n ls \<noteq> [] \<or> sc_seen s' n \<in> {Some ToYield, Some Yielded} \<Longrightarrow>
    \<exists>port. Inspected port \<in> set ls \<and> chosen_port pf n port"
  using assms(1)
proof (induction rule: scan_run.induct)
  case none
  with assms(2) show ?case by simp
next
  case (step ls s1 l s2)
  show ?case
  proof (cases "yields n ls \<noteq> [] \<or> sc_seen s1 n \<in> {Some ToYield, Some Yielded}")
    case True
    with step.IH show ?thesis by auto
  next
    case False
    from step.hyps(2) step.prems False have "\<exists>port. l = Inspected port \<and> chosen_port pf n port"
    proof (cases rule: scan_step.cases)
      case (visit port ports names out s3)
      with step.prems False show ?thesis
        by (cases "po_name port = n")
           (auto simp: scan_port_def yields_def split: option.splits serial_port_state.splits)
    next
      case (inspected before port after)
      with step.prems False show ?thesis
        by (auto simp: when_done_def inspect_port_inner_def yields_def split: if_splits)
    qed (auto simp: yields_def forget_unseen_def restrict_map_def split: if_splits)
    then show ?thesis by auto
  qed
qed

lemma strip_zeros_pos: "0 < n \<Longrightarrow> 0 < strip_zeros payload n"
  by (induction n) auto

section \<open>Properties\<close>



text \<open>The UDP scanner proposes each sender once: on a socket that is in use and has no other handler, it
  proposes exactly the senders of a recognised heartbeat, with no repetition among them or among the texts
  of their targets, and then gives the handler back.\<close>

theorem udp_scanner_targets:
  assumes "us_socket s" "us_unmatched_queue s = None"
  shows "\<exists>senders. UDPMAVLinkHeartbeatScanner_run datagrams s = (Inr (map target_of senders), s) \<and>
    distinct senders \<and> distinct (map target_of senders) \<and>
    set senders = {a. \<exists>p. (p, a) \<in> set datagrams \<and> looks_like_mavlink_heartbeat_from_autopilot p}"
proof -
  from udp_scan_yields [of datagrams "[]"] obtain senders where
    "udp_scan datagrams [] = (map target_of senders, senders)" "distinct senders"
    "set senders = {a. \<exists>p. (p, a) \<in> set datagrams \<and> looks_like_mavlink_heartbeat_from_autopilot p}" by auto
  moreover from this(2) have "distinct (map target_of senders)"
    by (simp add: distinct_map inj_on_subset [OF inj_target_of])
  ultimately show ?thesis using assms
    by (intro exI [of _ senders])
       (simp add: UDPMAVLinkHeartbeatScanner_run_def allow_broadcasts_def unmatched_enter_def unmatched_exit_def)
qed

lemma udp_scanner_targets_witness:
  "\<exists>senders. UDPMAVLinkHeartbeatScanner_run [([], (''h'', 1))] (snd (use_enter (SharedUDPSocket ''x'' 0 1))) =
     (Inr (map target_of senders), snd (use_enter (SharedUDPSocket ''x'' 0 1))) \<and> senders = []"
proof -
  let ?s = "snd (use_enter (SharedUDPSocket ''x'' 0 1))"
  have "us_socket ?s" "us_unmatched_queue ?s = None" by (simp_all add: use_enter_def SharedUDPSocket_def)
  from udp_scanner_targets [OF this, of "[([], (''h'', 1))]"] obtain senders where
    "UDPMAVLinkHeartbeatScanner_run [([], (''h'', 1))] ?s = (Inr (map target_of senders), ?s)"
    "set senders = {a. \<exists>p. (p, a) \<in> set [([], (''h'', 1))] \<and> looks_like_mavlink_heartbeat_from_autopilot p}" by blast
  then show ?thesis by (intro exI [of _ senders]) (auto simp: looks_like_mavlink_heartbeat_from_autopilot_def)
qed

text \<open>C15. The target of a scanned sender leads back to it: for a host without a colon the uploader opens a UDP
  transport to exactly that host and port. For a host with a colon, an IPv6 address, it raises a \<open>ValueError\<close>
  once it has the shared socket, whatever the rest of the text is.\<close>

theorem scanned_target_opens_transport:
  "create_transport en (target_of (host, port)) =
    (if CHR '':'' \<notin> set host
     then eff_bind (en_shared_udp_socket en) (\<lambda>_. eff_return (en_UDPTransport en host port))
     else eff_bind (en_shared_udp_socket en) (\<lambda>_. eff_raise (ValueError ''invalid literal for int()'')))"
proof (cases "CHR '':'' \<in> set host")
  case False
  then show ?thesis
    by (simp only: create_transport_def target_of_def prod.case append.simps partition_target Let_def
        py_int_str_int eff_bind_result if_True not_False_eq_True)
next
  case True
  then obtain h1 h2 where host: "host = h1 @ CHR '':'' # h2" "CHR '':'' \<notin> set h1" by (meson split_list_first)
  have "py_int (h2 @ CHR '':'' # str_int port) = Inl (ValueError ''invalid literal for int()'')"
    by (rule py_int_colon) simp
  with host show ?thesis
    by (simp add: create_transport_def target_of_def partition_target eff_bind_result)
qed

text \<open>C14. A serial port is proposed once per appearance: from a state in which a name is unknown, through any
  interleaving of scans and inspections in which every list of ports has the name, a port of that name is yielded at most once,
  and only if one of that name was inspected and looked like a flight controller; and once that has happened,
  the next visit has yielded it.\<close>

theorem serial_port_yielded_once:
  assumes "scan_run pf s ls s'" and "sc_scan s = None" "sc_seen s n = None" "\<And>port. port \<in> set (sc_pending s) \<Longrightarrow> po_name port \<noteq> n"
    and "\<And>ports. Listed ports \<in> set ls \<Longrightarrow> n \<in> po_name ` set ports"
  shows "length (yields n ls) \<le> 1 \<and>
    (yields n ls \<noteq> [] \<longrightarrow> (\<exists>port. Inspected port \<in> set ls \<and> chosen_port pf n port)) \<and>
    (\<forall>ls1 ls2 port port' out. ls = ls1 @ Inspected port # ls2 \<and> chosen_port pf n port \<and>
       Visited port' out \<in> set ls2 \<and> po_name port' = n \<longrightarrow> length (yields n ls) = 1)"
proof -
  have init: "port_stage n s 0" "still_listed n s"
    using assms(2-4) by (auto simp: port_stage_def inspections_def still_listed_def filter_empty_conv)
  note stage = scan_run_stage [OF assms(1) init assms(5), THEN conjunct1]
  have "length (yields n ls) \<le> 1"
    using stage by (auto simp: port_stage_def split: option.splits serial_port_state.splits)
  moreover have "yields n ls \<noteq> [] \<longrightarrow> (\<exists>port. Inspected port \<in> set ls \<and> chosen_port pf n port)"
    using scan_run_only_chosen [OF assms(1,3)] by blast
  moreover have "length (yields n ls) = 1"
    if "ls = ls1 @ Inspected port # ls2" "chosen_port pf n port" "Visited port' out \<in> set ls2" "po_name port' = n"
    for ls1 ls2 port port' out
    using scan_run_chosen [OF assms(1) init assms(5) that(1,2)] that(3,4) stage by (auto simp: port_stage_def)
  ultimately show ?thesis by blast
qed

definition autopilot_port :: port_info where
  "autopilot_port = \<lparr>po_name = ''n'', po_device = ''d'', po_vid = Some 0x1209, po_pid = Some 0x5740\<rparr>"

lemma serial_port_yielded_once_witness:
  "\<exists>s'. scan_run \<lparr>pf_system = ''Linux'', pf_release = ''''\<rparr> serial_scan_start
     [Listed [autopilot_port], Visited autopilot_port None, Inspected autopilot_port] s' \<and>
     length (yields ''n'' [Listed [autopilot_port], Visited autopilot_port None, Inspected autopilot_port]) \<le> 1"
proof -
  let ?pf = "\<lparr>pf_system = ''Linux'', pf_release = ''''\<rparr>" and ?p = autopilot_port
  let ?s2 = "serial_scan_start\<lparr>sc_scan := Some ([?p], {})\<rparr>"
  let ?s3 = "?s2\<lparr>sc_seen := [''n'' \<mapsto> Inspecting], sc_pending := [?p]\<rparr>"
  have "scan_run ?pf serial_scan_start [Listed [?p]] ?s2"
    using scan_run.step [OF scan_run.none scan_step.list_ports [of serial_scan_start ?pf "[?p]"]]
    by (simp add: serial_scan_start_def)
  moreover have "scan_port ?p ?s2 = (None, ?s3)"
    by (simp add: scan_port_def serial_scan_start_def autopilot_port_def)
  then have "scan_step ?pf ?s2 (Visited ?p None) (?s3\<lparr>sc_scan := Some ([], insert (po_name ?p) {})\<rparr>)"
    by (intro scan_step.visit) simp_all
  ultimately have "scan_run ?pf serial_scan_start ([Listed [?p]] @ [Visited ?p None]) (?s3\<lparr>sc_scan := Some ([], insert (po_name ?p) {})\<rparr>)"
    by (rule scan_run.step)
  from scan_run.step [OF this scan_step.inspected [of _ "[]" ?p "[]"]] obtain s' where
    run: "scan_run ?pf serial_scan_start [Listed [?p], Visited ?p None, Inspected ?p] s'" by auto
  show ?thesis
    using serial_port_yielded_once [OF run, of "''n''"] run
    by (auto simp: serial_scan_start_def autopilot_port_def)
qed

end
