(* ===== verification/Mode_Switch.thy ===== *)
theory Mode_Switch
  imports Connection_Loop Mavlink_Roundtrip
begin

text \<open>
  The lock and the mode of a connection. Every operation gives the lock back, and none but the two that switch modes
  changes the mode. What the switch to MAVLink can and cannot do, and what the packet is that
  the switch to the bootloader sends.
\<close>

section \<open>Operations that keep lock and mode\<close>

named_theorems steady_intros \<open>operations that keep the lock and the mode\<close>

definition status :: "'w connection \<Rightarrow> bool \<times> exn option \<times> conn_mode" where
  "status c = (cn_lock c, cn_relock c, cn_mode c)"

lemma status_updates [simp]:
  "status (c\<lparr>cn_world := w\<rparr>) = status c" "status (c\<lparr>cn_protocol := p\<rparr>) = status c"
  "status (c\<lparr>cn_mavlink := mv\<rparr>) = status c" "status (moved c p w) = status c"
  by (simp_all add: status_def moved_def)

definition steady :: "('w connection, 'a) eff \<Rightarrow> bool" where
  "steady m \<longleftrightarrow> (\<forall>c r c'. m c = Some (r, c') \<longrightarrow> status c' = status c)"

lemma steadyI: "(\<And>c r c'. m c = Some (r, c') \<Longrightarrow> status c' = status c) \<Longrightarrow> steady m"
  by (auto simp: steady_def)

lemma steadyD: "steady m \<Longrightarrow> m c = Some (r, c') \<Longrightarrow> status c' = status c"
  by (auto simp: steady_def)

lemma steady_pure [steady_intros]:
  "steady (eff_return a)" "steady (eff_raise e)" "steady (eff_get f)" "steady (eff_result x)"
  by (auto simp: steady_def)

lemma steady_modify [steady_intros]: "(\<And>c. status (f c) = status c) \<Longrightarrow> steady (eff_modify f)"
  by (auto simp: steady_def)

lemma steady_bind [steady_intros]: "steady m \<Longrightarrow> (\<And>a. steady (f a)) \<Longrightarrow> steady (eff_bind m f)"
  by (rule steadyI, erule eff_bind_cases) (metis steadyD)+

lemma steady_catch [steady_intros]: "steady m \<Longrightarrow> (\<And>e. steady (h e)) \<Longrightarrow> steady (eff_catch m h)"
  by (rule steadyI, erule eff_catch_cases) (metis steadyD)+

lemma steady_lock [steady_intros]: "steady m \<Longrightarrow> steady (with_lock m)"
  by (rule steadyI) (auto simp: with_lock_def status_def split: if_splits dest!: steadyD)

lemma steady_transport [steady_intros]: "steady (transport_send T data)" "steady (transport_receive T t)"
  by (auto simp: steady_def transport_send_def transport_receive_def)

fun turn_connection :: "'w turn \<Rightarrow> 'w connection" where
  "turn_connection (Done r c) = c"
| "turn_connection (Again x n b c) = c"

lemma turn_connection_retry [simp]: "turn_connection (retry_or_raise e x n b c) = c"
  by (simp add: retry_or_raise_def)

lemma process_step_steady:
  assumes "process_step T command tmo cts rl sent c = Some turn"
  shows "status (turn_connection turn) = status c"
proof -
  obtain r p where ev: "next_event (cn_protocol c) = (r, p)" by fastforce
  have send: "status (turn_connection turn) = status d" if "send_turn T command rl sent d = Some turn" for d
    using that by (cases rule: send_turn_cases) auto
  have receive: "status (turn_connection turn) = status d" if "receive_turn T tmo cts rl sent d = Some turn" for d
    using that by (cases rule: receive_turn_cases) auto
  show ?thesis
    using assms [unfolded process_step_def ev Let_def prod.case] send [of "c\<lparr>cn_protocol := p\<rparr>"]
      receive [of "c\<lparr>cn_protocol := p\<rparr>"]
    by (auto split: sum.splits option.splits event.splits if_splits)
qed

lemma steady_loop [steady_intros]: "steady (process_loop T command tmo cts rl sent)"
proof (rule steadyI)
  fix c r c' assume run: "process_loop T command tmo cts rl sent c = Some (r, c')"
  show "status c' = status c"
  proof (rule process_loop_invariant [OF run, where I = "\<lambda>_ _ _ d. status d = status c"])
    fix cts rl sent d cts1 rl1 sent1 d1
    assume "status d = status c" "process_step T command tmo cts rl sent d = Some (Again cts1 rl1 sent1 d1)"
    then show "status d1 = status c" using process_step_steady by fastforce
  next
    fix cts rl sent d r1 d1
    assume "status d = status c" "process_step T command tmo cts rl sent d = Some (Done r1 d1)"
    then show "status d1 = status c" using process_step_steady by fastforce
  qed simp
qed

lemma steady_command [steady_intros]:
  "steady (process_command_inner T k tmo command)" "steady (process_command T k command)"
  unfolding process_command_inner_def process_command_def by (intro steady_intros)+

lemma steady_requests [steady_intros]:
  "steady (get_board_id T)" "steady (get_board_revision T)" "steady (get_bootloader_revision T)"
  "steady (get_flash_memory_size T)" "steady (get_chip_description T)" "steady (erase_flash_memory T)"
  "steady (get_flash_memory_crc T)" "steady (get_write_pointer T)" "steady (program_bytes T data)"
  "steady (send_bootloader_reboot_command T)"
  unfolding get_board_id_def get_board_revision_def get_bootloader_revision_def get_device_info_def
    get_flash_memory_size_def get_chip_description_def erase_flash_memory_def get_flash_memory_crc_def
    get_write_pointer_def program_bytes_def send_bootloader_reboot_command_def
  by (intro steady_intros)+

lemma steady_serial_words: "steady (read_serial_words T addresses res)"
  by (induction addresses arbitrary: res) (auto intro!: steady_intros)

lemma steady_serial [steady_intros]: "steady (get_serial_number T)"
  unfolding get_serial_number_def by (rule steady_serial_words)

lemma steady_get_mavlink [steady_intros]: "steady get_mavlink"
  by (rule steadyI) (auto simp: get_mavlink_def Let_def split: option.splits)

lemma steady_mavlink_message [steady_intros]: "steady (send_mavlink_message T H body)"
  unfolding send_mavlink_message_def Let_def
  by (auto intro!: steady_intros split: prod.splits sum.splits)

lemma steady_mavlink_reboot [steady_intros]: "steady (send_mavlink_reboot_command T H b)"
  unfolding send_mavlink_reboot_command_def by (auto intro!: steady_intros)

lemma steady_operations [steady_intros]:
  "steady (reboot T H b)" "steady (flash_bootloader T H)" "steady (reset_to_factory_defaults T H)"
  unfolding reboot_def flash_bootloader_def reset_to_factory_defaults_def
  by (auto intro!: steady_intros split: conn_mode.splits)

text \<open>Waiting for a heartbeat also returns nothing but a heartbeat.\<close>

lemma heartbeat_steady:
  assumes run: "wait_for_heartbeat T H t mv c = Some (r, c')"
  shows "status c' = status c \<and> (\<forall>m. r = Inr m \<longrightarrow> is_heartbeat m)"
proof -
  have "status (snd (r, c')) = status c \<and> (\<forall>m. fst (r, c') = Inr m \<longrightarrow> is_heartbeat m)"
  proof (rule wait_for_heartbeat.raw_induct [OF _ run,
        where P = "\<lambda>_ _ _ _ c rc. status (snd rc) = status c \<and> (\<forall>m. fst rc = Inr m \<longrightarrow> is_heartbeat m)"])
    fix f :: "'a transport \<Rightarrow> (bytes \<Rightarrow> bytes) \<Rightarrow> nat \<Rightarrow> mavlink \<Rightarrow> 'a connection \<Rightarrow> (mav_message result \<times> 'a connection) option"
      and T :: "'a transport" and H t mv c and rc :: "mav_message result \<times> 'a connection"
    assume IH: "\<And>T H t mv c rc. f T H t mv c = Some rc \<Longrightarrow>
        status (snd rc) = status c \<and> (\<forall>m. fst rc = Inr m \<longrightarrow> is_heartbeat m)"
      and step: "Option.bind (transport_receive T (Some t) c) (\<lambda>(r, c1). case r of
         Inl e \<Rightarrow> Some (Inl e, c1)
       | Inr data \<Rightarrow> (case parse_buffer H data mv of
              (Inl e, mv1) \<Rightarrow> Some (Inl e, c1\<lparr>cn_mavlink := Some mv1\<rparr>)
            | (Inr ms, mv1) \<Rightarrow> (case find is_heartbeat (case ms of None \<Rightarrow> [] | Some l \<Rightarrow> l) of
                   None \<Rightarrow> f T H t mv1 (c1\<lparr>cn_mavlink := Some mv1\<rparr>)
                 | Some message \<Rightarrow> Some (Inr message, c1\<lparr>cn_mavlink := Some mv1\<rparr>)))) = Some rc"
    from step obtain r1 c1 where rcv: "transport_receive T (Some t) c = Some (r1, c1)"
      by (auto simp: bind_eq_Some_conv)
    have "status c1 = status c" by (rule steadyD [OF steady_transport(2) rcv])
    with step rcv show "status (snd rc) = status c \<and> (\<forall>m. fst rc = Inr m \<longrightarrow> is_heartbeat m)"
      by (auto split: sum.splits prod.splits option.splits dest!: IH simp: find_Some_iff)
  qed
  then show ?thesis by simp
qed

section \<open>Properties\<close>

text \<open>Every public operation of the connection, with its result dropped.\<close>

definition forget :: "('w connection, 'a) eff \<Rightarrow> ('w connection, unit) eff" where
  "forget m = eff_bind m (\<lambda>_. eff_return ())"

definition steady_operations_of :: "'w transport \<Rightarrow> (bytes \<Rightarrow> bytes) \<Rightarrow> bytes \<Rightarrow> bool \<Rightarrow> ('w connection, unit) eff set" where
  "steady_operations_of T H data to_bootloader =
     {erase_flash_memory T, forget (get_board_id T), forget (get_board_revision T), forget (get_bootloader_revision T),
      forget (get_chip_description T), forget (get_flash_memory_crc T), forget (get_flash_memory_size T),
      forget (get_serial_number T), forget (get_write_pointer T), program_bytes T data, reboot T H to_bootloader,
      flash_bootloader T H, reset_to_factory_defaults T H}"

definition mode_operations_of ::
  "'w transport \<Rightarrow> (bytes \<Rightarrow> bytes) \<Rightarrow> nat \<Rightarrow> ('w \<Rightarrow> 'w) option \<Rightarrow> (conn_mode \<times> ('w connection, unit) eff) set" where
  "mode_operations_of T H t on_rebooted =
     {(ModeBootloader, ensure_in_bootloader T H on_rebooted), (ModeMavlink, ensure_in_mavlink T H t on_rebooted)}"

lemma steady_call_back [steady_intros]: "steady (call_back f)"
  unfolding call_back_def by (cases f) (auto intro!: steady_intros)

lemma steady_heartbeat [steady_intros]: "steady (wait_for_heartbeat T H t mv)"
  by (rule steadyI) (use heartbeat_steady in blast)

lemma mode_switch:
  assumes "steady m" "eff_bind (with_lock m) (\<lambda>_. eff_modify (\<lambda>c. c\<lparr>cn_mode := mode\<rparr>)) c = Some (r, c')"
  shows "cn_lock c' = cn_lock c \<and> cn_relock c' = cn_relock c \<and> cn_mode c' = (if r = Inr () then mode else cn_mode c)"
  using assms(2)
proof (cases rule: eff_bind_cases)
  case (raised e)
  then show ?thesis using steadyD [OF steady_lock [OF assms(1)] raised(1)] by (simp add: status_def)
next
  case (returned a s1)
  then show ?thesis using steadyD [OF steady_lock [OF assms(1)] returned(1)] by (auto simp: status_def)
qed

text \<open>C11. Every operation gives the lock back: however an operation of a connection ends, by returning or raising, the lock is
  as it was, so that it is free whenever no operation runs. No operation but the two switches changes the mode, and
  a switch changes it exactly if it returns.\<close>

theorem lock_given_back:
  "(\<forall>m \<in> steady_operations_of T H data b. m c = Some (r, c') \<longrightarrow> cn_lock c' = cn_lock c \<and> cn_mode c' = cn_mode c) \<and>
   (\<forall>(mode, m) \<in> mode_operations_of T H t on_rebooted. m c = Some (r, c') \<longrightarrow>
      cn_lock c' = cn_lock c \<and> cn_mode c' = (if r = Inr () then mode else cn_mode c))"
proof -
  have "steady m" if "m \<in> steady_operations_of T H data b" for m
    using that unfolding steady_operations_of_def forget_def by (auto intro!: steady_intros)
  then have "\<forall>m \<in> steady_operations_of T H data b. m c = Some (r, c') \<longrightarrow> cn_lock c' = cn_lock c \<and> cn_mode c' = cn_mode c"
    by (metis (no_types) prod.inject status_def steadyD)
  moreover have "cn_lock c' = cn_lock c \<and> cn_mode c' = (if r = Inr () then ModeBootloader else cn_mode c)"
    if "ensure_in_bootloader T H on_rebooted c = Some (r, c')"
  proof -
    have "steady (eff_catch
        (eff_bind (process_command_inner T 1 (Some 50) (Command_get_device_info BOARD_ID)) (\<lambda>_. eff_return ()))
        (\<lambda>e. if retriable e then
               eff_bind (send_mavlink_reboot_command T H True) (\<lambda>_.
                 eff_bind (call_back on_rebooted) (\<lambda>_.
                   eff_bind (process_command_inner T 5 (Some 500) (Command_get_device_info BOARD_ID)) (\<lambda>_. eff_return ())))
             else eff_raise e))"
      by (auto intro!: steady_intros)
    from mode_switch [OF this that [unfolded ensure_in_bootloader_def]] show ?thesis by simp
  qed
  moreover have "cn_lock c' = cn_lock c \<and> cn_mode c' = (if r = Inr () then ModeMavlink else cn_mode c)"
    if "ensure_in_mavlink T H t on_rebooted c = Some (r, c')"
  proof -
    have "steady (eff_catch
        (eff_bind get_mavlink (\<lambda>mv. eff_bind (wait_for_heartbeat T H t mv) (\<lambda>_. eff_return ())))
        (\<lambda>e. if retriable e then eff_bind (send_bootloader_reboot_command T) (\<lambda>_. call_back on_rebooted)
             else eff_raise e))"
      by (auto intro!: steady_intros)
    from mode_switch [OF this that [unfolded ensure_in_mavlink_def]] show ?thesis by simp
  qed
  ultimately show ?thesis by (simp add: mode_operations_of_def)
qed

text \<open>A link on which nothing ever arrives.\<close>

definition silence :: "unit transport" where
  "silence = \<lparr>tr_send = \<lambda>_ w. Some (Inr (), w), tr_receive = \<lambda>_ w. Some (Inl TimeoutError, w)\<rparr>"

text \<open>A reboot in the unknown mode raises.\<close>

lemma lock_given_back_witness:
  "\<exists>e c'. reboot silence id False (BootloaderConnection None 254 ()) = Some (Inl e, c') \<and> \<not> cn_lock c'"
proof -
  let ?c = "BootloaderConnection None 254 ()"
  obtain e c' where run: "reboot silence id False ?c = Some (Inl e, c')"
    by (simp add: reboot_def BootloaderConnection_def)
  have "reboot silence id False \<in> steady_operations_of silence id [] False" by (simp add: steady_operations_of_def)
  with lock_given_back [of silence id "[]" False ?c "Inl e" c' 0 None] run have "cn_lock c' = cn_lock ?c" by blast
  with run show ?thesis by (auto simp: BootloaderConnection_def)
qed

text \<open>C31. The way back to MAVLink is closed: \<open>ensure_in_mavlink\<close> returns exactly if a heartbeat arrives. If waiting for it
  times out or meets excess data, the attempt to reboot the bootloader meets the lock that the method
  itself holds: it sends nothing, does not call back, and ends with whatever the lock answers, or never.\<close>

theorem mavlink_fallback_closed:
  assumes "\<not> cn_lock c" and "eff_bind get_mavlink (wait_for_heartbeat T H t) (c\<lparr>cn_lock := True\<rparr>) = Some (waited, d)"
  shows "ensure_in_mavlink T H t on_rebooted c =
    (case waited of
       Inr message \<Rightarrow> Some (Inr (), d\<lparr>cn_lock := False, cn_mode := ModeMavlink\<rparr>)
     | Inl e \<Rightarrow>
         if retriable e then map_option (\<lambda>e'. (Inl e', d\<lparr>cn_lock := False\<rparr>)) (cn_relock c)
         else Some (Inl e, d\<lparr>cn_lock := False\<rparr>)) \<and>
    (\<forall>message. waited = Inr message \<longrightarrow> is_heartbeat message)"
proof -
  let ?c = "c\<lparr>cn_lock := True\<rparr>"
  have "steady (eff_bind get_mavlink (wait_for_heartbeat T H t))" by (intro steady_intros)
  from steadyD [OF this assms(2)] have d: "cn_lock d" "cn_relock d = cn_relock c"
    by (simp_all add: status_def)
  obtain mv c1 where mv: "get_mavlink ?c = Some (Inr mv, c1)" "wait_for_heartbeat T H t mv c1 = Some (waited, d)"
    using assms(2) by (cases rule: eff_bind_cases) (auto simp: get_mavlink_def Let_def split: option.splits)
  have "is_heartbeat message" if "waited = Inr message" for message
    using heartbeat_steady [OF mv(2)] that by blast
  moreover have wait: "eff_bind get_mavlink (\<lambda>mv. eff_bind (wait_for_heartbeat T H t mv) (\<lambda>_. eff_return ())) ?c =
      Some (map_sum id (\<lambda>_. ()) waited, d)"
    using mv by (cases waited) (simp_all add: eff_bind_run)
  moreover have "eff_bind (send_bootloader_reboot_command T) k d = map_option (\<lambda>e. (Inl e, d)) (cn_relock c)"
    for k :: "unit \<Rightarrow> ('a connection, unit) eff"
    using d by (cases "cn_relock c")
      (simp_all add: send_bootloader_reboot_command_def process_command_def with_lock_def eff_bind_def)
  ultimately show ?thesis using assms(1)
    by (cases waited; cases "cn_relock c")
       (auto simp: ensure_in_mavlink_def with_lock_def eff_catch_def eff_bind_def [where m = "with_lock _"])
qed

lemma mavlink_fallback_closed_witness:
  "\<exists>d. ensure_in_mavlink silence id 2000 None (BootloaderConnection (Some (RuntimeError ''held'')) 254 ()) =
     Some (Inl (RuntimeError ''held''), d)"
proof -
  let ?c = "BootloaderConnection (Some (RuntimeError ''held'')) 254 ()"
  obtain d where "eff_bind get_mavlink (wait_for_heartbeat silence id 2000) (?c\<lparr>cn_lock := True\<rparr>) = Some (Inl TimeoutError, d)"
    by (simp add: eff_bind_def get_mavlink_def BootloaderConnection_def Let_def wait_for_heartbeat.simps
        transport_receive_def silence_def)
  from mavlink_fallback_closed [OF _ this, of None] show ?thesis
    by (simp add: BootloaderConnection_def retriable_def)
qed

text \<open>C33. The pre-generated reboot packet is what it is meant to be: it is the MAVLink 1 packet number 69 of system 255 with
  the command \<open>PREFLIGHT_REBOOT_SHUTDOWN\<close> and first parameter 3 (stay in the bootloader), and every MAVLink parser, however the link
  cuts it into pieces, reads that message and nothing else.\<close>

theorem reboot_packet_decodes:
  assumes "concat chunks = reboot_to_bootloader_packet"
  shows "\<exists>m rx. parse_chunks H chunks (MAVLink a b) = (Inr [m], rx) \<and>
    mm_body m = MAVLinkCommandLongMessage 0 0 MAV_CMD_PREFLIGHT_REBOOT_SHUTDOWN 0 (float32_of_int 3) 0 0 0 0 0 0 \<and>
    mh_source_system (mm_header m) = 255 \<and> mh_seq (mm_header m) = 69"
proof -
  let ?body = "MAVLinkCommandLongMessage 0 0 MAV_CMD_PREFLIGHT_REBOOT_SHUTDOWN 0 (float32_of_int 3) 0 0 0 0 0 0"
  let ?mv = "(MAVLink 255 0)\<lparr>mv_seq := 69\<rparr>"
  have "fst (encode H True (MAVLinkMessage ?body) ?mv) = Inr reboot_to_bootloader_packet" by code_simp
  then obtain m1 mv1 where "encode H True (MAVLinkMessage ?body) ?mv = (Inr (concat chunks), m1, mv1)"
    using assms by (metis prod.collapse)
  moreover have "\<not> sg_sign_outgoing (mv_signing ?mv)" by (simp add: MAVLink_def MAVLinkSigning_def)
  ultimately show ?thesis
    using packed_chunks [of H True ?body ?mv chunks m1 mv1 H a b]
    by (auto simp: decoded_body_def MAVLink_def)
qed

lemma reboot_packet_decodes_witness:
  "\<exists>m rx. parse_chunks id [reboot_to_bootloader_packet] (MAVLink 1 1) = (Inr [m], rx) \<and> mh_seq (mm_header m) = 69"
  using reboot_packet_decodes [of "[reboot_to_bootloader_packet]" id 1 1] by auto

end
