(* ===== verification/Streams.thy ===== *)
theory Streams
  imports Effects
begin

text \<open>
  The transports over operating-system streams: \<^verbatim>\<open>io/serial.py\<close> and \<^verbatim>\<open>io/tcp.py\<close>. A serial port has two worker
  threads; each turn of their loops is a step on the record \<open>serial_stream\<close>, which holds the port's input and output
  beside the fields of the object. How \<open>pyserial\<close> answers and how \<open>anyio\<close>'s buffered stream cuts what it
  holds are parameters.
\<close>

definition BusyResourceError :: exn where
  "BusyResourceError = OtherException ''BusyResourceError''"

section \<open>SerialPortByteStream\<close>

text \<open>
  The queues and the reader stream are \<open>True\<close> while the object holds them. \<open>sr_input\<close> is what the port has received,
  \<open>sr_buffer\<close> what the reader thread has passed on, \<open>sr_outgoing\<close> what was handed to the writer
  thread, also while the sender still waits for it, \<open>sr_output\<close> what the port was told to write.
\<close>

record serial_stream =
  sr_max_read_size :: nat
  sr_port_open :: bool
  sr_input :: bytes
  sr_output :: bytes
  sr_reader_stream :: bool
  sr_reader_thread_queue :: bool
  sr_task_group :: bool
  sr_writer_done :: bool
  sr_writer_thread_queue :: bool
  sr_buffer :: bytes
  sr_outgoing :: "bytes list"

definition SerialPortByteStream :: "nat \<Rightarrow> serial_stream" where
  "SerialPortByteStream max_read_size =
     \<lparr>sr_max_read_size = max_read_size, sr_port_open = False, sr_input = [], sr_output = [],
      sr_reader_stream = False, sr_reader_thread_queue = False, sr_task_group = False, sr_writer_done = False,
      sr_writer_thread_queue = False, sr_buffer = [], sr_outgoing = []\<rparr>"

text \<open>\<open>__aenter__\<close>; \<open>port_open\<close> is the outcome of opening the port.\<close>

definition serial_aenter :: "unit result \<Rightarrow> serial_stream \<Rightarrow> unit result \<times> serial_stream" where
  "serial_aenter port_open s =
     (if sr_task_group s then (Inl BusyResourceError, s)
      else case (if sr_port_open s then Inr () else port_open) of
        Inl e \<Rightarrow> (Inl e, s)
      | Inr _ \<Rightarrow> (Inr (), s\<lparr>sr_port_open := True, sr_task_group := True, sr_reader_stream := True,
          sr_reader_thread_queue := True, sr_writer_done := True, sr_writer_thread_queue := True\<rparr>))"

text \<open>
  One turn of \<open>_read_worker\<close>: how much it asks the port for when it finds \<open>pending\<close> bytes there, and the turn itself,
  which blocks (\<open>None\<close>) until the port has a byte. \<open>pending\<close> may be older than the read.
\<close>

definition read_size :: "nat \<Rightarrow> nat \<Rightarrow> nat" where
  "read_size pending max_read_size = (if pending = 0 then 1 else min pending max_read_size)"

definition read_turn :: "nat \<Rightarrow> serial_stream \<Rightarrow> serial_stream option" where
  "read_turn pending s =
     (let n = read_size pending (sr_max_read_size s) in
      if length (sr_input s) < n then None
      else Some (s\<lparr>sr_input := drop n (sr_input s), sr_buffer := sr_buffer s @ take n (sr_input s)\<rparr>))"

text \<open>How an exception ends the reader and the writer thread; the tests say what kind of exception it is.\<close>

definition read_worker_end :: "(exn \<Rightarrow> bool) \<Rightarrow> (exn \<Rightarrow> bool) \<Rightarrow> exn \<Rightarrow> serial_stream \<Rightarrow> unit result" where
  "read_worker_end is_SerialException is_PortNotOpenError e s =
     (if is_SerialException e then (if \<not> sr_reader_thread_queue s then Inr () else Inl e)
      else if is_PortNotOpenError e \<or> e = ClosedResourceError \<or> e = BrokenResourceError then Inr ()
      else Inl e)"

definition write_turn :: "serial_stream \<Rightarrow> serial_stream option" where
  "write_turn s =
     (case sr_outgoing s of
        [] \<Rightarrow> None
      | data # rest \<Rightarrow> Some (s\<lparr>sr_outgoing := rest, sr_output := sr_output s @ data\<rparr>))"

definition write_worker_end :: "(exn \<Rightarrow> bool) \<Rightarrow> exn \<Rightarrow> unit result" where
  "write_worker_end is_PortNotOpenError e =
     (if is_PortNotOpenError e \<or> e = EndOfStream then Inr () else Inl e)"

text \<open>
  \<open>aclose\<close>: first the object lets go of its queues, then, behind the shield, the writer gets up to three seconds to finish
  and the port is closed (with outcome \<open>port_close\<close>); in any case the reader stream goes last.
\<close>

definition serial_aclose_begin :: "serial_stream \<Rightarrow> serial_stream" where
  "serial_aclose_begin s =
     s\<lparr>sr_reader_thread_queue := False, sr_writer_thread_queue := False, sr_writer_done := False\<rparr>"

definition serial_aclose_end :: "unit result \<Rightarrow> serial_stream \<Rightarrow> unit result \<times> serial_stream" where
  "serial_aclose_end port_close s =
     (let r = (if sr_port_open s then port_close else Inr ());
          s1 = (case r of Inl _ \<Rightarrow> s | Inr _ \<Rightarrow> s\<lparr>sr_port_open := False\<rparr>)
      in (r, s1\<lparr>sr_reader_stream := False\<rparr>))"

definition serial_aclose :: "unit result \<Rightarrow> serial_stream \<Rightarrow> unit result \<times> serial_stream" where
  "serial_aclose port_close s = serial_aclose_end port_close (serial_aclose_begin s)"

text \<open>\<open>__aexit__\<close>; \<open>joined\<close> is the outcome of leaving the task group.\<close>

definition serial_aexit :: "unit result \<Rightarrow> unit result \<Rightarrow> serial_stream \<Rightarrow> unit result \<times> serial_stream" where
  "serial_aexit port_close joined s =
     (case serial_aclose port_close s of
        (Inl e, s1) \<Rightarrow> (Inl e, s1)
      | (Inr _, s1) \<Rightarrow>
          if \<not> sr_task_group s1 then (Inl AssertionError, s1) else (joined, s1\<lparr>sr_task_group := False\<rparr>))"

text \<open>
  Receiving: \<open>take_chunk n buffer\<close> is what the buffered stream hands out of its buffer and keeps; \<open>None\<close> while it
  waits. The same holds of \<open>receive_exactly\<close> and \<open>receive_until\<close> with their own functions.
\<close>

definition serial_take :: "(bytes \<Rightarrow> (bytes \<times> bytes) option) \<Rightarrow> (serial_stream, bytes) eff" where
  "serial_take take_chunk s =
     (if \<not> sr_reader_stream s then Some (Inl ClosedResourceError, s)
      else map_option (\<lambda>(data, rest). (Inr data, s\<lparr>sr_buffer := rest\<rparr>)) (take_chunk (sr_buffer s)))"

definition serial_receive :: "(nat \<Rightarrow> bytes \<Rightarrow> (bytes \<times> bytes) option) \<Rightarrow> nat \<Rightarrow> (serial_stream, bytes) eff" where
  "serial_receive take_chunk max_bytes = serial_take (take_chunk max_bytes)"

definition serial_receive_exactly :: "(nat \<Rightarrow> bytes \<Rightarrow> (bytes \<times> bytes) option) \<Rightarrow> nat \<Rightarrow> (serial_stream, bytes) eff" where
  "serial_receive_exactly take_exactly nbytes = serial_take (take_exactly nbytes)"

definition serial_receive_until ::
  "(bytes \<Rightarrow> nat \<Rightarrow> bytes \<Rightarrow> (bytes \<times> bytes) option) \<Rightarrow> bytes \<Rightarrow> nat \<Rightarrow> (serial_stream, bytes) eff" where
  "serial_receive_until take_until delimiter max_bytes = serial_take (take_until delimiter max_bytes)"

definition serial_send :: "bytes \<Rightarrow> (serial_stream, unit) eff" where
  "serial_send item s =
     (if \<not> sr_writer_thread_queue s then Some (Inl ClosedResourceError, s)
      else Some (Inr (), s\<lparr>sr_outgoing := sr_outgoing s @ [item]\<rparr>))"

definition serial_send_eof :: "(serial_stream, unit) eff" where
  "serial_send_eof s = Some (Inl (OtherException ''NotImplementedError''), s)"

section \<open>SerialPortTransport\<close>

text \<open>The constructor takes \<open>max_read_size\<close> and leaves the stream at the default of its own constructor.\<close>

definition SerialPortTransport :: "nat \<Rightarrow> serial_stream" where
  "SerialPortTransport max_read_size = SerialPortByteStream 1024"

definition SerialPortTransport_from_url :: "unit result \<Rightarrow> nat \<Rightarrow> serial_stream result" where
  "SerialPortTransport_from_url serial_for_url max_read_size =
     (case serial_for_url of Inl e \<Rightarrow> Inl e | Inr _ \<Rightarrow> Inr (SerialPortTransport max_read_size))"

definition SerialPortTransport_receive :: "(nat \<Rightarrow> bytes \<Rightarrow> (bytes \<times> bytes) option) \<Rightarrow> (serial_stream, bytes) eff" where
  "SerialPortTransport_receive take_chunk = serial_receive take_chunk 65536"

definition SerialPortTransport_send :: "bytes \<Rightarrow> (serial_stream, unit) eff" where
  "SerialPortTransport_send data = serial_send data"

section \<open>TCPTransport\<close>

text \<open>\<open>tc_stream\<close> is the open stream; its operations are the transport \<open>S\<close> of the model, with the size as first argument.\<close>

record 'w tcp_transport =
  tc_remote :: "string \<times> int"
  tc_max_bytes :: nat
  tc_stream :: bool
  tc_world :: 'w

definition TCPTransport :: "string \<Rightarrow> int \<Rightarrow> nat \<Rightarrow> 'w \<Rightarrow> 'w tcp_transport" where
  "TCPTransport host port max_bytes w =
     \<lparr>tc_remote = (host, port), tc_max_bytes = max_bytes, tc_stream = False, tc_world = w\<rparr>"

definition tcp_on_stream :: "('w, 'a) eff \<Rightarrow> ('w tcp_transport, 'a) eff" where
  "tcp_on_stream m t = map_option (\<lambda>(r, w). (r, t\<lparr>tc_world := w\<rparr>)) (m (tc_world t))"

definition tcp_aenter :: "(string \<times> int \<Rightarrow> ('w, unit) eff) \<Rightarrow> ('w tcp_transport, unit) eff" where
  "tcp_aenter connect_tcp t =
     (if tc_stream t then Some (Inl BusyResourceError, t)
      else eff_bind (tcp_on_stream (connect_tcp (tc_remote t))) (\<lambda>_. eff_modify (\<lambda>t. t\<lparr>tc_stream := True\<rparr>)) t)"

text \<open>The stream is forgotten also if closing it raises.\<close>

definition tcp_aclose :: "('w, unit) eff \<Rightarrow> ('w tcp_transport, unit) eff" where
  "tcp_aclose stream_aclose t =
     (if tc_stream t
      then map_option (\<lambda>(r, t1). (r, t1\<lparr>tc_stream := False\<rparr>)) (tcp_on_stream stream_aclose t)
      else Some (Inr (), t))"

definition tcp_receive :: "(nat \<Rightarrow> ('w, bytes) eff) \<Rightarrow> ('w tcp_transport, bytes) eff" where
  "tcp_receive stream_receive t =
     (if \<not> tc_stream t then Some (Inl ClosedResourceError, t) else tcp_on_stream (stream_receive (tc_max_bytes t)) t)"

definition tcp_send :: "(bytes \<Rightarrow> ('w, unit) eff) \<Rightarrow> bytes \<Rightarrow> ('w tcp_transport, unit) eff" where
  "tcp_send stream_send data t =
     (if \<not> tc_stream t then Some (Inl ClosedResourceError, t) else tcp_on_stream (stream_send data) t)"

section \<open>Nothing is lost between the port and its user\<close>

datatype serial_op =
    Arrive bytes
  | ReadTurn nat
  | WriteTurn
  | Receive nat
  | Send bytes

text \<open>An operation answers the bytes it delivers, if any; a blocked or refused one changes nothing.\<close>

fun serial_exec :: "(nat \<Rightarrow> bytes \<Rightarrow> (bytes \<times> bytes) option) \<Rightarrow> serial_op \<Rightarrow> serial_stream \<Rightarrow> bytes \<times> serial_stream" where
  "serial_exec take_chunk (Arrive data) s = ([], s\<lparr>sr_input := sr_input s @ data\<rparr>)"
| "serial_exec take_chunk (ReadTurn pending) s = ([], case read_turn pending s of None \<Rightarrow> s | Some s1 \<Rightarrow> s1)"
| "serial_exec take_chunk WriteTurn s = ([], case write_turn s of None \<Rightarrow> s | Some s1 \<Rightarrow> s1)"
| "serial_exec take_chunk (Receive n) s =
     (case serial_receive take_chunk n s of Some (Inr data, s1) \<Rightarrow> (data, s1) | _ \<Rightarrow> ([], s))"
| "serial_exec take_chunk (Send data) s =
     (case serial_send data s of Some (Inr _, s1) \<Rightarrow> ([], s1) | _ \<Rightarrow> ([], s))"

fun serial_run :: "(nat \<Rightarrow> bytes \<Rightarrow> (bytes \<times> bytes) option) \<Rightarrow> serial_op list \<Rightarrow> serial_stream \<Rightarrow> bytes \<times> serial_stream" where
  "serial_run take_chunk [] s = ([], s)"
| "serial_run take_chunk (op # ops) s =
     (let (out, s1) = serial_exec take_chunk op s; (outs, s2) = serial_run take_chunk ops s1 in (out @ outs, s2))"

fun arriving :: "serial_op \<Rightarrow> bytes" where
  "arriving (Arrive data) = data"
| "arriving _ = []"

fun sending :: "serial_op \<Rightarrow> bytes" where
  "sending (Send data) = data"
| "sending _ = []"

text \<open>What the documentation of the buffered stream says: it hands out the first bytes of its buffer, at most as many as asked.\<close>

definition hands_out_first :: "(nat \<Rightarrow> bytes \<Rightarrow> (bytes \<times> bytes) option) \<Rightarrow> bool" where
  "hands_out_first take_chunk \<longleftrightarrow>
     (\<forall>n buffer data rest. take_chunk n buffer = Some (data, rest) \<longrightarrow> buffer = data @ rest \<and> length data \<le> n)"

definition unread :: "serial_stream \<Rightarrow> bytes" where
  "unread s = sr_buffer s @ sr_input s"

definition written :: "serial_stream \<Rightarrow> bytes" where
  "written s = sr_output s @ concat (sr_outgoing s)"

lemma exec_conserves:
  assumes "hands_out_first take_chunk" "serial_exec take_chunk op s = (out, s')"
  shows "unread s @ arriving op = out @ unread s'"
    and "sr_writer_thread_queue s \<Longrightarrow> written s' = written s @ sending op"
    and "sr_writer_thread_queue s' = sr_writer_thread_queue s"
  using assms
  by (cases op; auto simp: unread_def written_def read_turn_def write_turn_def serial_receive_def serial_take_def
      serial_send_def hands_out_first_def Let_def split: option.splits if_splits list.splits; fail)+

lemma run_conserves:
  "hands_out_first take_chunk \<Longrightarrow> serial_run take_chunk ops s = (out, s') \<Longrightarrow>
   unread s @ concat (map arriving ops) = out @ unread s' \<and>
   (sr_writer_thread_queue s \<longrightarrow> written s' = written s @ concat (map sending ops))"
proof (induction ops arbitrary: s out)
  case (Cons op ops)
  obtain out1 s1 where 1: "serial_exec take_chunk op s = (out1, s1)" by fastforce
  obtain out2 s2 where 2: "serial_run take_chunk ops s1 = (out2, s2)" by fastforce
  have eq: "out = out1 @ out2" "s' = s2" using Cons.prems(2) 1 2 by simp_all
  from exec_conserves [OF Cons.prems(1) 1] Cons.IH [OF Cons.prems(1) 2 [folded eq]] show ?case
    by (simp add: eq) (metis append.assoc)
qed simp

text \<open>After closing, nothing goes through, closing again does nothing, and the stream can be entered again.\<close>

lemma serial_closed:
  assumes "serial_aclose port_close s = (r, s1)"
  shows "serial_send data s1 = Some (Inl ClosedResourceError, s1)"
    "serial_receive take_chunk n s1 = Some (Inl ClosedResourceError, s1)"
    "r = Inr () \<Longrightarrow> \<not> sr_port_open s1 \<and> serial_aclose port_close2 s1 = (Inr (), s1)"
  using assms
  by (auto simp: serial_aclose_def serial_aclose_begin_def serial_aclose_end_def serial_send_def serial_receive_def
      serial_take_def Let_def split: sum.splits if_splits)

lemma serial_reopened:
  assumes "serial_aexit port_close (Inr ()) s = (Inr (), s1)"
  shows "\<exists>s2. serial_aenter (Inr ()) s1 = (Inr (), s2) \<and> sr_writer_thread_queue s2 \<and> sr_reader_stream s2"
  using assms by (auto simp: serial_aexit_def serial_aenter_def split: prod.splits sum.splits if_splits)

section \<open>Property\<close>

text \<open>C17. A serial port neither loses, repeats nor reorders bytes: for any interleaving of arriving bytes, turns of the two
  worker threads, receptions and sends, what the user has received followed by what is still buffered is what was
  unread followed by what arrived, what was written followed by what is still to be written is what was sent, and no
  read asks the port for nothing or, with a positive limit, for more than the limit.\<close>

theorem serial_bytes_conserved:
  assumes "hands_out_first take_chunk" "serial_run take_chunk ops s = (received, s')" "0 < sr_max_read_size s"
  shows "unread s @ concat (map arriving ops) = received @ unread s' \<and>
    (sr_writer_thread_queue s \<longrightarrow> written s' = written s @ concat (map sending ops)) \<and>
    read_size pending (sr_max_read_size s) \<in> {1..sr_max_read_size s}"
  using run_conserves [OF assms(1,2)] assms(3) by (auto simp: read_size_def)

lemma serial_bytes_conserved_witness:
  "\<exists>received s'. serial_run (\<lambda>n buffer. if buffer = [] then None else Some (take n buffer, drop n buffer))
     [Arrive [1, 2, 3], ReadTurn 0, Receive 10, ReadTurn 2, Send [9]] (snd (serial_aenter (Inr ()) (SerialPortTransport 4))) = (received, s') \<and>
     [1, 2, 3] = received @ unread s' \<and> written s' = [9]"
proof -
  let ?take = "\<lambda>n buffer :: bytes. if buffer = [] then None else Some (take n buffer, drop n buffer)"
  let ?s = "snd (serial_aenter (Inr ()) (SerialPortTransport 4))"
  let ?ops = "[Arrive [1, 2, 3], ReadTurn 0, Receive 10, ReadTurn 2, Send [9]]"
  obtain received s' where run: "serial_run ?take ?ops ?s = (received, s')" by fastforce
  have "hands_out_first ?take" by (simp add: hands_out_first_def)
  moreover have "0 < sr_max_read_size ?s" "unread ?s = []" "written ?s = []" "sr_writer_thread_queue ?s"
    by (simp_all add: serial_aenter_def SerialPortTransport_def SerialPortByteStream_def unread_def written_def)
  ultimately show ?thesis using serial_bytes_conserved [OF _ run] run by auto
qed

end
