(* ===== verification/Cli.thy ===== *)
theory Cli
  imports Scanners
begin

text \<open>
  The command line under \<^verbatim>\<open>cli/\<close>. \<open>uploader\<close> of \<^verbatim>\<open>__main__.py\<close> checks the options, chooses a scanner and starts one
  task per target; its result here is what it sets up. \<open>RichConsoleUI\<close> of \<^verbatim>\<open>rich_ui.py\<close> turns events into calls
  of the progress widget, which is third-party code: the calls are recorded, and the identifiers that
  the widget hands out are a parameter. Progress is rounded from its exact value.
\<close>

section \<open>The uploader function\<close>

record options =
  op_firmware :: "string option"
  op_max_concurrency :: int
  op_retries :: int
  op_port :: "string list option"
  op_factory_reset :: bool
  op_flash_bootloader :: bool

text \<open>What the parser returns for an empty command line.\<close>

definition default_options :: options where
  "default_options = \<lparr>op_firmware = None, op_max_concurrency = 0, op_retries = 3, op_port = None,
     op_factory_reset = False, op_flash_bootloader = False\<rparr>"

definition check_options :: "options \<Rightarrow> unit result" where
  "check_options opts =
     (if op_firmware opts \<noteq> None then
        if op_factory_reset opts then Inl (RuntimeError ''cannot use --factory-reset together with a firmware image'')
        else if op_flash_bootloader opts then Inl (RuntimeError ''cannot use --flash-bootloader together with a firmware image'')
        else Inr ()
      else Inr ())"

datatype scanner = UDPMAVLinkHeartbeatScanner | FixedTargetList "string list" | SerialPortScanner

text \<open>The scanner and what is logged about it.\<close>

definition choose_scanner :: "options \<Rightarrow> uploader_event list \<times> scanner" where
  "choose_scanner opts =
     (let ports = (case op_port opts of None \<Rightarrow> [] | Some ps \<Rightarrow> ps) in
      if ports \<noteq> [] then
        if ports = [''udp'']
        then ([LogEvent 20 ''Listening on UDP port 14550 for MAVLink heartbeats, ^C to exit...''], UDPMAVLinkHeartbeatScanner)
        else ([], FixedTargetList ports)
      else ([LogEvent 20 ''Finding serial ports transmitting MAVLink heartbeats, ^C to exit...''], SerialPortScanner))"

datatype started_task = UploadTo string | FlashBootloaderOn string | FactoryResetOn string

text \<open>One \<open>async for\<close> over the generator: it takes the targets that are left.\<close>

definition start_for :: "bool \<Rightarrow> (string \<Rightarrow> started_task) \<Rightarrow> started_task list \<times> string list \<Rightarrow> started_task list \<times> string list" where
  "start_for wanted task st = (case st of (started, targets) \<Rightarrow>
     if wanted then (started @ map task targets, []) else (started, targets))"

definition start_tasks :: "options \<Rightarrow> string list \<Rightarrow> started_task list" where
  "start_tasks opts targets =
     fst (start_for (op_factory_reset opts) FactoryResetOn
       (start_for (op_flash_bootloader opts) FlashBootloaderOn
         (start_for (op_firmware opts \<noteq> None) UploadTo ([], targets))))"

text \<open>\<open>UploaderTaskGroup(uploader, retries, max_concurrency)\<close>.\<close>

record task_group =
  tg_limiter :: "int option"
  tg_retries :: int

definition UploaderTaskGroup :: "int \<Rightarrow> int \<Rightarrow> task_group" where
  "UploaderTaskGroup retries max_concurrency =
     \<lparr>tg_limiter = (if max_concurrency > 0 then Some max_concurrency else None), tg_retries = retries\<rparr>"

record session =
  ss_firmware :: "firmware option"
  ss_group :: task_group
  ss_log :: "uploader_event list"
  ss_started :: "started_task list"

text \<open>\<open>load\<close> is \<open>load_firmware\<close>, \<open>shared\<close> whether the shared socket comes up, \<open>found\<close> what a scanner yields.\<close>

definition cli_uploader ::
  "(string \<Rightarrow> firmware result) \<Rightarrow> unit result \<Rightarrow> (scanner \<Rightarrow> string list) \<Rightarrow> options \<Rightarrow> session result" where
  "cli_uploader load shared found opts =
     (let max_concurrency = max (op_max_concurrency opts) 0; retries = max (op_retries opts) 0 in
      case check_options opts of
        Inl e \<Rightarrow> Inl e
      | Inr _ \<Rightarrow>
          (case (case op_firmware opts of None \<Rightarrow> Inr None | Some path \<Rightarrow> map_sum id Some (load path)) of
             Inl e \<Rightarrow> Inl e
           | Inr fw \<Rightarrow>
               let group = UploaderTaskGroup retries max_concurrency; (log, scanner) = choose_scanner opts in
               (case (if scanner = UDPMAVLinkHeartbeatScanner then shared else Inr ()) of
                  Inl e \<Rightarrow> Inl e
                | Inr _ \<Rightarrow> Inr \<lparr>ss_firmware = fw, ss_group = group, ss_log = log,
                                 ss_started = start_tasks opts (found scanner)\<rparr>)))"

section \<open>Formatting\<close>

text \<open>\<open>s.ljust(n)\<close> and \<open>f"{s:<n}"\<close>.\<close>

definition ljust :: "nat \<Rightarrow> string \<Rightarrow> string" where
  "ljust n s = s @ replicate (n - length s) CHR '' ''"

definition hex_digit :: "nat \<Rightarrow> char" where
  "hex_digit n = (if n < 10 then char_of (48 + n) else char_of (87 + n))"

fun hex :: "nat \<Rightarrow> string" where
  "hex n = (if n < 16 then [] else hex (n div 16)) @ [hex_digit (n mod 16)]"

declare hex.simps [simp del]

text \<open>\<open>f"{i:04x}"\<close>: the sign counts in the width.\<close>

definition hex4 :: "int \<Rightarrow> string" where
  "hex4 i = (let digits = hex (nat \<bar>i\<bar>) in
     if i < 0 then CHR ''-'' # replicate (3 - length digits) CHR ''0'' @ digits
     else replicate (4 - length digits) CHR ''0'' @ digits)"

text \<open>\<open>round(x)\<close>: ties go to the even neighbour.\<close>

definition py_round :: "rat \<Rightarrow> int" where
  "py_round x = (let f = \<lfloor>x\<rfloor>; d = x - of_int f in
     if d < 1 / 2 then f else if d > 1 / 2 then f + 1 else if even f then f else f + 1)"

section \<open>RichConsoleUI\<close>

datatype 'id ui_call =
    AddTask 'id string bool string
  | StartTask 'id
  | StopTask 'id
  | UpdateCompleted 'id int
  | UpdateDescription 'id string
  | PrintLine string

record 'id ui =
  ui_tasks :: "string \<rightharpoonup> 'id"
  ui_calls :: "'id ui_call list"

definition RichConsoleUI_enter :: "'id ui" where
  "RichConsoleUI_enter = \<lparr>ui_tasks = Map.empty, ui_calls = []\<rparr>"

definition ui_call :: "'id ui_call \<Rightarrow> 'id ui \<Rightarrow> 'id ui" where
  "ui_call call ui = ui\<lparr>ui_calls := ui_calls ui @ [call]\<rparr>"

text \<open>\<open>new_id\<close> is what \<open>add_task\<close> returns after the calls so far.\<close>

definition get_task_id_for_event_source ::
  "('id ui_call list \<Rightarrow> 'id) \<Rightarrow> string \<Rightarrow> 'id ui \<Rightarrow> 'id \<times> 'id ui" where
  "get_task_id_for_event_source new_id source ui =
     (case ui_tasks ui source of
        Some i \<Rightarrow> (i, ui)
      | None \<Rightarrow>
          let i = new_id (ui_calls ui)
          in (i, (ui_call (AddTask i ''Starting...'' False source) ui)\<lparr>ui_tasks := (ui_tasks ui)(source \<mapsto> i)\<rparr>))"

definition format_sender :: "string \<Rightarrow> string" where
  "format_sender sender = ''[bold white]'' @ ljust 15 sender @ ''[/bold white]''"

definition log_sign :: "int \<Rightarrow> string" where
  "log_sign level =
     (if level \<ge> 40 then ''[red bold]X[/red bold]''
      else if level \<ge> 30 then ''[yellow bold]![/yellow bold]''
      else ''[green bold]>[/green bold]'')"

definition ui_log :: "string \<Rightarrow> string \<Rightarrow> int \<Rightarrow> 'id ui \<Rightarrow> 'id ui" where
  "ui_log message sender level =
     (if sender \<noteq> [] then ui_call (PrintLine (log_sign level @ '' '' @ format_sender sender @ '' '' @ message))
      else ui_call (PrintLine (log_sign level @ '' '' @ message)))"

definition outcome_description :: "bool option \<Rightarrow> bool option \<Rightarrow> bool option \<Rightarrow> string" where
  "outcome_description success cancelled retrying =
     (if success \<noteq> Some True then
        if cancelled = Some True then ''[yellow bold]Cancelled    [/yellow bold]''
        else if retrying = Some True then ''[yellow bold]Waiting...   [/yellow bold]''
        else ''[red bold]Failed :(    [/red bold]''
      else ''[green bold]Finished.    [/green bold]'')"

fun handle_event :: "('id ui_call list \<Rightarrow> 'id) \<Rightarrow> string \<Rightarrow> uploader_event \<Rightarrow> 'id ui \<Rightarrow> 'id ui" where
  "handle_event new_id sender (UploadProgressEvent progress) ui =
     (let (i, ui1) = get_task_id_for_event_source new_id sender ui
      in ui_call (UpdateCompleted i (py_round (progress * 100))) ui1)"
| "handle_event new_id sender (UploadStepEvent st) ui =
     (let (i, ui1) = get_task_id_for_event_source new_id sender ui;
          ui2 = (if st = UPLOADING then ui_call (StartTask i) ui1 else ui1)
      in ui_call (UpdateDescription i (ljust 13 (step_description st))) ui2)"
| "handle_event new_id sender (UploaderLifecycleEvent type success cancelled retrying) ui =
     (let (i, ui1) = get_task_id_for_event_source new_id sender ui
      in if type = ''finished''
         then ui_call (StopTask i) (ui_call (UpdateDescription i (outcome_description success cancelled retrying)) ui1)
         else ui1)"
| "handle_event new_id sender (CRCMismatchEvent expected observed) ui =
     ui_log (''CRC mismatch, expected 0x'' @ hex4 expected @ '', got 0x'' @ hex4 observed) sender 40 ui"
| "handle_event new_id sender (LogEvent level message) ui = ui_log message sender level ui"

fun ui_run :: "('id ui_call list \<Rightarrow> 'id) \<Rightarrow> (string \<times> uploader_event) list \<Rightarrow> 'id ui \<Rightarrow> 'id ui" where
  "ui_run new_id [] ui = ui"
| "ui_run new_id ((sender, ev) # evs) ui = ui_run new_id evs (handle_event new_id sender ev ui)"

end
