(* ===== verification/Cli_Display.thy ===== *)
theory Cli_Display
  imports Cli Uploader_Events
begin

text \<open>
  What the command line guarantees its user: it never runs a task in a state the task is not made for, every
  target has one row of the display, and the display tells how a task ended.
\<close>

section \<open>The rows of the display\<close>

fun added :: "'id ui_call list \<Rightarrow> ('id \<times> string) list" where
  "added [] = []"
| "added (AddTask i _ _ source # calls) = (i, source) # added calls"
| "added (_ # calls) = added calls"

lemma added_append [simp]: "added (xs @ ys) = added xs @ added ys"
  by (induction xs rule: added.induct) auto

text \<open>What the documentation of the widget says of \<open>add_task\<close>: the identifier is a new one.\<close>

definition fresh_ids :: "('id ui_call list \<Rightarrow> 'id) \<Rightarrow> bool" where
  "fresh_ids new_id \<longleftrightarrow> (\<forall>calls. new_id calls \<notin> fst ` set (added calls))"

fun refers_to :: "'id ui_call \<Rightarrow> 'id set" where
  "refers_to (StartTask i) = {i}"
| "refers_to (StopTask i) = {i}"
| "refers_to (UpdateCompleted i _) = {i}"
| "refers_to (UpdateDescription i _) = {i}"
| "refers_to _ = {}"

text \<open>Calls refer only to rows that exist by then.\<close>

fun well_addressed :: "'id set \<Rightarrow> 'id ui_call list \<Rightarrow> bool" where
  "well_addressed known [] = True"
| "well_addressed known (c # calls) \<longleftrightarrow>
     refers_to c \<subseteq> known \<and> well_addressed (known \<union> fst ` set (added [c])) calls"

lemma added_cons: "added (c # calls) = added [c] @ added calls"
  using added_append [of "[c]" calls] by simp

lemma well_addressed_append [simp]:
  "well_addressed known (xs @ ys) \<longleftrightarrow> well_addressed known xs \<and> well_addressed (known \<union> fst ` set (added xs)) ys"
proof (induction xs arbitrary: known)
  case (Cons c xs)
  have "fst ` set (added (c # xs)) = fst ` set (added [c]) \<union> fst ` set (added xs)"
    by (subst added_cons) auto
  with Cons show ?case by (simp add: Un_assoc)
qed simp

fun printed :: "uploader_event \<Rightarrow> bool" where
  "printed (CRCMismatchEvent _ _) = True"
| "printed (LogEvent _ _) = True"
| "printed _ = False"

lemma ui_call_simps [simp]:
  "ui_calls (ui_call c ui) = ui_calls ui @ [c]" "ui_tasks (ui_call c ui) = ui_tasks ui"
  by (simp_all add: ui_call_def)

text \<open>The row of a sender after one of its unprinted events.\<close>

definition row_inv :: "string set \<Rightarrow> 'id ui \<Rightarrow> bool" where
  "row_inv sources ui \<longleftrightarrow>
     (\<forall>source i. ui_tasks ui source = Some i \<longleftrightarrow> (i, source) \<in> set (added (ui_calls ui))) \<and>
     distinct (map fst (added (ui_calls ui))) \<and> distinct (map snd (added (ui_calls ui))) \<and>
     snd ` set (added (ui_calls ui)) = sources \<and> well_addressed {} (ui_calls ui)"

lemma row_of_sender:
  assumes "fresh_ids new_id" "row_inv sources ui" "get_task_id_for_event_source new_id sender ui = (i, ui1)"
  shows "row_inv (insert sender sources) ui1 \<and> ui_tasks ui1 sender = Some i"
proof (cases "ui_tasks ui sender")
  case (Some j)
  with assms(3) have eq: "i = j" "ui1 = ui" by (simp_all add: get_task_id_for_event_source_def)
  from Some assms(2) have "(j, sender) \<in> set (added (ui_calls ui))" by (simp add: row_inv_def)
  then have "sender \<in> sources" using assms(2) by (force simp: row_inv_def)
  with Some assms(2) eq show ?thesis by (simp add: insert_absorb)
next
  case None
  let ?i = "new_id (ui_calls ui)"
  from None assms(3) have eq: "i = ?i"
    "ui1 = (ui_call (AddTask ?i ''Starting...'' False sender) ui)\<lparr>ui_tasks := (ui_tasks ui)(sender \<mapsto> ?i)\<rparr>"
    by (auto simp: get_task_id_for_event_source_def Let_def)
  have new: "?i \<notin> fst ` set (added (ui_calls ui))" using assms(1) by (simp add: fresh_ids_def)
  have none: "(j, sender) \<notin> set (added (ui_calls ui))" for j
    using None assms(2) by (metis (no_types, lifting) option.distinct(1) row_inv_def)
  then have "sender \<notin> snd ` set (added (ui_calls ui))" by force
  with new none assms(2) show ?thesis by (auto simp: row_inv_def eq)
qed

lemma row_call:
  assumes "row_inv sources ui" "ui_tasks ui sender = Some i" "refers_to c \<subseteq> {i}" "added [c] = []"
  shows "row_inv sources (ui_call c ui) \<and> ui_tasks (ui_call c ui) sender = Some i"
proof -
  have "(i, sender) \<in> set (added (ui_calls ui))" using assms(1,2) by (simp add: row_inv_def)
  then have "i \<in> fst ` set (added (ui_calls ui))" by force
  then show ?thesis using assms by (auto simp: row_inv_def)
qed

lemma row_handle:
  assumes "fresh_ids new_id" "row_inv sources ui" "\<not> printed ev"
  shows "row_inv (insert sender sources) (handle_event new_id sender ev ui)"
proof -
  obtain i ui1 where g: "get_task_id_for_event_source new_id sender ui = (i, ui1)" by fastforce
  note row = row_of_sender [OF assms(1,2) g]
  have call: "row_inv (insert sender sources) (ui_call c v) \<and> ui_tasks (ui_call c v) sender = Some i"
    if "row_inv (insert sender sources) v \<and> ui_tasks v sender = Some i" "refers_to c \<subseteq> {i}" "added [c] = []" for c v
    using row_call that by metis
  show ?thesis
    using assms(3) g row by (cases ev) (simp_all add: Let_def call)
qed

lemma row_printed:
  assumes "row_inv sources ui" "printed ev"
  shows "row_inv sources (handle_event new_id sender ev ui)"
  using assms by (cases ev) (auto simp: ui_log_def row_inv_def)

lemma row_run:
  "fresh_ids new_id \<Longrightarrow> row_inv sources ui \<Longrightarrow>
   row_inv (sources \<union> fst ` {x \<in> set evs. \<not> printed (snd x)}) (ui_run new_id evs ui)"
proof (induction evs arbitrary: sources ui)
  case (Cons x evs)
  obtain sender ev where x: "x = (sender, ev)" by (cases x)
  let ?new = "if printed ev then {} else {sender}"
  have "row_inv (sources \<union> ?new) (handle_event new_id sender ev ui)"
    using Cons.prems row_handle row_printed by (cases "printed ev") auto
  from Cons.IH [OF Cons.prems(1) this]
  have "row_inv (sources \<union> ?new \<union> fst ` {x \<in> set evs. \<not> printed (snd x)}) (ui_run new_id (x # evs) ui)" by (simp add: x)
  moreover have "{y \<in> set (x # evs). \<not> printed (snd y)} =
      (if printed ev then {} else {(sender, ev)}) \<union> {y \<in> set evs. \<not> printed (snd y)}" by (auto simp: x)
  ultimately show ?case by (simp split: if_splits)
qed simp

lemma row_start: "row_inv {} RichConsoleUI_enter"
  by (simp add: row_inv_def RichConsoleUI_enter_def)

lemma ui_run_append: "ui_run new_id (xs @ ys) ui = ui_run new_id ys (ui_run new_id xs ui)"
  by (induction new_id xs ui rule: ui_run.induct) auto

section \<open>What a row shows\<close>

text \<open>The description that the widget was last given for a row.\<close>

fun shown :: "'id \<Rightarrow> 'id ui_call list \<Rightarrow> string option \<Rightarrow> string option" where
  "shown i [] d = d"
| "shown i (AddTask j description _ _ # calls) d = shown i calls (if i = j then Some description else d)"
| "shown i (UpdateDescription j description # calls) d = shown i calls (if i = j then Some description else d)"
| "shown i (_ # calls) d = shown i calls d"

lemma shown_append [simp]: "shown i (xs @ ys) d = shown i ys (shown i xs d)"
  by (induction i xs d rule: shown.induct) auto

lemma shown_ui_call [simp]: "shown i (ui_calls (ui_call c ui)) d = shown i [c] (shown i (ui_calls ui) d)"
  by simp

definition row_shows :: "string \<Rightarrow> 'id \<Rightarrow> string \<Rightarrow> 'id ui \<Rightarrow> bool" where
  "row_shows sender i text ui \<longleftrightarrow> ui_tasks ui sender = Some i \<and> shown i (ui_calls ui) None = Some text"

lemma finished_shows:
  "\<exists>i. row_shows sender i (outcome_description (Some success) (Some cancelled) (Some retrying))
     (handle_event new_id sender (finished success cancelled retrying) ui)"
  by (cases "ui_tasks ui sender")
     (auto simp: finished_def get_task_id_for_event_source_def row_shows_def Let_def)

lemma others_keep_row:
  assumes "fresh_ids new_id" "row_inv sources ui" "row_shows source i text ui"
    and "sender \<noteq> source \<or> printed ev"
  shows "row_shows source i text (handle_event new_id sender ev ui)"
proof (cases "printed ev")
  case True
  then show ?thesis using assms(3) by (cases ev) (auto simp: ui_log_def row_shows_def)
next
  case False
  with assms(4) have differ: "sender \<noteq> source" by simp
  obtain j ui1 where g: "get_task_id_for_event_source new_id sender ui = (j, ui1)" by fastforce
  have in_row: "(i, source) \<in> set (added (ui_calls ui))" using assms(2,3) by (simp add: row_inv_def row_shows_def)
  have "i \<noteq> j"
  proof (cases "ui_tasks ui sender")
    case None
    with g have "j = new_id (ui_calls ui)" by (auto simp: get_task_id_for_event_source_def Let_def)
    with assms(1) in_row show ?thesis by (force simp: fresh_ids_def)
  next
    case (Some k)
    with g have "(j, sender) \<in> set (added (ui_calls ui))"
      using assms(2) by (auto simp: get_task_id_for_event_source_def row_inv_def)
    moreover have "distinct (map fst (added (ui_calls ui)))" using assms(2) by (simp add: row_inv_def)
    ultimately show ?thesis using in_row differ by (metis eq_key_imp_eq_value)
  qed
  moreover from this have "row_shows source i text ui1"
    using g assms(3) differ
    by (cases "ui_tasks ui sender") (auto simp: get_task_id_for_event_source_def row_shows_def Let_def)
  ultimately show ?thesis using False g
    by (cases ev) (auto simp: row_shows_def Let_def)
qed

lemma others_keep_row_run:
  assumes "fresh_ids new_id" "\<forall>(sender, ev) \<in> set evs. sender \<noteq> source \<or> printed ev"
  shows "row_inv sources ui \<Longrightarrow> row_shows source i text ui \<Longrightarrow> row_shows source i text (ui_run new_id evs ui)"
  using assms(2)
proof (induction evs arbitrary: sources ui)
  case (Cons x evs)
  obtain sender ev where x: "x = (sender, ev)" by (cases x)
  have "\<exists>sources'. row_inv sources' (handle_event new_id sender ev ui)"
    using Cons.prems(1) assms(1) row_handle row_printed by (cases "printed ev") blast+
  moreover have "row_shows source i text (handle_event new_id sender ev ui)"
    using others_keep_row [OF assms(1) Cons.prems(1,2)] Cons.prems(3) x by auto
  ultimately show ?case using Cons.IH Cons.prems(3) x by auto
qed simp

section \<open>Properties\<close>

text \<open>C34. The display has one row per target: whatever events arrive from whatever targets, in any order, every target
  with an event other than a log line or a CRC mismatch has exactly one row, also when it is retried, no two targets
  share one, and every call of the widget refers to a row that exists.\<close>

theorem one_row_per_target:
  assumes "fresh_ids new_id" "ui = ui_run new_id evs RichConsoleUI_enter"
  shows "distinct (map fst (added (ui_calls ui))) \<and> distinct (map snd (added (ui_calls ui))) \<and>
    snd ` set (added (ui_calls ui)) = fst ` {x \<in> set evs. \<not> printed (snd x)} \<and>
    well_addressed {} (ui_calls ui)"
  using row_run [OF assms(1) row_start, of evs] by (simp add: row_inv_def assms(2))

lemma fresh_counter: "fresh_ids (\<lambda>calls. Suc (Max (insert 0 (fst ` set (added calls)))))"
proof -
  have "Suc (Max (insert 0 A)) \<notin> A" if "finite A" for A :: "nat set"
  proof
    assume "Suc (Max (insert 0 A)) \<in> A"
    with that have "Suc (Max (insert 0 A)) \<le> Max (insert 0 A)" by (intro Max_ge) simp_all
    then show False by simp
  qed
  then show ?thesis by (simp add: fresh_ids_def)
qed

lemma one_row_per_target_witness:
  "distinct (map snd (added (ui_calls (ui_run (\<lambda>calls. Suc (Max (insert 0 (fst ` set (added calls)))))
     [(''a'', UploadStepEvent CONNECTING), (''b'', lifecycle ''started''), (''a'', finished False False True)] RichConsoleUI_enter))))"
  using one_row_per_target [OF fresh_counter refl] by blast

text \<open>The display keeps the outcome: after a "finished" event of a target its row shows what the event says (finished,
  cancelled, waiting for a retry, or failed), and goes on showing it through any later events of other targets and any
  log lines.\<close>

theorem outcome_stays_shown:
  assumes "fresh_ids new_id" and "\<forall>(sender, ev) \<in> set after. sender \<noteq> source \<or> printed ev"
  shows "\<exists>i. row_shows source i
    (if success then ''[green bold]Finished.    [/green bold]''
     else if cancelled then ''[yellow bold]Cancelled    [/yellow bold]''
     else if retrying then ''[yellow bold]Waiting...   [/yellow bold]'' else ''[red bold]Failed :(    [/red bold]'')
    (ui_run new_id (before @ (source, finished success cancelled retrying) # after) RichConsoleUI_enter)"
proof -
  let ?ui = "ui_run new_id before RichConsoleUI_enter"
  let ?next = "handle_event new_id source (finished success cancelled retrying) ?ui"
  obtain sources where "row_inv sources ?ui" using row_run [OF assms(1) row_start] by blast
  then have "row_inv (insert source sources) ?next"
    using row_handle [OF assms(1), of sources ?ui "finished success cancelled retrying" source] by (simp add: finished_def)
  moreover obtain i where "row_shows source i (outcome_description (Some success) (Some cancelled) (Some retrying)) ?next"
    using finished_shows [of source success cancelled retrying new_id ?ui] by (elim exE) (rule that)
  ultimately have "row_shows source i (outcome_description (Some success) (Some cancelled) (Some retrying)) (ui_run new_id after ?next)"
    by (rule others_keep_row_run [OF assms])
  then show ?thesis by (auto simp: ui_run_append outcome_description_def)
qed

lemma outcome_stays_shown_witness:
  "\<exists>i. row_shows ''a'' i ''[green bold]Finished.    [/green bold]''
     (ui_run (\<lambda>calls. Suc (Max (insert 0 (fst ` set (added calls)))))
       ([] @ (''a'', finished True False True) # [(''b'', lifecycle ''started''), (''a'', LogEvent 40 '''')]) RichConsoleUI_enter)"
  using outcome_stays_shown [OF fresh_counter, of "[(''b'', lifecycle ''started''), (''a'', LogEvent 40 '''')]" "''a''" True False True "[]"]
  by simp

section \<open>A session\<close>

text \<open>The state in which a task of a session starts.\<close>

definition task_of_session :: "session \<Rightarrow> 'w \<Rightarrow> 'w task_world" where
  "task_of_session ss io =
     \<lparr>tw_io = io, tw_events = [], tw_success = False, tw_retrying = False, tw_firmware = ss_firmware ss,
      tw_expected_failures = 0, tw_limiter = (case tg_limiter (ss_group ss) of None \<Rightarrow> None | Some _ \<Rightarrow> Some False)\<rparr>"

lemma session_parts:
  assumes "cli_uploader load shared found opts = Inr ss"
  shows "0 \<le> tg_retries (ss_group ss)" "\<And>n. tg_limiter (ss_group ss) = Some n \<Longrightarrow> 0 < n"
    "op_firmware opts \<noteq> None \<Longrightarrow> ss_firmware ss \<noteq> None \<and> \<not> op_factory_reset opts \<and> \<not> op_flash_bootloader opts"
    "\<exists>scanner. snd (choose_scanner opts) = scanner \<and> ss_started ss = start_tasks opts (found scanner)"
  using assms by (auto simp: cli_uploader_def check_options_def UploaderTaskGroup_def Let_def map_sum_def
      split: sum.splits if_splits option.splits prod.splits)

text \<open>A session runs what was asked for: with a firmware, every target of the scanner gets one upload and nothing else is started;
  without one, bootloader flashing takes all targets before a factory reset gets any, and with neither option nothing is
  started. Retries are never negative, a limiter always has tokens, and the contradictory options raise.\<close>

theorem session_starts_tasks:
  "(case cli_uploader load shared found opts of
      Inl e \<Rightarrow> (op_firmware opts \<noteq> None \<and> (op_factory_reset opts \<or> op_flash_bootloader opts)) \<or>
        (\<exists>path. op_firmware opts = Some path \<and> load path = Inl e) \<or>
        (op_port opts = Some [''udp''] \<and> shared = Inl e)
    | Inr ss \<Rightarrow> 0 \<le> tg_retries (ss_group ss) \<and> tg_limiter (ss_group ss) \<notin> Some ` {..0} \<and>
        (let targets = found (snd (choose_scanner opts)) in
         ss_started ss =
           (if op_firmware opts \<noteq> None then map UploadTo targets
            else if op_flash_bootloader opts then map FlashBootloaderOn targets
            else if op_factory_reset opts then map FactoryResetOn targets
            else [])))"
proof (cases "cli_uploader load shared found opts")
  case (Inl e)
  then show ?thesis
    by (auto simp: cli_uploader_def check_options_def choose_scanner_def Let_def map_sum_def
        split: sum.splits if_splits option.splits prod.splits)
next
  case (Inr ss)
  have "tg_limiter (ss_group ss) \<notin> Some ` {..0}"
    using session_parts(2) [OF Inr] by (metis atMost_iff imageE not_less)
  with session_parts [OF Inr] show ?thesis
    by (auto simp: Inr Let_def start_tasks_def start_for_def)
qed

end
