(* ===== verification/Task_Group.thy ===== *)
theory Task_Group
  imports Cli_Display
begin

text \<open>
  The tasks of one session side by side. \<open>UploaderTaskGroup\<close> starts an \<open>UploaderTask\<close> per target; the tasks share the
  \<open>CapacityLimiter\<close> and the event handler, while the world behind its transport is each task's own
  (\<open>Network_Isolation\<close> shows this for the shared socket). A \<open>task_turn\<close> is what a task does between two points
  where others may run: take a token and call \<open>func\<close>, report one event of that call, or leave the call, give the token back and
  decide about another attempt. A schedule is any list of task numbers. A call that never
  returns keeps its token for ever; its events are not shown.
\<close>

section \<open>Turns\<close>

fun task_port :: "started_task \<Rightarrow> string" where
  "task_port (UploadTo port) = port"
| "task_port (FlashBootloaderOn port) = port"
| "task_port (FactoryResetOn port) = port"

text \<open>The \<open>func\<close> that \<open>_start_task\<close> is given, with the arguments that \<open>UploaderTask.run\<close> calls it with.\<close>

fun task_call :: "'w environment \<Rightarrow> started_task \<Rightarrow> bool \<Rightarrow> ('w task_world, unit) eff" where
  "task_call en (UploadTo port) expecting_failure = upload_firmware en port expecting_failure (Some expect_failure)"
| "task_call en (FlashBootloaderOn port) expecting_failure = run_flash_bootloader en port expecting_failure (Some expect_failure)"
| "task_call en (FactoryResetOn port) expecting_failure = perform_factory_reset en port expecting_failure (Some expect_failure)"

text \<open>
  Where a task is: at the head of its loop with the number of its attempt; inside a call, with the events the
  call has yet to report and what comes out of it; or returned.
\<close>

datatype 'w phase =
    Looping int
  | Calling int "uploader_event list" "(unit result \<times> 'w task_world) option"
  | Returned "unit result"

record 'w member =
  mb_task :: started_task
  mb_world :: "'w task_world"
  mb_phase :: "'w phase"

record 'w group =
  gr_members :: "'w member list"
  gr_borrowers :: "nat list"
  gr_log :: "(string \<times> uploader_event) list"

definition hold :: "bool \<Rightarrow> 'w task_world \<Rightarrow> 'w task_world" where
  "hold b w = w\<lparr>tw_limiter := map_option (\<lambda>_. b) (tw_limiter w)\<rparr>"

definition available :: "int option \<Rightarrow> 'w group \<Rightarrow> bool" where
  "available limiter g = (case limiter of None \<Rightarrow> True | Some n \<Rightarrow> int (length (gr_borrowers g)) < n)"

definition new_events :: "'w task_world \<Rightarrow> 'w task_world \<Rightarrow> uploader_event list" where
  "new_events w w1 = drop (length (tw_events w)) (tw_events w1)"

text \<open>\<open>limiter.acquire()\<close>, which waits for a free token, and the call of \<open>func\<close>.\<close>

definition begin_call ::
  "(started_task \<Rightarrow> bool \<Rightarrow> ('w task_world, unit) eff) \<Rightarrow> int option \<Rightarrow> nat \<Rightarrow> int \<Rightarrow> 'w group \<Rightarrow> 'w group option" where
  "begin_call call limiter i attempt g =
     (let m = gr_members g ! i; w = mb_world m;
          called = call (mb_task m) (tw_expected_failures w > 0) (hold True w);
          events = (case called of None \<Rightarrow> [] | Some (r, w1) \<Rightarrow> new_events w w1)
      in if available limiter g
         then Some (g\<lparr>gr_members := (gr_members g)[i := m\<lparr>mb_phase := Calling attempt events called\<rparr>],
                      gr_borrowers := (if limiter = None then [] else [i]) @ gr_borrowers g\<rparr>)
         else None)"

text \<open>After the call: the phase and the world that follow its result.\<close>

definition after_call ::
  "(exn \<Rightarrow> string) \<Rightarrow> int \<Rightarrow> int \<Rightarrow> unit result \<Rightarrow> 'w task_world \<Rightarrow> 'w phase \<times> 'w task_world" where
  "after_call repr retries attempt r w =
     (case r of
        Inr _ \<Rightarrow> (Returned (Inr ()), w)
      | Inl e \<Rightarrow> if e = Cancelled then (Returned (Inl e), w)
                 else map_prod Looping id (next_attempt repr retries attempt e w))"

definition end_call ::
  "(exn \<Rightarrow> string) \<Rightarrow> int \<Rightarrow> nat \<Rightarrow> int \<Rightarrow> unit result \<Rightarrow> 'w task_world \<Rightarrow> 'w group \<Rightarrow> 'w group" where
  "end_call repr retries i attempt r w1 g =
     (let m = gr_members g ! i; (phase, w2) = after_call repr retries attempt r (hold False w1)
      in g\<lparr>gr_members := (gr_members g)[i := m\<lparr>mb_world := w2, mb_phase := phase\<rparr>],
           gr_borrowers := remove1 i (gr_borrowers g),
           gr_log := gr_log g @ map (Pair (task_port (mb_task m))) (new_events w1 w2)\<rparr>)"

definition task_turn ::
  "(exn \<Rightarrow> string) \<Rightarrow> (started_task \<Rightarrow> bool \<Rightarrow> ('w task_world, unit) eff) \<Rightarrow> task_group \<Rightarrow> nat \<Rightarrow> 'w group \<Rightarrow>
   'w group option" where
  "task_turn repr call tg i g =
     (if i < length (gr_members g) then
        let m = gr_members g ! i in
        case mb_phase m of
          Looping attempt \<Rightarrow>
            if attempt \<le> tg_retries tg then begin_call call (tg_limiter tg) i attempt g
            else Some (g\<lparr>gr_members := (gr_members g)[i := m\<lparr>mb_phase := Returned (Inr ())\<rparr>]\<rparr>)
        | Calling attempt (ev # evs) called \<Rightarrow>
            Some (g\<lparr>gr_members := (gr_members g)[i := m\<lparr>mb_phase := Calling attempt evs called\<rparr>],
                    gr_log := gr_log g @ [(task_port (mb_task m), ev)]\<rparr>)
        | Calling attempt [] called \<Rightarrow>
            map_option (\<lambda>(r, w1). end_call repr (tg_retries tg) i attempt r w1 g) called
        | Returned r \<Rightarrow> None
      else None)"

fun run_schedule ::
  "(exn \<Rightarrow> string) \<Rightarrow> (started_task \<Rightarrow> bool \<Rightarrow> ('w task_world, unit) eff) \<Rightarrow> task_group \<Rightarrow> nat list \<Rightarrow> 'w group \<Rightarrow>
   'w group option" where
  "run_schedule repr call tg [] g = Some g"
| "run_schedule repr call tg (i # is) g = Option.bind (task_turn repr call tg i g) (run_schedule repr call tg is)"

text \<open>The tasks of a session when none of them has run yet; \<open>ios i\<close> is the world of task \<open>i\<close>.\<close>

definition start_session :: "session \<Rightarrow> (nat \<Rightarrow> 'w) \<Rightarrow> 'w group" where
  "start_session ss ios =
     \<lparr>gr_members = map (\<lambda>i. \<lparr>mb_task = ss_started ss ! i, mb_world = task_of_session ss (ios i), mb_phase = Looping 0\<rparr>)
        [0..<length (ss_started ss)],
      gr_borrowers = [], gr_log = []\<rparr>"

text \<open>The same task alone.\<close>

definition run_task :: "(exn \<Rightarrow> string) \<Rightarrow> 'w environment \<Rightarrow> int \<Rightarrow> started_task \<Rightarrow> ('w task_world, unit) eff" where
  "run_task repr en retries t =
     (case t of
        UploadTo port \<Rightarrow> start_upload_to repr en retries port
      | FlashBootloaderOn port \<Rightarrow> start_flash_bootloader_on repr en retries port
      | FactoryResetOn port \<Rightarrow> start_factory_reset_on repr en retries port)"


section \<open>Turns and single tasks\<close>

text \<open>What a turn does to its own task, with the events it reports.\<close>

fun calling :: "'w phase \<Rightarrow> bool" where
  "calling (Calling _ _ _) = True"
| "calling _ = False"

inductive member_step ::
  "(exn \<Rightarrow> string) \<Rightarrow> (started_task \<Rightarrow> bool \<Rightarrow> ('w task_world, unit) eff) \<Rightarrow> int \<Rightarrow>
   'w member \<Rightarrow> uploader_event list \<Rightarrow> 'w member \<Rightarrow> bool"
  for repr call retries where
  enters: "mb_phase m = Looping a \<Longrightarrow> a \<le> retries \<Longrightarrow>
     called = call (mb_task m) (tw_expected_failures (mb_world m) > 0) (hold True (mb_world m)) \<Longrightarrow>
     evs = (case called of None \<Rightarrow> [] | Some (r, w1) \<Rightarrow> new_events (mb_world m) w1) \<Longrightarrow>
     member_step repr call retries m [] (m\<lparr>mb_phase := Calling a evs called\<rparr>)"
| gives_up: "mb_phase m = Looping a \<Longrightarrow> \<not> a \<le> retries \<Longrightarrow>
     member_step repr call retries m [] (m\<lparr>mb_phase := Returned (Inr ())\<rparr>)"
| emits: "mb_phase m = Calling a (ev # evs) called \<Longrightarrow>
     member_step repr call retries m [ev] (m\<lparr>mb_phase := Calling a evs called\<rparr>)"
| leaves: "mb_phase m = Calling a [] (Some (r, w1)) \<Longrightarrow> after_call repr retries a r (hold False w1) = (p, w2) \<Longrightarrow>
     member_step repr call retries m (new_events w1 w2) (m\<lparr>mb_world := w2, mb_phase := p\<rparr>)"

lemma after_call_idle: "after_call repr retries a r w = (p, w2) \<Longrightarrow> \<not> calling p"
  by (cases p) (auto simp: after_call_def map_prod_def split: sum.splits if_splits prod.splits)

lemma step_task: "member_step repr call retries m evs m' \<Longrightarrow> mb_task m' = mb_task m"
  by (induction rule: member_step.induct) auto

definition tokens_after :: "int option \<Rightarrow> nat \<Rightarrow> bool \<Rightarrow> bool \<Rightarrow> nat list \<Rightarrow> nat list" where
  "tokens_after limiter i before now bs =
     (if \<not> before \<and> now then (if limiter = None then [] else [i]) @ bs else if before \<and> \<not> now then remove1 i bs else bs)"

lemma turn_step:
  assumes "task_turn repr call tg i g = Some g'"
  obtains m' evs where "i < length (gr_members g)" "member_step repr call (tg_retries tg) (gr_members g ! i) evs m'"
    "gr_members g' = (gr_members g)[i := m']"
    "gr_log g' = gr_log g @ map (Pair (task_port (mb_task m'))) evs"
    "gr_borrowers g' = tokens_after (tg_limiter tg) i (calling (mb_phase (gr_members g ! i))) (calling (mb_phase m')) (gr_borrowers g)"
    "\<not> calling (mb_phase (gr_members g ! i)) \<and> calling (mb_phase m') \<longrightarrow> available (tg_limiter tg) g"
proof -
  let ?m = "gr_members g ! i"
  from assms have i: "i < length (gr_members g)" by (auto simp: task_turn_def split: if_splits)
  show thesis
  proof (cases "mb_phase ?m")
    case (Looping a)
    show ?thesis
    proof (cases "a \<le> tg_retries tg")
      case True
      with assms i Looping show ?thesis
        by (intro that [OF i enters [OF Looping True refl refl]])
           (auto simp: task_turn_def begin_call_def Let_def tokens_after_def split: if_splits)
    next
      case False
      with assms i Looping show ?thesis
        by (intro that [OF i gives_up [OF Looping]]) (auto simp: task_turn_def tokens_after_def)
    qed
  next
    case (Calling a evs called)
    show ?thesis
    proof (cases evs)
      case Nil
      with assms i Calling obtain r w1 where called: "called = Some (r, w1)"
        and g': "g' = end_call repr (tg_retries tg) i a r w1 g"
        by (auto simp: task_turn_def)
      obtain p w2 where p: "after_call repr (tg_retries tg) a r (hold False w1) = (p, w2)" by fastforce
      with g' Calling Nil called after_call_idle [OF p] show ?thesis
        by (intro that [OF i leaves [OF _ p]]) (auto simp: end_call_def Let_def tokens_after_def hold_def new_events_def)
    next
      case (Cons ev evs1)
      with assms i Calling show ?thesis
        by (intro that [OF i emits [OF Calling [unfolded Cons]]]) (auto simp: task_turn_def tokens_after_def Let_def)
    qed
  next
    case (Returned r)
    with assms i show ?thesis by (simp add: task_turn_def)
  qed
qed


section \<open>The future of a task\<close>

text \<open>
  What becomes of a task if it runs on alone, from any point between two turns. No turn of any task changes it, which
  is how the group refines the tasks.
\<close>

definition settled ::
  "(exn \<Rightarrow> string) \<Rightarrow> (bool \<Rightarrow> ('w task_world, unit) eff) \<Rightarrow> int \<Rightarrow> 'w phase \<Rightarrow> 'w task_world \<Rightarrow> (unit result \<times> 'w task_world) option" where
  "settled repr func retries p w =
     (case p of Looping a \<Rightarrow> run_attempts repr func retries a w | Returned r \<Rightarrow> Some (r, w) | Calling _ _ _ \<Rightarrow> None)"

definition outcome ::
  "(exn \<Rightarrow> string) \<Rightarrow> (started_task \<Rightarrow> bool \<Rightarrow> ('w task_world, unit) eff) \<Rightarrow> int \<Rightarrow> 'w member \<Rightarrow> (unit result \<times> 'w task_world) option" where
  "outcome repr call retries m =
     (case mb_phase m of
        Calling a evs called \<Rightarrow> Option.bind called (\<lambda>(r, w1).
          case after_call repr retries a r (hold False w1) of (p, w2) \<Rightarrow> settled repr (call (mb_task m)) retries p w2)
      | p \<Rightarrow> settled repr (call (mb_task m)) retries p (mb_world m))"

lemma settled_simps [simp]:
  "settled repr func retries (Looping a) w = run_attempts repr func retries a w"
  "settled repr func retries (Returned r) w = Some (r, w)"
  by (simp_all add: settled_def)

text \<open>The events of a task so far, and those of them that are not reported yet.\<close>

definition all_events :: "'w member \<Rightarrow> uploader_event list" where
  "all_events m = (case mb_phase m of Calling _ _ (Some (r, w1)) \<Rightarrow> tw_events w1 | _ \<Rightarrow> tw_events (mb_world m))"

definition pending :: "'w member \<Rightarrow> uploader_event list" where
  "pending m = (case mb_phase m of Calling _ evs _ \<Rightarrow> evs | _ \<Rightarrow> [])"

lemma after_call_frame:
  assumes "after_call repr retries a r w = (p, w2)"
  shows "tw_events w2 = tw_events w @ new_events w w2" "tw_limiter w2 = tw_limiter w" "tw_firmware w2 = tw_firmware w"
  using assms
  by (auto simp: after_call_def next_attempt_def handle_exceptions_def new_events_def Let_def map_prod_def
      split: sum.splits if_splits prod.splits)

lemma hold_frame [simp]: "tw_events (hold b w) = tw_events w" "tw_firmware (hold b w) = tw_firmware w"
  "tw_limiter (hold False w) \<noteq> Some True" "new_events (hold b w) w1 = new_events w w1"
  by (auto simp: hold_def new_events_def)

text \<open>How many turns a task still takes.\<close>

function attempt_turns ::
  "(exn \<Rightarrow> string) \<Rightarrow> (bool \<Rightarrow> ('w task_world, unit) eff) \<Rightarrow> int \<Rightarrow> int \<Rightarrow> 'w task_world \<Rightarrow> nat" where
  "attempt_turns repr func retries attempt w =
     (if attempt \<le> retries then
        case func (tw_expected_failures w > 0) (hold True w) of
          None \<Rightarrow> 1
        | Some (r, w1) \<Rightarrow> 2 + length (new_events w w1) +
            (case r of Inr _ \<Rightarrow> 0
             | Inl e \<Rightarrow> if e = Cancelled then 0
                        else let (attempt1, w2) = next_attempt repr retries attempt e (hold False w1)
                             in attempt_turns repr func retries attempt1 w2)
      else 1)"
  by pat_completeness auto
termination
  by (relation "measure (\<lambda>(repr, func, retries, attempt, w). nat (retries + 1 - attempt))")
     (auto dest: next_attempt_later split: prod.splits)

declare attempt_turns.simps [simp del]

definition phase_turns ::
  "(exn \<Rightarrow> string) \<Rightarrow> (bool \<Rightarrow> ('w task_world, unit) eff) \<Rightarrow> int \<Rightarrow> 'w phase \<Rightarrow> 'w task_world \<Rightarrow> nat" where
  "phase_turns repr func retries p w = (case p of Looping a \<Rightarrow> attempt_turns repr func retries a w | _ \<Rightarrow> 0)"

definition turns_left ::
  "(exn \<Rightarrow> string) \<Rightarrow> (started_task \<Rightarrow> bool \<Rightarrow> ('w task_world, unit) eff) \<Rightarrow> int \<Rightarrow> 'w member \<Rightarrow> nat" where
  "turns_left repr call retries m =
     (case mb_phase m of
        Calling a evs called \<Rightarrow> length evs +
          (case called of None \<Rightarrow> 0
           | Some (r, w1) \<Rightarrow> Suc (case after_call repr retries a r (hold False w1) of (p, w2) \<Rightarrow>
               phase_turns repr (call (mb_task m)) retries p w2))
      | p \<Rightarrow> phase_turns repr (call (mb_task m)) retries p (mb_world m))"

lemma attempt_turns_call:
  assumes "attempt \<le> retries" "func (tw_expected_failures w > 0) (hold True w) = Some (r, w1)"
    and "after_call repr retries attempt r (hold False w1) = (p, w2)"
  shows "attempt_turns repr func retries attempt w = 2 + length (new_events w w1) + phase_turns repr func retries p w2"
  using assms
  by (subst attempt_turns.simps)
     (auto simp: after_call_def phase_turns_def map_prod_def split: sum.splits if_splits prod.splits)

lemma step_turns:
  assumes "member_step repr call retries m evs m'"
  shows "turns_left repr call retries m = Suc (turns_left repr call retries m')"
  using assms
proof cases
  case (enters a called evs)
  show ?thesis
  proof (cases called)
    case None
    with enters show ?thesis by (simp add: turns_left_def phase_turns_def attempt_turns.simps)
  next
    case (Some rc)
    then obtain r w1 where called: "called = Some (r, w1)" by (cases rc) auto
    with enters(5) have c: "call (mb_task m) (tw_expected_failures (mb_world m) > 0) (hold True (mb_world m)) = Some (r, w1)"
      by simp
    obtain p w2 where p: "after_call repr retries a r (hold False w1) = (p, w2)" by fastforce
    from enters called c p attempt_turns_call [where func = "call (mb_task m)", OF enters(4) c p] show ?thesis
      by (simp add: turns_left_def phase_turns_def)
  qed
next
  case (gives_up a)
  then show ?thesis by (simp add: turns_left_def phase_turns_def attempt_turns.simps)
next
  case (emits a ev evs called)
  then show ?thesis by (cases called) (auto simp: turns_left_def split: prod.splits)
next
  case (leaves a r w1 p w2)
  have "\<not> calling p" using leaves(4) by (rule after_call_idle)
  with leaves show ?thesis by (cases p) (auto simp: turns_left_def)
qed

locale group_tasks =
  fixes call :: "started_task \<Rightarrow> bool \<Rightarrow> ('w task_world, unit) eff" and needs_firmware :: "started_task \<Rightarrow> bool"
  assumes tasks_report: "reporting_task (call t) (needs_firmware t)"

sublocale group_tasks \<subseteq> task: reporting_task "call t" "needs_firmware t" for t
  by (rule tasks_report)

context group_tasks begin

definition good :: "'w member \<Rightarrow> bool" where
  "good m \<longleftrightarrow> tw_limiter (mb_world m) \<noteq> Some True \<and> (needs_firmware (mb_task m) \<longrightarrow> tw_firmware (mb_world m) \<noteq> None) \<and>
     (case mb_phase m of Calling _ _ (Some (r, w1)) \<Rightarrow> attempt_shape (hold True (mb_world m)) r w1 | _ \<Rightarrow> True)"

lemma shape_of_call:
  assumes "call t b (hold True w) = Some (r, w1)" "needs_firmware t \<longrightarrow> tw_firmware w \<noteq> None"
  shows "attempt_shape (hold True w) r w1"
  using task.call_reports [OF assms(1)] assms(2) by (simp add: hold_def)

lemma limited_hold:
  assumes "tw_limiter w \<noteq> Some True" "needs_firmware t \<longrightarrow> tw_firmware w \<noteq> None"
  shows "limited (call t b) w = map_option (map_prod id (hold False)) (call t b (hold True w))"
proof (cases "tw_limiter w")
  case None
  then have same: "hold True w = w" by (cases w) (simp add: hold_def)
  show ?thesis
  proof (cases "call t b w")
    case (Some rc)
    then obtain r w1 where call: "call t b w = Some (r, w1)" by (cases rc) auto
    with task.call_reports [OF this assms(2)] None have "tw_limiter w1 = None" by (simp add: attempt_shape_def)
    then have "hold False w1 = w1" by (cases w1) (simp add: hold_def)
    with None call same show ?thesis by (simp add: limited_def)
  qed (simp add: limited_def None same)
next
  case (Some held)
  with assms(1) have held: "tw_limiter w = Some False" by simp
  then have hold: "hold True w = w\<lparr>tw_limiter := Some True\<rparr>" by (simp add: hold_def)
  show ?thesis
  proof (cases "call t b (hold True w)")
    case (Some rc)
    then obtain r w1 where call: "call t b (hold True w) = Some (r, w1)" by (cases rc) auto
    with shape_of_call [OF call assms(2)] hold have "tw_limiter w1 = Some True" by (simp add: attempt_shape_def)
    with held call hold show ?thesis by (simp add: limited_def hold_def)
  next
    case None
    with held hold show ?thesis by (simp add: limited_def)
  qed
qed

lemma run_attempts_turns:
  assumes "attempt \<le> retries" "tw_limiter w \<noteq> Some True" "needs_firmware t \<longrightarrow> tw_firmware w \<noteq> None"
  shows "run_attempts repr (call t) retries attempt w =
    Option.bind (call t (tw_expected_failures w > 0) (hold True w)) (\<lambda>(r, w1).
      case after_call repr retries attempt r (hold False w1) of (p, w2) \<Rightarrow> settled repr (call t) retries p w2)"
proof (cases "call t (tw_expected_failures w > 0) (hold True w)")
  case None
  then show ?thesis using assms(1) by (subst run_attempts.simps) (simp add: limited_hold [OF assms(2,3)])
next
  case (Some rc)
  then obtain r w1 where call: "call t (tw_expected_failures w > 0) (hold True w) = Some (r, w1)" by (cases rc) auto
  then show ?thesis using assms(1)
    by (subst run_attempts.simps)
       (auto simp: limited_hold [OF assms(2,3)] after_call_def settled_def split: sum.splits prod.splits)
qed

lemma step_good:
  assumes "member_step repr call retries m evs m'" "good m"
  shows "good m'"
  using assms
proof cases
  case (enters a called evs)
  with assms(2) show ?thesis by (auto simp: good_def split: option.splits intro: shape_of_call)
next
  case (leaves a r w1 p w2)
  have "\<not> calling p" using leaves(4) by (rule after_call_idle)
  with leaves assms(2) after_call_frame [OF leaves(4)] show ?thesis
    by (cases p) (auto simp: good_def attempt_shape_def)
qed (auto simp: good_def)

lemma step_outcome:
  assumes "member_step repr call retries m evs m'" "good m"
  shows "outcome repr call retries m' = outcome repr call retries m"
  using assms
proof cases
  case (enters a called evs)
  with assms(2) show ?thesis
    by (simp add: outcome_def good_def run_attempts_turns)
next
  case (gives_up a)
  then show ?thesis by (simp add: outcome_def run_attempts.simps)
next
  case (leaves a r w1 p w2)
  have "\<not> calling p" using leaves(4) by (rule after_call_idle)
  with leaves show ?thesis by (cases p) (auto simp: outcome_def)
qed (simp add: outcome_def)

lemma step_events:
  assumes "member_step repr call retries m evs m'" "good m" "seen @ pending m = all_events m"
  shows "(seen @ evs) @ pending m' = all_events m'"
  using assms(1)
proof cases
  case (enters a called evs)
  show ?thesis
  proof (cases called)
    case (Some rc)
    then obtain r w1 where called: "called = Some (r, w1)" by (cases rc) auto
    with enters(5) have call: "call (mb_task m) (0 < tw_expected_failures (mb_world m)) (hold True (mb_world m)) = Some (r, w1)"
      by simp
    have "needs_firmware (mb_task m) \<longrightarrow> tw_firmware (mb_world m) \<noteq> None"
      using assms(2) unfolding good_def by (elim conjE)
    with call have "attempt_shape (hold True (mb_world m)) r w1" by (rule shape_of_call)
    then have "tw_events w1 = tw_events (mb_world m) @ new_events (mb_world m) w1"
      by (auto simp: attempt_shape_def new_events_def)
    with enters call assms(3) show ?thesis by (simp add: pending_def all_events_def)
  qed (use enters assms(3) in \<open>simp add: pending_def all_events_def\<close>)
next
  case (leaves a r w1 p w2)
  have "\<not> calling p" using leaves(4) by (rule after_call_idle)
  with leaves assms(3) after_call_frame(1) [OF leaves(4)] show ?thesis
    by (cases p) (auto simp: pending_def all_events_def)
qed (use assms(3) in \<open>auto simp: pending_def all_events_def split: option.splits\<close>)

end


section \<open>Invariants of the group\<close>

lemma run_invariant:
  assumes "run_schedule repr call tg is g = Some g'" "P g"
    and "\<And>i g g'. task_turn repr call tg i g = Some g' \<Longrightarrow> P g \<Longrightarrow> P g'"
  shows "P g'"
  using assms(1,2) by (induction "is" arbitrary: g) (auto simp: bind_eq_Some_conv dest: assms(3))

text \<open>What the event handler has seen of a target.\<close>

definition log_of :: "string \<Rightarrow> 'w group \<Rightarrow> uploader_event list" where
  "log_of port g = map snd (filter (\<lambda>x. fst x = port) (gr_log g))"

text \<open>The tokens: the borrowers are the tasks inside a call, and there are no more of them than tokens.\<close>

definition callers :: "'w group \<Rightarrow> nat set" where
  "callers g = {i. i < length (gr_members g) \<and> calling (mb_phase (gr_members g ! i))}"

definition tokens :: "int option \<Rightarrow> 'w group \<Rightarrow> bool" where
  "tokens limiter g \<longleftrightarrow>
     (case limiter of None \<Rightarrow> gr_borrowers g = []
      | Some n \<Rightarrow> distinct (gr_borrowers g) \<and> set (gr_borrowers g) = callers g \<and> int (length (gr_borrowers g)) \<le> n)"

lemma callers_update:
  assumes "i < length (gr_members g)" "gr_members g' = (gr_members g)[i := m']"
  shows "callers g' = (if calling (mb_phase m') then insert i (callers g) else callers g - {i})"
  using assms by (auto simp: callers_def nth_list_update)

lemma tokens_turn:
  assumes "task_turn repr call tg i g = Some g'" "tokens (tg_limiter tg) g"
  shows "tokens (tg_limiter tg) g'"
  using assms(1)
proof (cases rule: turn_step)
  case (1 m' evs)
  let ?before = "calling (mb_phase (gr_members g ! i))" and ?now = "calling (mb_phase m')"
  have i: "i \<in> callers g \<longleftrightarrow> ?before" using 1(1) by (simp add: callers_def)
  show ?thesis
  proof (cases "tg_limiter tg")
    case None
    with 1(5) assms(2) show ?thesis by (simp add: tokens_def tokens_after_def)
  next
    case (Some n)
    with assms(2) have t: "distinct (gr_borrowers g)" "set (gr_borrowers g) = callers g" "int (length (gr_borrowers g)) \<le> n"
      by (simp_all add: tokens_def)
    show ?thesis
    proof (cases "?before = ?now")
      case True
      with i have "callers g' = callers g" by (auto simp: callers_update [OF 1(1,3)])
      with True Some t 1(5) show ?thesis by (auto simp: tokens_def tokens_after_def)
    next
      case False
      with Some t i 1(5,6) show ?thesis
        by (cases ?now)
           (auto simp: tokens_def tokens_after_def callers_update [OF 1(1,3)] available_def length_remove1)
    qed
  qed
qed

context group_tasks begin

text \<open>Against the group \<open>g0\<close> at the start: every task is good and has the future it had.\<close>

definition same_future :: "(exn \<Rightarrow> string) \<Rightarrow> int \<Rightarrow> 'w group \<Rightarrow> 'w group \<Rightarrow> bool" where
  "same_future repr retries g0 g \<longleftrightarrow> length (gr_members g) = length (gr_members g0) \<and>
     (\<forall>i < length (gr_members g). good (gr_members g ! i) \<and> mb_task (gr_members g ! i) = mb_task (gr_members g0 ! i) \<and>
        outcome repr call retries (gr_members g ! i) = outcome repr call retries (gr_members g0 ! i))"

lemma same_future_turn:
  assumes "task_turn repr call tg i g = Some g'" "same_future repr (tg_retries tg) g0 g"
  shows "same_future repr (tg_retries tg) g0 g'"
  using assms(1)
proof (cases rule: turn_step)
  case (1 m' evs)
  have "good (gr_members g ! i)" using 1(1) assms(2) by (simp add: same_future_def)
  then have "good m'" "mb_task m' = mb_task (gr_members g ! i)"
    "outcome repr call (tg_retries tg) m' = outcome repr call (tg_retries tg) (gr_members g ! i)"
    using 1(2) by (simp_all add: step_good step_outcome step_task)
  with 1(1,3) assms(2) show ?thesis by (auto simp: same_future_def nth_list_update)
qed

text \<open>With distinct ports the log, read per port, is what the task has reported.\<close>

definition log_inv :: "'w group \<Rightarrow> bool" where
  "log_inv g \<longleftrightarrow> (\<forall>m \<in> set (gr_members g). good m) \<and> distinct (map (task_port \<circ> mb_task) (gr_members g)) \<and>
     (\<forall>m \<in> set (gr_members g). log_of (task_port (mb_task m)) g @ pending m = all_events m)"

lemma log_inv_turn:
  assumes "task_turn repr call tg i g = Some g'" "log_inv g"
  shows "log_inv g'"
  using assms(1)
proof (cases rule: turn_step)
  case (1 m' evs)
  let ?m = "gr_members g ! i"
  have m: "?m \<in> set (gr_members g)" using 1(1) by simp
  have task: "mb_task m' = mb_task ?m" using 1(2) by (rule step_task)
  have good: "good m'" using 1(2) m assms(2) by (auto simp: log_inv_def intro: step_good)
  have tasks: "map (task_port \<circ> mb_task) (gr_members g') = map (task_port \<circ> mb_task) (gr_members g)"
    using 1(1,3) task by (simp add: map_update list_update_same_conv)
  have log: "log_of port g' = log_of port g @ (if port = task_port (mb_task ?m) then evs else [])" for port
    using 1(4) task by (auto simp: log_of_def filter_map o_def)
  have own: "log_of (task_port (mb_task m')) g' @ pending m' = all_events m'"
    using step_events [OF 1(2), of "log_of (task_port (mb_task ?m)) g"] m assms(2) task log by (simp add: log_inv_def)
  have others: "log_of (task_port (mb_task (gr_members g ! j))) g' @ pending (gr_members g ! j) = all_events (gr_members g ! j)"
    if "j < length (gr_members g)" "j \<noteq> i" for j
  proof -
    have "distinct (map (task_port \<circ> mb_task) (gr_members g))" using assms(2) by (simp add: log_inv_def)
    with that 1(1) have "task_port (mb_task (gr_members g ! j)) \<noteq> task_port (mb_task ?m)"
      by (auto simp: distinct_conv_nth)
    with that assms(2) log show ?thesis by (simp add: log_inv_def)
  qed
  have "\<forall>m \<in> set (gr_members g'). good m \<and> log_of (task_port (mb_task m)) g' @ pending m = all_events m"
    using own others good assms(2) 1(1,3) by (auto simp: log_inv_def in_set_conv_nth nth_list_update all_set_conv_all_nth)
  with tasks assms(2) show ?thesis by (simp add: log_inv_def)
qed

end

section \<open>No schedule gets stuck\<close>

definition turns :: "(exn \<Rightarrow> string) \<Rightarrow> (started_task \<Rightarrow> bool \<Rightarrow> ('w task_world, unit) eff) \<Rightarrow> int \<Rightarrow> 'w group \<Rightarrow> nat" where
  "turns repr call retries g = sum_list (map (turns_left repr call retries) (gr_members g))"

lemma turn_turns:
  assumes "task_turn repr call tg i g = Some g'"
  shows "turns repr call (tg_retries tg) g = Suc (turns repr call (tg_retries tg) g')"
  using assms
proof (cases rule: turn_step)
  case (1 m' evs)
  let ?f = "turns_left repr call (tg_retries tg)"
  have "?f (gr_members g ! i) \<le> sum_list (map ?f (gr_members g))"
    using 1(1) elem_le_sum_list [of i "map ?f (gr_members g)"] by simp
  with 1(1,3) step_turns [OF 1(2)] show ?thesis
    by (simp add: turns_def map_update sum_list_update)
qed

lemma run_turns:
  "run_schedule repr call tg is g = Some g' \<Longrightarrow>
   turns repr call (tg_retries tg) g = length is + turns repr call (tg_retries tg) g'"
  by (induction "is" arbitrary: g) (auto simp: bind_eq_Some_conv turn_turns)

lemma stuck_returned:
  assumes "tokens (tg_limiter tg) g" "\<And>n. tg_limiter tg = Some n \<Longrightarrow> 0 < n"
    and "\<And>m. m \<in> set (gr_members g) \<Longrightarrow> outcome repr call retries m \<noteq> None"
    and "\<And>i. task_turn repr call tg i g = None" and i: "i < length (gr_members g)"
  shows "\<exists>r. mb_phase (gr_members g ! i) = Returned r"
proof -
  have idle: "\<not> calling (mb_phase (gr_members g ! j))" if "j < length (gr_members g)" for j
  proof
    assume "calling (mb_phase (gr_members g ! j))"
    then obtain a evs called where c: "mb_phase (gr_members g ! j) = Calling a evs called"
      by (cases "mb_phase (gr_members g ! j)") auto
    have "outcome repr call retries (gr_members g ! j) \<noteq> None" using that assms(3) by simp
    with c have "called \<noteq> None" by (cases called) (simp_all add: outcome_def)
    with c that assms(4) [of j] show False by (cases evs) (auto simp: task_turn_def Let_def)
  qed
  then have none: "callers g = {}" by (auto simp: callers_def)
  show ?thesis
  proof (cases "mb_phase (gr_members g ! i)")
    case (Looping a)
    have "available (tg_limiter tg) g"
      using none assms(1,2) by (auto simp: tokens_def available_def split: option.splits)
    with Looping i assms(4) [of i] show ?thesis by (auto simp: task_turn_def begin_call_def Let_def split: if_splits)
  next
    case (Calling a evs called)
    with idle [OF i] show ?thesis by simp
  qed simp
qed


section \<open>The tasks of a session\<close>

fun is_upload :: "started_task \<Rightarrow> bool" where
  "is_upload (UploadTo _) = True"
| "is_upload _ = False"

interpretation session: group_tasks "task_call en" is_upload for en
proof (rule group_tasks.intro)
  fix t show "reporting_task (task_call en t) (is_upload t)"
  proof (cases t)
    case (UploadTo port)
    have "task_call en t = (\<lambda>b. upload_firmware en port b (Some expect_failure))" by (auto simp: UploadTo)
    then show ?thesis using upload_task.reporting_task_axioms by (simp add: UploadTo)
  next
    case (FlashBootloaderOn port)
    have "task_call en t = (\<lambda>b. run_flash_bootloader en port b (Some expect_failure))" by (auto simp: FlashBootloaderOn)
    then show ?thesis using flash_task.reporting_task_axioms by (simp add: FlashBootloaderOn)
  next
    case (FactoryResetOn port)
    have "task_call en t = (\<lambda>b. perform_factory_reset en port b (Some expect_failure))" by (auto simp: FactoryResetOn)
    then show ?thesis using reset_task.reporting_task_axioms by (simp add: FactoryResetOn)
  qed
qed

lemma run_task_attempts:
  assumes "tw_expected_failures w = 0"
  shows "run_task repr en retries t w = run_attempts repr (task_call en t) retries 0 w"
proof -
  have w: "w\<lparr>tw_expected_failures := 0\<rparr> = w" using assms by (cases w) simp
  have call: "task_call en (UploadTo port) = (\<lambda>b. upload_firmware en port b (Some expect_failure))"
    "task_call en (FlashBootloaderOn port) = (\<lambda>b. run_flash_bootloader en port b (Some expect_failure))"
    "task_call en (FactoryResetOn port) = (\<lambda>b. perform_factory_reset en port b (Some expect_failure))" for port
    by auto
  show ?thesis
    by (cases t) (simp_all add: run_task_def start_upload_to_def start_flash_bootloader_on_def start_factory_reset_on_def
        UploaderTask_run_def w call)
qed

text \<open>Any task of a session, alone or not, ends as \<open>task_ended\<close> says.\<close>

lemma started_uploads:
  assumes "cli_uploader load shared found opts = Inr ss" "t \<in> set (ss_started ss)" "is_upload t"
  shows "ss_firmware ss \<noteq> None"
  using assms session_starts_tasks [where load = load and shared = shared and found = found and opts = opts] session_parts(3) [OF assms(1)]
  by (auto simp: Let_def split: if_splits)

lemma task_start:
  "tw_limiter (task_of_session ss io) \<noteq> Some True" "tw_firmware (task_of_session ss io) = ss_firmware ss"
  "tw_events (task_of_session ss io) = []" "tw_expected_failures (task_of_session ss io) = 0"
  by (simp_all add: task_of_session_def split: option.splits)

lemma session_task_ended:
  assumes "cli_uploader load shared found opts = Inr ss" "t \<in> set (ss_started ss)"
    and "run_task repr en (tg_retries (ss_group ss)) t (task_of_session ss io) = Some (r, w)"
  shows "task_ended r (tw_events w) \<and> tw_events w \<noteq> [] \<and>
    int (count_list (tw_events w) (lifecycle ''started'')) \<le> tg_retries (ss_group ss) + 1"
proof -
  have run: "run_attempts repr (task_call en t) (tg_retries (ss_group ss)) 0 (task_of_session ss io) = Some (r, w)"
    using assms(3) by (simp add: run_task_attempts task_start)
  have "is_upload t \<longrightarrow> tw_firmware (task_of_session ss io) \<noteq> None"
    using started_uploads [OF assms(1,2)] by (simp add: task_start)
  from session.task.run_outcome [OF run session_parts(1) [OF assms(1)] task_start(1) this]
  show ?thesis by (auto simp: task_start)
qed

lemma start_members:
  "length (gr_members (start_session ss ios)) = length (ss_started ss)"
  "i < length (ss_started ss) \<Longrightarrow> gr_members (start_session ss ios) ! i =
     \<lparr>mb_task = ss_started ss ! i, mb_world = task_of_session ss (ios i), mb_phase = Looping 0\<rparr>"
  by (simp_all add: start_session_def)

lemma start_outcome:
  assumes "i < length (ss_started ss)"
  shows "outcome repr (task_call en) retries (gr_members (start_session ss ios) ! i) =
    run_task repr en retries (ss_started ss ! i) (task_of_session ss (ios i))"
  using assms by (simp add: start_members outcome_def run_task_attempts task_start)

lemma start_good:
  assumes "cli_uploader load shared found opts = Inr ss" "i < length (ss_started ss)"
  shows "session.good (gr_members (start_session ss ios) ! i)"
  using assms started_uploads [OF assms(1), of "ss_started ss ! i"]
  by (simp add: session.good_def start_members task_start)

lemma start_tokens:
  assumes "\<And>n. limiter = Some n \<Longrightarrow> 0 \<le> n"
  shows "tokens limiter (start_session ss ios)"
proof -
  have "callers (start_session ss ios) = {}" by (auto simp: callers_def start_members)
  with assms show ?thesis by (auto simp: tokens_def start_session_def split: option.splits)
qed

lemma session_futures:
  assumes "cli_uploader load shared found opts = Inr ss"
    and "run_schedule repr (task_call en) (ss_group ss) is (start_session ss ios) = Some g"
  shows "session.same_future en repr (tg_retries (ss_group ss)) (start_session ss ios) g"
  using assms(2)
proof (rule run_invariant)
  show "session.same_future en repr (tg_retries (ss_group ss)) (start_session ss ios) (start_session ss ios)"
    by (simp add: session.same_future_def start_members(1) start_good [OF assms(1)])
qed (rule session.same_future_turn)

lemma session_log:
  assumes "cli_uploader load shared found opts = Inr ss" "distinct (map task_port (ss_started ss))"
    and "run_schedule repr (task_call en) (ss_group ss) is (start_session ss ios) = Some g"
  shows "session.log_inv g"
  using assms(3)
proof (rule run_invariant)
  have "map (task_port \<circ> mb_task) (gr_members (start_session ss ios)) = map task_port (ss_started ss)"
    by (intro nth_equalityI) (simp_all add: start_members)
  moreover have "log_of port (start_session ss ios) = []" for port by (simp add: log_of_def start_session_def)
  moreover have "session.good m \<and> pending m = [] \<and> all_events m = []" if "m \<in> set (gr_members (start_session ss ios))" for m
  proof -
    from that obtain i where i: "i < length (ss_started ss)" "m = gr_members (start_session ss ios) ! i"
      by (auto simp: in_set_conv_nth start_members(1))
    with start_good [OF assms(1) i(1), of ios] show ?thesis
      by (simp add: start_members pending_def all_events_def task_start)
  qed
  ultimately show "session.log_inv (start_session ss ios)" using assms(2) by (simp add: session.log_inv_def)
qed (rule session.log_inv_turn)


lemma session_tokens:
  assumes "run_schedule repr call tg is (start_session ss ios) = Some g" "\<And>n. tg_limiter tg = Some n \<Longrightarrow> 0 \<le> n"
  shows "tokens (tg_limiter tg) g"
  using assms(1)
proof (rule run_invariant)
  show "tokens (tg_limiter tg) (start_session ss ios)" using assms(2) by (rule start_tokens)
qed (rule tokens_turn)

text \<open>If every task returns alone, a group in which no task can take a turn has only returned tasks, and no turns left.\<close>

lemma session_stuck:
  assumes "cli_uploader load shared found opts = Inr ss"
    and "\<forall>i < length (ss_started ss).
      run_task repr en (tg_retries (ss_group ss)) (ss_started ss ! i) (task_of_session ss (ios i)) \<noteq> None"
    and run: "run_schedule repr (task_call en) (ss_group ss) is (start_session ss ios) = Some g"
    and stuck: "\<And>i. task_turn repr (task_call en) (ss_group ss) i g = None"
  shows "\<forall>m \<in> set (gr_members g). \<exists>r. mb_phase m = Returned r"
    and "turns repr (task_call en) (tg_retries (ss_group ss)) g = 0"
proof -
  from session_futures [OF assms(1) run] have len: "length (gr_members g) = length (ss_started ss)"
    by (simp add: session.same_future_def start_members(1))
  have "outcome repr (task_call en) (tg_retries (ss_group ss)) m \<noteq> None" if "m \<in> set (gr_members g)" for m
  proof -
    from that obtain i where i: "i < length (ss_started ss)" "m = gr_members g ! i" by (auto simp: in_set_conv_nth len)
    with session_futures [OF assms(1) run] assms(2) show ?thesis
      by (simp add: session.same_future_def len start_members(1) start_outcome)
  qed
  moreover have "tokens (tg_limiter (ss_group ss)) g"
    using session_parts(2) [OF assms(1)] by (intro session_tokens [OF run]) (simp add: order_less_imp_le)
  ultimately show returned: "\<forall>m \<in> set (gr_members g). \<exists>r. mb_phase m = Returned r"
    using stuck_returned [OF _ session_parts(2) [OF assms(1)] _ stuck] by (metis in_set_conv_nth)
  have "turns_left repr (task_call en) (tg_retries (ss_group ss)) m = 0" if "mb_phase m = Returned r" for m r
    using that by (simp add: turns_left_def phase_turns_def)
  with returned have "map (turns_left repr (task_call en) (tg_retries (ss_group ss))) (gr_members g) =
      map (\<lambda>_. 0) (gr_members g)" by (intro map_cong) auto
  then show "turns repr (task_call en) (tg_retries (ss_group ss)) g = 0" by (simp add: turns_def)
qed

text \<open>A small session to apply the properties to: two uploads with one token, to ports that do not exist.\<close>

definition two_uploads :: session where
  "two_uploads = \<lparr>ss_firmware = Some FirmwareBase, ss_group = \<lparr>tg_limiter = Some 1, tg_retries = 3\<rparr>, ss_log = [],
     ss_started = [UploadTo ''A'', UploadTo ''B'']\<rparr>"

definition two_uploads_options :: options where
  "two_uploads_options = default_options\<lparr>op_firmware := Some ''fw'', op_port := Some [''A'', ''B''], op_max_concurrency := 1\<rparr>"

lemma two_uploads: "cli_uploader (\<lambda>_. Inr FirmwareBase) (Inr ()) (\<lambda>_. [''A'', ''B'']) two_uploads_options = Inr two_uploads"
  by (simp add: two_uploads_def two_uploads_options_def cli_uploader_def check_options_def default_options_def UploaderTaskGroup_def
      choose_scanner_def start_tasks_def start_for_def Let_def)

lemma no_port_call:
  assumes "tw_firmware w \<noteq> None" "c \<noteq> CHR '':''"
  shows "upload_firmware no_port [c] b cb w = Some (Inl (OSError (Some 2) ''could not open port''),
    report (finished False False b) (begin_attempt b w))"
  using assms
  by (auto simp: upload_firmware_def on_target_def on_io_def eff_bind_def create_transport_def partition_at_def no_port_def
      begin_attempt_def Let_def)

lemma no_port_run:
  "\<exists>g. run_schedule (\<lambda>_. '''') (task_call no_port) (ss_group two_uploads) (replicate 6 0) (start_session two_uploads (\<lambda>_. ())) = Some g \<and>
     mb_phase (gr_members g ! 0) = Returned (Inr ())"
  by (simp add: numeral_eq_Suc two_uploads_def start_session_def task_turn_def begin_call_def end_call_def no_port_call task_of_session_def
      available_def new_events_def hold_def begin_attempt_def after_call_def next_attempt_def handle_exceptions_def
      exception_reasons_def Let_def upt_rec)

lemma no_port_returns:
  assumes "c \<noteq> CHR '':''"
  shows "\<exists>r w. run_task (\<lambda>_. '''') no_port 3 (UploadTo [c]) (task_of_session two_uploads ()) = Some (r, w)"
  using assms
  by (simp add: run_task_def start_upload_to_def UploaderTask_run_def run_attempts.simps next_attempt_def limited_def no_port_call
      task_of_session_def two_uploads_def begin_attempt_def handle_exceptions_def exception_reasons_def Let_def)

section \<open>Properties of a session\<close>

lemma last_of_log:
  assumes "log_of port g \<noteq> []"
  obtains before after where "gr_log g = before @ (port, last (log_of port g)) # after" "\<forall>x \<in> set after. fst x \<noteq> port"
proof -
  have "\<exists>before after. log = before @ (port, last (map snd (filter (\<lambda>x. fst x = port) log))) # after \<and>
      (\<forall>x \<in> set after. fst x \<noteq> port)"
    if "map snd (filter (\<lambda>x. fst x = port) log) \<noteq> []" for log :: "(string \<times> uploader_event) list"
    using that
  proof (induction log rule: rev_induct)
    case (snoc x log)
    show ?case
    proof (cases "fst x = port")
      case True
      then show ?thesis by (intro exI [of _ log] exI [of _ "[]"]) (cases x; simp)
    next
      case False
      with snoc obtain before after where
        "log = before @ (port, last (map snd (filter (\<lambda>x. fst x = port) log))) # after" "\<forall>x \<in> set after. fst x \<noteq> port"
        by auto
      with False show ?thesis by (intro exI [of _ before] exI [of _ "after @ [x]"]) auto
    qed
  qed simp
  with assms that show thesis unfolding log_of_def by blast
qed

lemma handle_event_calls: "set (ui_calls ui) \<subseteq> set (ui_calls (handle_event new_id sender ev ui))"
  by (cases ev) (auto simp: ui_log_def get_task_id_for_event_source_def Let_def split: option.splits)

lemma ui_run_calls: "set (ui_calls ui) \<subseteq> set (ui_calls (ui_run new_id evs ui))"
  by (induction new_id evs ui rule: ui_run.induct) (use handle_event_calls in \<open>simp, fastforce\<close>)

lemma session_task_returned:
  assumes "cli_uploader load shared found opts = Inr ss" and "distinct (map task_port (ss_started ss))"
    and "run_schedule repr (task_call en) (ss_group ss) sched (start_session ss ios) = Some g"
    and "i < length (ss_started ss)" and "mb_phase (gr_members g ! i) = Returned r"
  shows "\<exists>w. run_task repr en (tg_retries (ss_group ss)) (ss_started ss ! i) (task_of_session ss (ios i)) = Some (r, w) \<and>
      log_of (task_port (ss_started ss ! i)) g = tw_events w \<and> task_ended r (tw_events w) \<and>
      int (count_list (tw_events w) (lifecycle ''started'')) \<le> tg_retries (ss_group ss) + 1"
proof -
  let ?m = "gr_members g ! i"
  from session_futures [OF assms(1,3)] assms(4) have len: "i < length (gr_members g)"
    and task: "mb_task ?m = ss_started ss ! i"
    and future: "outcome repr (task_call en) (tg_retries (ss_group ss)) ?m =
      outcome repr (task_call en) (tg_retries (ss_group ss)) (gr_members (start_session ss ios) ! i)"
    by (simp_all add: session.same_future_def start_members)
  have run: "run_task repr en (tg_retries (ss_group ss)) (ss_started ss ! i) (task_of_session ss (ios i)) = Some (r, mb_world ?m)"
    using future assms(5) by (simp add: outcome_def start_outcome [OF assms(4), symmetric])
  have "log_of (task_port (mb_task ?m)) g @ pending ?m = all_events ?m"
    using session_log [OF assms(1,2,3)] len by (simp add: session.log_inv_def)
  then have log: "log_of (task_port (ss_started ss ! i)) g = tw_events (mb_world ?m)"
    using assms(5) task by (simp add: pending_def all_events_def)
  have ended: "task_ended r (tw_events (mb_world ?m))"
    "int (count_list (tw_events (mb_world ?m)) (lifecycle ''started'')) \<le> tg_retries (ss_group ss) + 1"
    using session_task_ended [OF assms(1) _ run] assms(4) by simp_all
  with run log show ?thesis by blast
qed

lemma session_log_ended:
  assumes "cli_uploader load shared found opts = Inr ss" and "distinct (map task_port (ss_started ss))"
    and "run_schedule repr (task_call en) (ss_group ss) sched (start_session ss ios) = Some g"
    and "i < length (ss_started ss)" and "mb_phase (gr_members g ! i) = Returned r"
  shows "task_ended r (log_of (task_port (ss_started ss ! i)) g)" "log_of (task_port (ss_started ss ! i)) g \<noteq> []"
proof -
  from session_task_returned [OF assms] obtain w where
    w: "run_task repr en (tg_retries (ss_group ss)) (ss_started ss ! i) (task_of_session ss (ios i)) = Some (r, w)"
    "log_of (task_port (ss_started ss ! i)) g = tw_events w" by blast
  with session_task_ended [OF assms(1) _ w(1)] assms(4)
  show "task_ended r (log_of (task_port (ss_started ss ! i)) g)" "log_of (task_port (ss_started ss ! i)) g \<noteq> []"
    by simp_all
qed



text \<open>C7. The limiter does its work: under every schedule of any tasks at most as many calls are in progress as there are tokens,
  whatever the calls do, and a task that may make another attempt waits only while every token is out.\<close>

theorem concurrency_limited:
  assumes "run_schedule repr call tg sched (start_session ss ios) = Some g" and "tg_limiter tg = Some n" and "0 \<le> n"
  shows "int (card (callers g)) \<le> n \<and>
    (\<forall>i attempt. i < length (gr_members g) \<and> mb_phase (gr_members g ! i) = Looping attempt \<and> task_turn repr call tg i g = None \<longrightarrow>
      attempt \<le> tg_retries tg \<and> int (card (callers g)) = n)"
proof -
  have "tokens (tg_limiter tg) g" by (rule session_tokens [OF assms(1)]) (simp add: assms(2,3))
  then have t: "int (card (callers g)) = int (length (gr_borrowers g))" "int (length (gr_borrowers g)) \<le> n"
    using assms(2) by (auto simp: tokens_def dest: distinct_card)
  have "attempt \<le> tg_retries tg \<and> \<not> available (tg_limiter tg) g"
    if "i < length (gr_members g)" "mb_phase (gr_members g ! i) = Looping attempt" "task_turn repr call tg i g = None" for i attempt
    using that by (auto simp: task_turn_def begin_call_def Let_def split: if_splits)
  with t assms(2) show ?thesis by (force simp: available_def)
qed

lemma concurrency_limited_witness:
  "\<exists>g. run_schedule (\<lambda>_. '''') (task_call no_port) (ss_group two_uploads) (replicate 6 0) (start_session two_uploads (\<lambda>_. ())) = Some g \<and>
     int (card (callers g)) \<le> 1"
proof -
  have "tg_limiter (ss_group two_uploads) = Some 1" by (simp add: two_uploads_def)
  with concurrency_limited [of "\<lambda>_. ''''" "task_call no_port" "ss_group two_uploads" "replicate 6 0" two_uploads "\<lambda>_. ()" _ 1]
    no_port_run show ?thesis by fastforce
qed





end
