(* ===== verification/Mavlink_Signing.thy ===== *)
theory Mavlink_Signing
  imports Mavlink_Roundtrip
begin

text \<open>
  MAVLink 2 signing: what a parser with a secret key lets through, what the timestamps of the streams
  protect from and what they do not, and that a signed message is accepted by a parser with the same key.
  SHA-256 is the parameter \<open>H\<close>; that a signature cannot be made without the key is a fact about SHA-256 and not stated here.
\<close>

section \<open>What one packet does to the signing state\<close>

text \<open>The stream and the timestamp that the signature block of a packet names.\<close>

definition stream_of :: "bytes \<Rightarrow> mav_header \<Rightarrow> int \<times> int \<times> int" where
  "stream_of buf h = (uint (buf ! (length buf - 13)), mh_source_system h, mh_source_component h)"

definition timestamp_of :: "bytes \<Rightarrow> int" where
  "timestamp_of buf = (let ts = drop_last 6 (take_last 12 buf) in
     from_bytes_le (take 4 ts) + push_bit 32 (from_bytes_le (drop 4 ts)))"

definition signature_matches :: "(bytes \<Rightarrow> bytes) \<Rightarrow> bytes \<Rightarrow> bytes \<Rightarrow> bool" where
  "signature_matches H key buf \<longleftrightarrow> take 6 (H (key @ drop_last 6 buf)) = take_last 6 buf"

lemma check_signature_key:
  assumes "sg_secret_key (mv_signing mv) = Some key"
  shows "check_signature H buf (mh_source_system h) (mh_source_component h) mv =
    (let sg = mv_signing mv; known = sg_stream_timestamps sg (stream_of buf h); ts = timestamp_of buf in
     if (case known of Some t \<Rightarrow> ts \<le> t | None \<Rightarrow> ts + 6000 * 1000 < sg_timestamp sg) then (Inr False, mv)
     else let sg1 = (if known = None then sg\<lparr>sg_stream_timestamps := (sg_stream_timestamps sg)(stream_of buf h \<mapsto> ts)\<rparr> else sg)
       in if signature_matches H key buf
          then (Inr True, mv\<lparr>mv_signing := sg1\<lparr>sg_timestamp := max (sg_timestamp sg1) ts\<rparr>\<rparr>)
          else (Inr False, mv\<lparr>mv_signing := sg1\<rparr>))"
  by (simp add: check_signature_def assms stream_of_def timestamp_of_def signature_matches_def Let_def)

text \<open>Key and callback never change, and neither does the timestamp of a stream that is known.\<close>

definition same_keys :: "signing \<Rightarrow> signing \<Rightarrow> bool" where
  "same_keys sg sg' \<longleftrightarrow> sg_secret_key sg' = sg_secret_key sg \<and>
     sg_allow_unsigned_callback sg' = sg_allow_unsigned_callback sg \<and>
     (\<forall>s t. sg_stream_timestamps sg s = Some t \<longrightarrow> sg_stream_timestamps sg' s = Some t)"

lemma same_keys_refl [simp]: "same_keys sg sg"
  by (simp add: same_keys_def)

lemma same_keysD:
  assumes "same_keys sg sg'"
  shows "sg_secret_key sg' = sg_secret_key sg" "sg_allow_unsigned_callback sg' = sg_allow_unsigned_callback sg"
    "sg_stream_timestamps sg s = Some t \<Longrightarrow> sg_stream_timestamps sg' s = Some t"
  using assms unfolding same_keys_def by blast+

lemma same_keys_trans: "same_keys a b \<Longrightarrow> same_keys b c \<Longrightarrow> same_keys a c"
  by (simp add: same_keys_def)

lemma same_keys_counted [simp]:
  "same_keys (sg\<lparr>sg_sig_count := n\<rparr>) q = same_keys sg q" "same_keys q (sg\<lparr>sg_sig_count := n\<rparr>) = same_keys q sg"
  "same_keys (sg\<lparr>sg_badsig_count := n\<rparr>) q = same_keys sg q" "same_keys q (sg\<lparr>sg_badsig_count := n\<rparr>) = same_keys q sg"
  "same_keys (sg\<lparr>sg_goodsig_count := n\<rparr>) q = same_keys sg q" "same_keys q (sg\<lparr>sg_goodsig_count := n\<rparr>) = same_keys q sg"
  by (simp_all add: same_keys_def)

lemma check_signature_keys: "check_signature H buf x y mv = (r, mv') \<Longrightarrow> same_keys (mv_signing mv) (mv_signing mv')"
  by (auto simp: check_signature_def same_keys_def Let_def split: option.splits if_splits)

lemma ask_callback_keys: "ask_callback f i mv = (r, mv') \<Longrightarrow> same_keys (mv_signing mv) (mv_signing mv')"
  by (auto simp: ask_callback_def same_keys_def Let_def split: if_splits)

lemma accept_packet_keys: "accept_packet H buf h mv = (r, mv') \<Longrightarrow> same_keys (mv_signing mv) (mv_signing mv')"
  by (auto simp: accept_packet_def Let_def split: prod.splits sum.splits option.splits if_splits
      dest!: check_signature_keys ask_callback_keys intro: same_keys_trans)

lemma decode_keys: "decode H buf mv = (r, mv') \<Longrightarrow> same_keys (mv_signing mv) (mv_signing mv')"
  by (auto simp: decode_def Let_def split: prod.splits sum.splits option.splits if_splits dest!: accept_packet_keys)


section \<open>Which packets are accepted\<close>

definition timely :: "signing \<Rightarrow> int \<times> int \<times> int \<Rightarrow> int \<Rightarrow> bool" where
  "timely sg s ts \<longleftrightarrow> (case sg_stream_timestamps sg s of Some t \<Rightarrow> t < ts | None \<Rightarrow> sg_timestamp sg \<le> ts + 6000 * 1000)"

lemma timely_counted [simp]: "timely (sg\<lparr>sg_sig_count := n\<rparr>) s ts = timely sg s ts"
  by (simp add: timely_def split: option.splits)

text \<open>The second component is \<open>sig_ok\<close>: signed, timely and with a signature that matches.\<close>

definition properly_signed :: "(bytes \<Rightarrow> bytes) \<Rightarrow> bytes \<Rightarrow> bytes \<Rightarrow> mav_header \<Rightarrow> signing \<Rightarrow> bool" where
  "properly_signed H key buf h sg \<longleftrightarrow> signature_len h = MAVLINK_SIGNATURE_BLOCK_LEN \<and>
     timely sg (stream_of buf h) (timestamp_of buf) \<and> signature_matches H key buf"

lemma check_signature_result:
  assumes "sg_secret_key (mv_signing mv) = Some key"
  shows "fst (check_signature H buf (mh_source_system h) (mh_source_component h) mv) =
    Inr (timely (mv_signing mv) (stream_of buf h) (timestamp_of buf) \<and> signature_matches H key buf)"
  unfolding check_signature_key [OF assms] Let_def timely_def
  by (cases "sg_stream_timestamps (mv_signing mv) (stream_of buf h)") (simp_all add: not_less not_le)

lemma accept_packet_key:
  assumes "sg_secret_key (mv_signing mv) = Some key"
  shows "\<exists>accept. fst (accept_packet H buf h mv) = Inr (accept, properly_signed H key buf h (mv_signing mv)) \<and>
    (properly_signed H key buf h (mv_signing mv) \<longrightarrow> accept) \<and>
    (sg_allow_unsigned_callback (mv_signing mv) = None \<longrightarrow> accept = properly_signed H key buf h (mv_signing mv))"
proof (cases "signature_len h = 13")
  case False
  then show ?thesis using assms
    by (auto simp: accept_packet_def properly_signed_def Let_def split: option.splits prod.splits)
next
  case True
  let ?q = "mv\<lparr>mv_signing := (mv_signing mv)\<lparr>sg_sig_count := sg_sig_count (mv_signing mv) + 1\<rparr>\<rparr>"
  have "sg_secret_key (mv_signing ?q) = Some key" using assms by simp
  from check_signature_result [OF this, of H buf h]
  have "fst (check_signature H buf (mh_source_system h) (mh_source_component h) ?q) =
      Inr (properly_signed H key buf h (mv_signing mv))"
    using True by (simp add: properly_signed_def)
  then obtain mv1 where
    c: "check_signature H buf (mh_source_system h) (mh_source_component h) ?q =
      (Inr (properly_signed H key buf h (mv_signing mv)), mv1)" by (metis prod.collapse)
  have "same_keys (mv_signing mv) (mv_signing mv1)" using check_signature_keys [OF c] by simp
  then have "sg_allow_unsigned_callback (mv_signing mv1) = sg_allow_unsigned_callback (mv_signing mv)"
    by (simp add: same_keys_def)
  with True assms c show ?thesis
    by (auto simp: accept_packet_def Let_def split: option.splits prod.splits)
qed

lemma decode_accept:
  assumes "decode H buf mv = (Inr m, mv')"
  obtains (unknown) hl h where "decode_header buf = Inr (hl, h)" "mavlink_map (mh_msg_id h) = None"
      "m = MAVLinkMessage (MAVLinkUnknownMessage (mh_msg_id h) buf)"
  | (known) hl h where "decode_header buf = Inr (hl, h)" "accept_packet H buf h mv = (Inr (True, mm_signed m), mv')"
      "mm_header m = h" "mm_msgbuf m = Some buf"
      "\<And>s s'. accept_packet H buf h s = (Inr (True, mm_signed m), s') \<Longrightarrow> decode H buf s = (Inr m, s')"
proof -
  obtain hl h where hdr: "decode_header buf = Inr (hl, h)"
    using assms by (auto simp: decode_def split: sum.splits)
  show thesis
  proof (cases "mavlink_map (mh_msg_id h)")
    case None
    with assms hdr unknown [OF hdr None] show ?thesis by (auto simp: decode_def Let_def split: if_splits)
  next
    case (Some mt)
    with assms hdr obtain ok where acc: "accept_packet H buf h mv = (Inr (True, ok), mv')"
      by (auto simp: decode_def Let_def split: sum.splits prod.splits if_splits)
    with assms hdr Some have "mm_signed m = ok" "mm_header m = h" "mm_msgbuf m = Some buf"
      by (auto simp: decode_def Let_def split: sum.splits if_splits)
    moreover have "decode H buf s = (Inr m, s')" if "accept_packet H buf h s = (Inr (True, ok), s')" for s s'
      using assms hdr Some acc that by (auto simp: decode_def Let_def split: sum.splits if_splits)
    ultimately show ?thesis using hdr acc known by blast
  qed
qed

section \<open>The parser with a key\<close>

definition authentic :: "(bytes \<Rightarrow> bytes) \<Rightarrow> bytes \<Rightarrow> mav_message \<Rightarrow> bool" where
  "authentic H key m \<longleftrightarrow> (\<exists>buf. mm_msgbuf m = Some buf \<and> mm_signed m \<and> signature_matches H key buf)"

fun not_decoded :: "mav_body \<Rightarrow> bool" where
  "not_decoded (MAVLinkBadData _ _) = True"
| "not_decoded (MAVLinkUnknownMessage _ _) = True"
| "not_decoded _ = False"

lemma decode_authentic:
  assumes "decode H buf mv = (Inr m, mv')" "sg_secret_key (mv_signing mv) = Some key"
    and "sg_allow_unsigned_callback (mv_signing mv) = None"
  shows "not_decoded (mm_body m) \<or> authentic H key m"
  using assms(1)
proof (cases rule: decode_accept)
  case (unknown hl' h')
  then show ?thesis by (simp add: MAVLinkMessage_def)
next
  case (known hl h)
  with accept_packet_key [OF assms(2), of H buf h] assms(3) have "mm_signed m" "properly_signed H key buf h (mv_signing mv)"
    by auto
  with known show ?thesis by (auto simp: authentic_def properly_signed_def)
qed

lemma message_of_keys:
  assumes "message_of H pkt sg = (m, sg')" "pkt \<noteq> []"
  shows "same_keys sg sg'"
    "sg_secret_key sg = Some key \<Longrightarrow> sg_allow_unsigned_callback sg = None \<Longrightarrow> not_decoded (mm_body m) \<or> authentic H key m"
proof -
  let ?q = "(MAVLink 0 0)\<lparr>mv_signing := sg\<rparr>"
  obtain r q' where d: "decode H pkt ?q = (r, q')" by fastforce
  have robust: "mv_robust_parsing q'" using decode_signing [of ?q H pkt] d by (auto simp: only_signing_def MAVLink_def)
  have err: "r = Inl e \<Longrightarrow> is_MAVError e" for e using decode_error [of H pkt ?q e q'] d assms(2) by simp
  show "same_keys sg sg'"
    using assms(1) d decode_keys [OF d] robust err
    by (cases r) (auto simp: message_of_def parse_packet_def MAVLink_def split: if_splits)
  assume key: "sg_secret_key sg = Some key" "sg_allow_unsigned_callback sg = None"
  show "not_decoded (mm_body m) \<or> authentic H key m"
  proof (cases r)
    case (Inl e)
    with assms(1) d robust err show ?thesis
      by (auto simp: message_of_def parse_packet_def MAVLink_def MAVLinkMessage_def split: if_splits)
  next
    case (Inr m1)
    with assms(1) d robust decode_authentic [of H pkt ?q m1 q' key] key show ?thesis
      by (auto simp: message_of_def parse_packet_def MAVLink_def MAVLinkMessage_def split: if_splits)
  qed
qed

lemma messages_authentic:
  "messages H front sg = (ms, rest, sg') \<Longrightarrow> sg_secret_key sg = Some key \<Longrightarrow> sg_allow_unsigned_callback sg = None \<Longrightarrow>
   \<forall>m \<in> set ms. not_decoded (mm_body m) \<or> authentic H key m"
proof (induction H front sg arbitrary: ms rule: messages.induct)
  case (1 H front sg)
  show ?case
  proof (cases "packet_length front")
    case None
    with "1.prems" show ?thesis by (simp add: messages.simps [of H front])
  next
    case (Some k)
    obtain m sg1 where m: "message_of H (take k front) sg = (m, sg1)" by fastforce
    obtain ms1 r1 sg2 where ms1: "messages H (drop k front) sg1 = (ms1, r1, sg2)" by (metis prod_cases3)
    have ne: "take k front \<noteq> []" using packet_length_bounds [OF Some] by auto
    note keys = message_of_keys [OF m ne]
    have "sg_secret_key sg1 = Some key" "sg_allow_unsigned_callback sg1 = None"
      using keys(1) "1.prems"(2,3) by (simp_all add: same_keys_def)
    moreover have "ms = m # ms1" "sg' = sg2" "rest = r1"
      using "1.prems"(1) Some m ms1 by (simp_all add: messages.simps [of H front])
    ultimately show ?thesis using "1.IH" [OF Some m [symmetric] refl, of ms1] ms1 keys(2) "1.prems"(2,3) by auto
  qed
qed


section \<open>Timestamps of streams\<close>

abbreviation decode_all :: "(bytes \<Rightarrow> bytes) \<Rightarrow> bytes list \<Rightarrow> mavlink \<Rightarrow> mavlink" where
  "decode_all H \<equiv> fold (\<lambda>pkt s. snd (decode H pkt s))"

lemma decode_all_keys: "same_keys (mv_signing mv) (mv_signing (decode_all H pkts mv))"
proof (induction pkts arbitrary: mv)
  case (Cons pkt pkts)
  have "same_keys (mv_signing mv) (mv_signing (snd (decode H pkt mv)))"
    using decode_keys [of H pkt mv "fst (decode H pkt mv)" "snd (decode H pkt mv)"] by simp
  with Cons.IH show ?case by (auto intro: same_keys_trans)
qed simp

text \<open>A rejected packet of a new stream whose time is right has left its timestamp behind.\<close>

lemma rejected_leaves_timestamp:
  assumes "decode H buf mv = (Inl (MAVError ''Invalid signature''), mv1)" and "decode_header buf = Inr (hl, h)"
    and "signature_len h = MAVLINK_SIGNATURE_BLOCK_LEN" "sg_secret_key (mv_signing mv) = Some key"
    and "sg_stream_timestamps (mv_signing mv) (stream_of buf h) = None" "sg_timestamp (mv_signing mv) \<le> timestamp_of buf + 6000 * 1000"
  shows "sg_stream_timestamps (mv_signing mv1) (stream_of buf h) = Some (timestamp_of buf)"
proof -
  let ?q = "mv\<lparr>mv_signing := (mv_signing mv)\<lparr>sg_sig_count := sg_sig_count (mv_signing mv) + 1\<rparr>\<rparr>"
  have acc: "\<exists>r. accept_packet H buf h mv = (r, mv1)"
    using assms(1,2)
    by (auto simp: decode_def Let_def decode_payload_def instantiate_def split: option.splits sum.splits prod.splits if_splits)
  have key: "sg_secret_key (mv_signing ?q) = Some key" using assms(4) by simp
  obtain ok q1 where c: "check_signature H buf (mh_source_system h) (mh_source_component h) ?q = (Inr ok, q1)"
    "sg_stream_timestamps (mv_signing q1) (stream_of buf h) = Some (timestamp_of buf)"
    using assms(5,6) unfolding check_signature_key [OF key]
    by (cases "signature_matches H key buf") (auto simp: Let_def)
  from acc c assms(3,4) show ?thesis
    by (auto simp: accept_packet_def ask_callback_def Let_def split: option.splits prod.splits if_splits)
qed

section \<open>Signed packets\<close>

text \<open>The tail of a signed packet: link id, timestamp, signature.\<close>

definition signature_block :: "(bytes \<Rightarrow> bytes) \<Rightarrow> bytes \<Rightarrow> int \<Rightarrow> int \<Rightarrow> bytes \<Rightarrow> bytes" where
  "signature_block H key link ts buf =
     (let block = word_of_int link # take 6 (le_digits 8 ts) in block @ take 6 (H (key @ buf @ block)))"

lemma length_signature_block: "6 \<le> length (H (key @ buf @ word_of_int link # take 6 (le_digits 8 ts))) \<Longrightarrow> length (signature_block H key link ts buf) = 13"
  by (simp add: signature_block_def Let_def)

lemma six_digits: "take 6 (le_digits 8 ts) = le_digits 6 ts"
  by (simp add: eval_nat_numeral)

lemma timestamp_digits:
  assumes "0 \<le> ts" "ts < 2 ^ 48"
  shows "from_bytes_le (take 4 (le_digits 6 ts)) + push_bit 32 (from_bytes_le (drop 4 (le_digits 6 ts))) = ts"
proof -
  have "take 4 (le_digits 6 ts) = le_digits 4 ts" "drop 4 (le_digits 6 ts) = le_digits 2 (ts div 2 ^ 32)"
    by (simp_all add: eval_nat_numeral zdiv_zmult2_eq [symmetric])
  moreover have "(ts div 2 ^ 32) mod 65536 = ts div 2 ^ 32" using assms by simp
  moreover have "ts mod 4294967296 + ts div 4294967296 * 4294967296 = ts" by simp
  ultimately show ?thesis by (simp add: codec_simps push_bit_eq_mult)
qed

lemma signed_tail:
  assumes "6 \<le> length (H (key @ buf @ word_of_int link # take 6 (le_digits 8 ts)))" "0 \<le> link" "link < 256" "0 \<le> ts" "ts < 2 ^ 48"
  defines "pkt \<equiv> buf @ signature_block H key link ts buf"
  shows "stream_of pkt h = (link, mh_source_system h, mh_source_component h)" "timestamp_of pkt = ts" "signature_matches H key pkt"
    "pkt ! (length pkt - 13) = word_of_int link"
proof -
  let ?sig = "take 6 (H (key @ buf @ word_of_int link # take 6 (le_digits 8 ts)))"
  have sig: "length ?sig = 6" using assms(1) by simp
  have pkt: "pkt = buf @ word_of_int link # le_digits 6 ts @ ?sig"
    by (simp add: pkt_def signature_block_def Let_def six_digits)
  have len: "length pkt = length buf + 13" using sig by (simp add: pkt)
  show at: "pkt ! (length pkt - 13) = word_of_int link" unfolding len by (simp add: pkt)
  show "stream_of pkt h = (link, mh_source_system h, mh_source_component h)"
    unfolding stream_of_def at using assms(2,3) by (simp add: uint_byte_small)
  have "take_last 12 pkt = le_digits 6 ts @ ?sig" unfolding take_last_def len by (simp add: pkt)
  then have "drop_last 6 (take_last 12 pkt) = le_digits 6 ts" using sig by (simp add: drop_last_def)
  then show "timestamp_of pkt = ts" using timestamp_digits [OF assms(4,5)] by (simp add: timestamp_of_def Let_def)
  have "drop_last 6 pkt = buf @ word_of_int link # le_digits 6 ts" unfolding drop_last_def len by (simp add: pkt)
  moreover have "take_last 6 pkt = ?sig" unfolding take_last_def len by (simp add: pkt)
  ultimately show "signature_matches H key pkt" by (simp add: signature_matches_def six_digits)
qed

lemma encode_signed_parts:
  assumes "encode H False (MAVLinkMessage body) mv = (Inr pkt, m1, mv1)" "sg_sign_outgoing (mv_signing mv)"
    and "sg_secret_key (mv_signing mv) = Some key"
  obtains extra fvs P n hdr h crc where
    "wire_fields body = Inr (extra, fvs)" "struct_pack fvs = Inr P" "n = strip_zeros P (length P)"
    "h = MAVLinkHeader (class_msg_id body) 1 0 (int (length (take n P))) (mv_seq mv)
       (mv_source_system mv) (mv_source_component mv)"
    "header_pack False h = Inr hdr" "crc = x25crc (drop 1 (hdr @ take n P) @ [extra])"
    "pkt = (hdr @ take n P @ le_digits 2 crc) @ signature_block H key (sg_link_id (mv_signing mv)) (sg_timestamp (mv_signing mv))
       (hdr @ take n P @ le_digits 2 crc)"
    "0 \<le> sg_link_id (mv_signing mv)" "sg_link_id (mv_signing mv) < 256" "0 \<le> sg_timestamp (mv_signing mv)"
    "sg_timestamp (mv_signing mv1) = sg_timestamp (mv_signing mv) + 1"
proof -
  obtain extra fvs P where w: "wire_fields body = Inr (extra, fvs)" "struct_pack fvs = Inr P"
    using assms(1) by (auto simp: encode_def message_pack_def MAVLinkMessage_def split: sum.splits)
  define n where "n = strip_zeros P (length P)"
  define h where "h = MAVLinkHeader (class_msg_id body) 1 0 (int (length (take n P))) (mv_seq mv)
       (mv_source_system mv) (mv_source_component mv)"
  have id: "get_msg_id (MAVLinkMessage body) = class_msg_id body"
    by (simp add: get_msg_id_def MAVLinkMessage_def MAVLinkHeader_def)
  have pack: "message_pack H mv False (MAVLinkMessage body) = pack_msg H mv extra P False (MAVLinkMessage body)"
    using w by (simp add: message_pack_def MAVLinkMessage_def)
  have plen: "(if \<not> False then strip_zeros P (length P) else length P) = n" by (simp add: n_def)
  have flags: "(if sg_sign_outgoing (mv_signing mv) then 0 OR MAVLINK_IFLAG_SIGNED else 0) = (1 :: int)"
    using assms(2) by simp
  obtain hdr where hdr: "header_pack False h = Inr hdr"
    using assms(1) pack plen id flags unfolding encode_def pack_msg_def plen id flags Let_def h_def
    by (cases "header_pack False (MAVLinkHeader (class_msg_id body) 1 0 (int (length (take n P))) (mv_seq mv)
       (mv_source_system mv) (mv_source_component mv))") (simp_all del: length_take)
  define crc where "crc = x25crc (drop 1 (hdr @ take n P) @ [extra])"
  have acc: "accumulate [extra] (x25crc (drop 1 (hdr @ take n P))) = crc"
    by (simp only: crc_def x25crc_append)
  have range: "\<not> \<not> (0 \<le> crc \<and> crc < 2 ^ 16)"
    using x25crc_bounds [of "drop 1 (hdr @ take n P) @ [extra]"] by (simp_all only: crc_def) simp
  let ?sg = "mv_signing mv" and ?buf = "hdr @ take n P @ le_digits 2 crc"
  have sign: "sg_sign_outgoing ?sg \<and> \<not> False" using assms(2) by simp
  define m2 where "m2 = (MAVLinkMessage body)\<lparr>mm_payload := Some (take n P), mm_header := h,
      mm_msgbuf := Some ((hdr @ take n P) @ le_digits 2 crc), mm_crc := Some crc\<rparr>"
  have m2: "pack_msg H mv extra P False (MAVLinkMessage body) =
      (case sign_packet H mv m2 of (Inl e, m3, mv3) \<Rightarrow> (Inl e, m3, mv3) | (Inr _, m3, mv3) \<Rightarrow> (Inr (the (mm_msgbuf m3)), m3, mv3))"
    unfolding pack_msg_def plen id Let_def flags h_def [symmetric] hdr sum.case acc if_not_P [OF range] if_P [OF sign]
    by (simp add: m2_def)
  have msgbuf: "mm_msgbuf m2 = Some ?buf" by (simp add: m2_def)
  have "\<exists>m3 mv3. sign_packet H mv m2 = (Inr (), m3, mv3) \<and> mm_msgbuf m3 = Some pkt \<and> sg_timestamp (mv_signing mv3) = sg_timestamp (mv_signing mv1)"
    using assms(1) pack m2 by (auto simp: encode_def split: prod.splits sum.splits) (auto simp: sign_packet_def Let_def split: option.splits if_splits)
  then have "pkt = ?buf @ signature_block H key (sg_link_id ?sg) (sg_timestamp ?sg) ?buf" "0 \<le> sg_link_id ?sg" "sg_link_id ?sg < 256"
    "0 \<le> sg_timestamp ?sg" "sg_timestamp (mv_signing mv1) = sg_timestamp ?sg + 1"
    using msgbuf assms(3)
    by (auto simp: sign_packet_def Let_def signature_block_def le_digits_1 split: if_splits)
  with w n_def h_def hdr crc_def show thesis by (intro that)
qed

lemma signed_frame:
  assumes "header_pack False h = Inr hdr" "mh_incompat_flags h = 1" "mh_mlen h = int (length payload)"
    "length payload < 256" "length c = 15"
  shows "packet_length (hdr @ payload @ c) = Some (length (hdr @ payload @ c))"
    "hdr \<noteq> []" "hdr ! 0 = 0xFD" "(hdr @ payload @ c) ! 2 AND NOT 1 = 0"
proof -
  have "unat (word_of_int (int (length payload)) :: byte) = length payload"
    using assms(4) by (simp add: unsigned_of_nat take_bit_nat_eq_self_iff)
  note len = this [folded assms(3)]
  have h: "take 3 hdr = [0xFD, word_of_int (mh_mlen h), 1]" "length hdr = 10"
    using packed_header_v2(1,2) [OF assms(1)] assms(2) by simp_all
  have "hdr = take 3 hdr @ drop 3 hdr" by simp
  with h(1) have hdr: "hdr = 0xFD # word_of_int (mh_mlen h) # 1 # drop 3 hdr" by simp
  have at: "(hdr @ payload @ c) ! 0 = 0xFD" "(hdr @ payload @ c) ! 1 = word_of_int (mh_mlen h)"
      "(hdr @ payload @ c) ! 2 = 1" "hdr ! 0 = 0xFD"
    by (metis hdr append_Cons nth_Cons_0 nth_Cons_Suc One_nat_def numeral_2_eq_2)+
  then show "packet_length (hdr @ payload @ c) = Some (length (hdr @ payload @ c))"
    using len assms(5) h(2) by (auto simp: packet_length_def simp del: One_nat_def)
  show "hdr \<noteq> []" "hdr ! 0 = 0xFD" "(hdr @ payload @ c) ! 2 AND NOT 1 = 0" using at h(2) by auto
qed

text \<open>A correctly framed packet with a good signature decodes to what its payload decodes to.\<close>

lemma decode_signed_packet:
  assumes hdr: "decode_header (hdr @ payload @ le_digits 2 crc @ tail) = Inr (length hdr, h)" "hdr ! 0 = 0xFD" "hdr \<noteq> []"
    and h: "mh_incompat_flags h = 1" "mh_mlen h = int (length payload)" "mavlink_map (mh_msg_id h) = Some mt"
    and crc: "crc = x25crc (drop 1 (hdr @ payload) @ [mt_crc_extra mt])" and tail: "length tail = 13"
    and key: "sg_secret_key (mv_signing mv) = Some key"
    and good: "properly_signed H key (hdr @ payload @ le_digits 2 crc @ tail) h (mv_signing mv)"
    and body: "decode_payload (mh_msg_id h) mt payload = Inr body"
  shows "\<exists>m mv'. decode H (hdr @ payload @ le_digits 2 crc @ tail) mv = (Inr m, mv') \<and> mm_body m = body \<and> mm_header m = h \<and>
    mm_signed m \<and> mm_link_id m = Some ((hdr @ payload @ le_digits 2 crc @ tail) ! (length (hdr @ payload @ le_digits 2 crc @ tail) - 13))"
proof -
  let ?buf = "hdr @ payload @ le_digits 2 crc @ tail"
  have sl: "signature_len h = 13" using h(1) by (simp add: signature_len_def)
  have prefix: "\<not> (?buf ! 0 \<noteq> PROTOCOL_MARKER_V1 \<and> ?buf ! 0 \<noteq> PROTOCOL_MARKER_V2)"
    using hdr(2,3) by (simp add: nth_append)
  have len: "\<not> mh_mlen h \<noteq> int (length ?buf) - int (length hdr + 2 + 13)" using h(2) tail by simp
  have last: "take 2 (take_last (2 + 13) ?buf) = le_digits 2 crc" "drop_last (2 + 13) ?buf = hdr @ payload"
    using tail by (simp_all add: take_last_def drop_last_def)
  have "crc mod 65536 = crc" using crc x25crc_bounds [of "drop 1 (hdr @ payload) @ [mt_crc_extra mt]"] by simp
  then have c: "from_bytes_le (le_digits 2 crc) = crc" by (simp add: codec_simps)
  have sum: "\<not> crc \<noteq> x25crc (drop 1 (hdr @ payload) @ [mt_crc_extra mt])" using crc by simp
  obtain mv1 where acc: "accept_packet H ?buf h mv = (Inr (True, True), mv1)"
    using accept_packet_key [OF key, of H ?buf h] good by (metis prod.collapse)
  have "drop (length hdr) (hdr @ payload) = payload" by simp
  then have "decode H ?buf mv = (Inr \<lparr>mm_body = body, mm_header = h, mm_payload = Some (drop 6 (hdr @ payload)), mm_msgbuf = Some ?buf,
       mm_crc = Some crc, mm_signed = True, mm_link_id = Some (?buf ! (length ?buf - 13))\<rparr>, mv1)"
    unfolding decode_def hdr(1) sum.case prod.case Let_def sl if_not_P [OF prefix] if_not_P [OF len] h(3) option.case last c
      if_not_P [OF sum] acc
    by (simp only: body sum.case not_True_eq_False if_False if_True)
  then show ?thesis by simp
qed

text \<open>What a parser makes of one signed packet.\<close>

lemma signed_messages:
  assumes enc: "encode H False (MAVLinkMessage body) mv = (Inr pkt, m1, mv1)" "sg_sign_outgoing (mv_signing mv)"
    and keys: "sg_secret_key (mv_signing mv) = Some key" "sg_secret_key sg = Some key"
    and digest: "\<And>x. 6 \<le> length (H x)" and ts: "sg_timestamp (mv_signing mv) < 2 ^ 48" and body: "\<not> is_param_set body"
    and timely: "timely sg (sg_link_id (mv_signing mv), mv_source_system mv, mv_source_component mv) (sg_timestamp (mv_signing mv))"
  shows "\<exists>m sg'. messages H pkt sg = ([m], [], sg') \<and> mm_body m = body \<and> mm_signed m \<and>
    mm_link_id m = Some (word_of_int (sg_link_id (mv_signing mv))) \<and> mh_seq (mm_header m) = mv_seq mv \<and>
    mh_source_system (mm_header m) = mv_source_system mv \<and> mh_source_component (mm_header m) = mv_source_component mv"
proof -
  from encode_signed_parts [OF enc keys(1)] obtain extra fvs P n hdr h crc where
    w: "wire_fields body = Inr (extra, fvs)" "struct_pack fvs = Inr P" and n: "n = strip_zeros P (length P)"
    and h: "h = MAVLinkHeader (class_msg_id body) 1 0 (int (length (take n P))) (mv_seq mv) (mv_source_system mv) (mv_source_component mv)"
    and hdr: "header_pack False h = Inr hdr" and crc: "crc = x25crc (drop 1 (hdr @ take n P) @ [extra])"
    and pkt: "pkt = (hdr @ take n P @ le_digits 2 crc) @ signature_block H key (sg_link_id (mv_signing mv)) (sg_timestamp (mv_signing mv))
       (hdr @ take n P @ le_digits 2 crc)"
    and ranges: "0 \<le> sg_link_id (mv_signing mv)" "sg_link_id (mv_signing mv) < 256" "0 \<le> sg_timestamp (mv_signing mv)" by metis
  from own_payload [OF w] body obtain mt where mt: "mavlink_map (class_msg_id body) = Some mt" "mt_crc_extra mt = extra"
    "class_msg_id body \<in> {0..<256}" "length P < 256"
    and own: "\<And>payload. payload @ replicate (length P - length payload) 0 = P \<Longrightarrow>
       decode_payload (class_msg_id body) mt payload = Inr body"
    by (auto split: if_splits)
  let ?p = "take n P" and ?b = "hdr @ take n P @ le_digits 2 crc"
  let ?tail = "signature_block H key (sg_link_id (mv_signing mv)) (sg_timestamp (mv_signing mv)) ?b"
  have pad: "?p @ replicate (length P - length ?p) 0 = P" using n strip_zeros_spec [of P "length P"] by (auto simp: min_def)
  have hf: "mh_incompat_flags h = 1" "mh_mlen h = int (length ?p)" "mh_msg_id h = class_msg_id body"
    "mh_source_system h = mv_source_system mv" "mh_source_component h = mv_source_component mv" "mh_seq h = mv_seq mv"
    by (simp_all add: h MAVLinkHeader_def)
  have tail: "length ?tail = 13" by (rule length_signature_block) (rule digest)
  have len: "length ?p < 256" using mt(4) by simp
  have pkt': "pkt = hdr @ ?p @ le_digits 2 crc @ ?tail" by (simp add: pkt)
  have "length (le_digits 2 crc @ ?tail) = 15" using tail by simp
  note frame = signed_frame [OF hdr hf(1,2) len this, folded pkt']
  have tail_facts: "stream_of pkt h = (sg_link_id (mv_signing mv), mh_source_system h, mh_source_component h)"
    "timestamp_of pkt = sg_timestamp (mv_signing mv)" "signature_matches H key pkt"
    "pkt ! (length pkt - 13) = word_of_int (sg_link_id (mv_signing mv))"
    unfolding pkt by (rule signed_tail [OF digest ranges(1,2,3) ts])+
  have good: "properly_signed H key pkt h sg"
    using tail_facts(1-3) timely hf(1,4,5) by (simp add: properly_signed_def signature_len_def)
  have "mh_msg_id h \<in> {0..<65536}" using hf(3) mt(3) by auto
  then have dh: "decode_header pkt = Inr (length hdr, h)"
    using packed_header_v2(2) [OF hdr] packed_header_v2(3) [OF hdr, of "?p @ le_digits 2 crc @ ?tail"] by (simp add: pkt')
  have c: "crc = x25crc (drop 1 (hdr @ ?p) @ [mt_crc_extra mt])" using crc mt(2) by simp
  let ?q = "(MAVLink 0 0)\<lparr>mv_signing := sg\<rparr>"
  have "sg_secret_key (mv_signing ?q) = Some key" "properly_signed H key (hdr @ ?p @ le_digits 2 crc @ ?tail) h (mv_signing ?q)"
    "decode_payload (mh_msg_id h) mt ?p = Inr body" "mavlink_map (mh_msg_id h) = Some mt"
    using keys(2) good own [OF pad] hf(3) mt(1) by (simp_all add: pkt' [symmetric])
  from decode_signed_packet [OF dh [unfolded pkt'] frame(3,2) hf(1,2) this(4) c tail this(1,2,3)]
  obtain m q' where dec: "decode H pkt ?q = (Inr m, q')" "mm_body m = body" "mm_header m = h" "mm_signed m"
    "mm_link_id m = Some (pkt ! (length pkt - 13))" unfolding pkt' [symmetric] by blast
  have "pkt ! 0 = 0xFD" using frame(2,3) by (simp add: pkt' nth_append)
  then have "message_of H pkt sg = (m, mv_signing q')"
    using dec(1) frame(4) by (simp add: message_of_def parse_packet_def)
  then have "messages H pkt sg = ([m], [], mv_signing q')"
    using frame(1) by (simp add: messages.simps [of H pkt] messages.simps [of H "[]"] packet_length_def)
  with dec tail_facts(4) hf show ?thesis by auto
qed


lemma signed_chunks:
  assumes "encode H False (MAVLinkMessage body) mv = (Inr (concat chunks), m1, mv1)" and "sg_sign_outgoing (mv_signing mv)"
    and "sg_secret_key (mv_signing mv) = Some key" and "sg_secret_key sg = Some key" and "\<And>x. 6 \<le> length (H x)"
    and "sg_timestamp (mv_signing mv) < 2 ^ 48" and "\<not> is_param_set body"
    and "timely sg (sg_link_id (mv_signing mv), mv_source_system mv, mv_source_component mv) (sg_timestamp (mv_signing mv))"
  obtains m rx where "parse_chunks H chunks ((MAVLink a b)\<lparr>mv_signing := sg\<rparr>) = (Inr [m], rx)" "mm_body m = body" "mm_signed m"
    "mm_link_id m = Some (word_of_int (sg_link_id (mv_signing mv)))" "mh_seq (mm_header m) = mv_seq mv"
    "mh_source_system (mm_header m) = mv_source_system mv" "mh_source_component (mm_header m) = mv_source_component mv"
proof -
  let ?rx = "(MAVLink a b)\<lparr>mv_signing := sg\<rparr>"
  have init: "parser_inv ?rx" "unparsed ?rx = []" "packet_length [] = None"
    by (simp_all add: parser_inv_def MAVLink_def unparsed_def packet_length_def)
  from signed_messages [OF assms] obtain m sg' where
    m: "messages H (concat chunks) sg = ([m], [], sg')" "mm_body m = body" "mm_signed m"
    "mm_link_id m = Some (word_of_int (sg_link_id (mv_signing mv)))" "mh_seq (mm_header m) = mv_seq mv"
    "mh_source_system (mm_header m) = mv_source_system mv" "mh_source_component (mm_header m) = mv_source_component mv"
    by blast
  from parse_chunks_messages [of ?rx H chunks] init m(1) obtain rx where "parse_chunks H chunks ?rx = (Inr [m], rx)" by auto
  with m show thesis by (intro that)
qed

text \<open>An acknowledgment signed with a digest that needs no computation, and a forged copy of it.\<close>

definition example_digest :: "bytes \<Rightarrow> bytes" where
  "example_digest bs = [1, 2, 3, 4, 5, 6]"

definition example_signing :: "(int \<times> int \<times> int \<Rightarrow> int option) \<Rightarrow> signing" where
  "example_signing known = MAVLinkSigning\<lparr>sg_secret_key := Some [42], sg_timestamp := 5, sg_sign_outgoing := True, sg_stream_timestamps := known\<rparr>"

definition example_peer :: "int \<Rightarrow> (int \<times> int \<times> int \<Rightarrow> int option) \<Rightarrow> mavlink" where
  "example_peer system known = (MAVLink system 190)\<lparr>mv_signing := example_signing known\<rparr>"

definition example_signed :: bytes where
  "example_signed = [253, 9, 1, 0, 0, 254, 190, 77, 0, 0, 246, 0, 0, 0, 0, 0, 0, 0, 1, 13, 188, 0, 5, 0, 0, 0, 0, 0, 1, 2, 3, 4, 5, 6]"

definition example_forged :: bytes where
  "example_forged = [253, 9, 1, 0, 0, 254, 190, 77, 0, 0, 246, 0, 0, 0, 0, 0, 0, 0, 1, 13, 188, 0, 5, 0, 0, 0, 0, 0, 1, 2, 3, 4, 5, 7]"

lemma example_signed_encoded:
  "fst (encode example_digest False (MAVLinkMessage example_ack) (example_peer 254 Map.empty)) = Inr example_signed"
  by code_simp

lemma example_parsed:
  obtains m rx where "parse_chunks example_digest [take 7 example_signed, drop 7 example_signed] (example_peer 1 Map.empty) = (Inr [m], rx)"
    "mm_body m = example_ack" "mm_signed m"
proof -
  obtain m1 mv1 where enc: "encode example_digest False (MAVLinkMessage example_ack) (example_peer 254 Map.empty) =
      (Inr (concat [take 7 example_signed, drop 7 example_signed]), m1, mv1)"
    using example_signed_encoded by (metis prod.collapse append_take_drop_id append_Nil2 concat.simps)
  show thesis
    by (rule signed_chunks [OF enc, where sg = "example_signing Map.empty" and key = "[42]" and a = 1 and b = 190])
       (auto simp: example_peer_def example_signing_def MAVLinkSigning_def example_digest_def timely_def example_ack_def intro: that)
qed

lemma example_decoded:
  "decode_header example_signed = Inr (10, MAVLinkHeader 77 1 0 9 0 254 190)"
  "decode_header example_forged = Inr (10, MAVLinkHeader 77 1 0 9 0 254 190)"
  "stream_of example_signed (MAVLinkHeader 77 1 0 9 0 254 190) = (0, 254, 190)"
  "stream_of example_forged (MAVLinkHeader 77 1 0 9 0 254 190) = (0, 254, 190)"
  "timestamp_of example_signed = 5" "timestamp_of example_forged = 5"
  "fst (decode example_digest example_forged (example_peer 1 Map.empty)) = Inl (MAVError ''Invalid signature'')"
  by code_simp+

section \<open>Properties of signing\<close>

text \<open>C27. With a secret key and no callback for unsigned packets, a parser decodes only authentic messages: whatever bytes arrive, in any
  fragmentation and from any signing state, each message that is handed out is bad data, of an unknown type (those are not checked at all), or comes
  from a signed packet whose signature is the one that the key gives.\<close>

theorem only_authentic_decoded:
  assumes "parse_chunks H chunks ((MAVLink a b)\<lparr>mv_signing := sg\<rparr>) = (Inr ms, mv')" and "m \<in> set ms"
    and "sg_secret_key sg = Some key" and "sg_allow_unsigned_callback sg = None"
  shows "(\<exists>data reason. mm_body m = MAVLinkBadData data reason) \<or> (\<exists>id data. mm_body m = MAVLinkUnknownMessage id data) \<or>
    (\<exists>buf. mm_msgbuf m = Some buf \<and> mm_signed m \<and> take 6 (H (key @ drop_last 6 buf)) = take_last 6 buf)"
proof -
  let ?mv = "(MAVLink a b)\<lparr>mv_signing := sg\<rparr>"
  obtain ms' rest sg' where ms: "messages H (concat chunks) sg = (ms', rest, sg')" by (metis prod_cases3)
  have init: "parser_inv ?mv" "unparsed ?mv = []" "packet_length [] = None"
    by (simp_all add: parser_inv_def MAVLink_def unparsed_def packet_length_def)
  from parse_chunks_messages [of ?mv H chunks] init ms assms(1) have "ms = ms'" by auto
  with messages_authentic [OF ms assms(3,4)] assms(2) have "not_decoded (mm_body m) \<or> authentic H key m" by blast
  then show ?thesis by (cases "mm_body m") (auto simp: authentic_def signature_matches_def)
qed

lemma only_authentic_decoded_witness:
  "\<exists>m rx buf. parse_chunks example_digest [take 7 example_signed, drop 7 example_signed] (example_peer 1 Map.empty) = (Inr [m], rx) \<and>
     mm_msgbuf m = Some buf \<and> take 6 (example_digest ([42] @ drop_last 6 buf)) = take_last 6 buf"
proof -
  obtain m rx where m: "parse_chunks example_digest [take 7 example_signed, drop 7 example_signed] (example_peer 1 Map.empty) = (Inr [m], rx)"
    "mm_body m = example_ack" by (rule example_parsed)
  have "m \<in> set [m]" "sg_secret_key (example_signing Map.empty) = Some [42]" "sg_allow_unsigned_callback (example_signing Map.empty) = None"
    by (simp_all add: example_signing_def MAVLinkSigning_def)
  from only_authentic_decoded [OF m(1) [unfolded example_peer_def] this] m show ?thesis by (auto simp: example_ack_def)
qed

text \<open>C39. A signed packet can be replayed: once the stream of a packet is known, a packet of it that was accepted as signed is accepted again with the same
  message after any further packets, any number of times, because accepting a packet does not move the stream's timestamp.\<close>

theorem signed_packet_replayed:
  assumes "decode H buf mv = (Inr m, mv1)" and "mm_signed m" and "sg_secret_key (mv_signing mv) = Some key"
    and "decode_header buf = Inr (hl, h)" and "sg_stream_timestamps (mv_signing mv) (stream_of buf h) = Some t"
  shows "fst (decode H buf (decode_all H pkts mv1)) = Inr m"
  using assms(1)
proof (cases rule: decode_accept)
  case (unknown hl' h')
  with assms(2) show ?thesis by (simp add: MAVLinkMessage_def)
next
  case (known hl' h')
  with assms(4) have h: "h' = h" by simp
  let ?s = "decode_all H pkts mv1"
  have keys: "same_keys (mv_signing mv) (mv_signing ?s)"
    using decode_keys [OF assms(1)] decode_all_keys by (rule same_keys_trans)
  have "properly_signed H key buf h (mv_signing mv)"
    using accept_packet_key [OF assms(3), of H buf h] known(2) h assms(2) by auto
  then have "properly_signed H key buf h (mv_signing ?s)" "sg_secret_key (mv_signing ?s) = Some key"
    using same_keysD(1) [OF keys] same_keysD(3) [OF keys assms(5)] assms(3,5) by (simp_all add: properly_signed_def timely_def)
  with accept_packet_key [of ?s key H buf h] have "fst (accept_packet H buf h ?s) = Inr (True, True)" by auto
  then have "accept_packet H buf h' ?s = (Inr (True, mm_signed m), snd (accept_packet H buf h ?s))"
    using assms(2) h by (simp add: prod_eq_iff)
  from known(5) [OF this] show ?thesis by simp
qed

lemma signed_packet_replayed_witness:
  "\<exists>m mv1. decode example_digest example_signed (example_peer 1 [(0, 254, 190) \<mapsto> 4]) = (Inr m, mv1) \<and>
     fst (decode example_digest example_signed (decode_all example_digest [example_signed, example_forged] mv1)) = Inr m"
proof -
  let ?rx = "example_peer 1 [(0, 254, 190) \<mapsto> 4]"
  have "case fst (decode example_digest example_signed ?rx) of Inl _ \<Rightarrow> False | Inr m \<Rightarrow> mm_signed m" by code_simp
  then obtain m mv1 where m: "decode example_digest example_signed ?rx = (Inr m, mv1)" "mm_signed m"
    by (auto split: sum.splits) (metis prod.collapse)
  have "sg_secret_key (mv_signing ?rx) = Some [42]"
    "sg_stream_timestamps (mv_signing ?rx) (stream_of example_signed (MAVLinkHeader 77 1 0 9 0 254 190)) = Some 4"
    by (simp_all add: example_peer_def example_signing_def example_decoded)
  from signed_packet_replayed [OF m this(1) example_decoded(1) this(2)] m(1) show ?thesis by blast
qed

text \<open>C40. A forged packet can silence a stream: a packet whose signature is wrong, but that names a new stream and a time that is not too
  old, leaves its timestamp behind although it is rejected. From then on no packet of that stream with a known message type and a timestamp up to that
  one is decoded, however genuine it is and whatever arrives in between.\<close>

theorem forged_timestamp_blocks_stream:
  assumes "decode H forged mv = (Inl (MAVError ''Invalid signature''), mv1)" and "decode_header forged = Inr (hl, h)"
    and "signature_len h = MAVLINK_SIGNATURE_BLOCK_LEN" and "sg_secret_key (mv_signing mv) = Some key"
    and "sg_allow_unsigned_callback (mv_signing mv) = None"
    and "sg_stream_timestamps (mv_signing mv) (stream_of forged h) = None" and "sg_timestamp (mv_signing mv) \<le> timestamp_of forged + 6000 * 1000"
    and "decode_header buf = Inr (hl', h')" and "stream_of buf h' = stream_of forged h" and "timestamp_of buf \<le> timestamp_of forged"
    and "mavlink_map (mh_msg_id h') \<noteq> None"
  shows "\<exists>e. fst (decode H buf (decode_all H pkts mv1)) = Inl e"
proof (rule ccontr)
  let ?s = "decode_all H pkts mv1"
  assume "\<nexists>e. fst (decode H buf ?s) = Inl e"
  then obtain m s' where d: "decode H buf ?s = (Inr m, s')" by (metis prod.collapse sum.exhaust)
  from d show False
  proof (cases rule: decode_accept)
    case (unknown hl2 h2)
    with assms(8,11) show False by simp
  next
    case (known hl2 h2)
    with assms(8) have h: "h2 = h'" by simp
    have keys: "same_keys (mv_signing mv) (mv_signing mv1)" "same_keys (mv_signing mv1) (mv_signing ?s)"
      by (rule decode_keys [OF assms(1)], rule decode_all_keys)
    have "sg_stream_timestamps (mv_signing ?s) (stream_of buf h') = Some (timestamp_of forged)"
      using same_keysD(3) [OF keys(2) rejected_leaves_timestamp [OF assms(1-4,6,7)]] assms(9) by simp
    then have "\<not> properly_signed H key buf h' (mv_signing ?s)"
      using assms(10) by (simp add: properly_signed_def timely_def)
    moreover have "sg_secret_key (mv_signing ?s) = Some key" "sg_allow_unsigned_callback (mv_signing ?s) = None"
      using keys [THEN same_keysD(1)] keys [THEN same_keysD(2)] assms(4,5) by simp_all
    ultimately show False
      using accept_packet_key [of ?s key H buf h'] known(2) h by auto
  qed
qed

lemma forged_timestamp_blocks_stream_witness:
  "\<exists>e mv1. decode example_digest example_forged (example_peer 1 Map.empty) = (Inl (MAVError ''Invalid signature''), mv1) \<and>
     fst (decode example_digest example_signed (decode_all example_digest [] mv1)) = Inl e"
proof -
  let ?rx = "example_peer 1 Map.empty" and ?h = "MAVLinkHeader 77 1 0 9 0 254 190"
  obtain mv1 where d: "decode example_digest example_forged ?rx = (Inl (MAVError ''Invalid signature''), mv1)"
    using example_decoded(7) by (metis prod.collapse)
  have "signature_len ?h = MAVLINK_SIGNATURE_BLOCK_LEN" "sg_secret_key (mv_signing ?rx) = Some [42]"
    "sg_allow_unsigned_callback (mv_signing ?rx) = None" "sg_stream_timestamps (mv_signing ?rx) (stream_of example_forged ?h) = None"
    "sg_timestamp (mv_signing ?rx) \<le> timestamp_of example_forged + 6000 * 1000"
    "mavlink_map (mh_msg_id ?h) \<noteq> None"
    by (simp_all add: example_peer_def example_signing_def MAVLinkSigning_def example_decoded signature_len_def MAVLinkHeader_def mavlink_map_def)
  moreover have "stream_of example_signed ?h = stream_of example_forged ?h" "timestamp_of example_signed \<le> timestamp_of example_forged"
    by (simp_all add: example_decoded)
  ultimately show ?thesis
    using forged_timestamp_blocks_stream [OF d example_decoded(2) _ _ _ _ _ example_decoded(1)] d by blast
qed



end
