(* ===== verification/Mavlink_Types.thy ===== *)
theory Mavlink_Types
  imports Mavlink_Signing
begin

text \<open>
  What the MAVLink parser returns is well typed, and packing is a left inverse of decoding: header, payload and checksum
  that a decoded message packs to are the bytes it was decoded from. With \<open>Mavlink_Roundtrip\<close>, decoding and packing are
  inverse to each other, up to the trailing zeros of a payload.
\<close>

section \<open>Unpacking and packing\<close>

text \<open>The values that an item of a format can hold.\<close>

fun item_holds :: "fmt \<Rightarrow> field \<Rightarrow> bool" where
  "item_holds FmtB (VInt v) = (0 \<le> v \<and> v < 2 ^ 8)"
| "item_holds FmtH (VInt v) = (0 \<le> v \<and> v < 2 ^ 16)"
| "item_holds FmtI (VInt v) = (0 \<le> v \<and> v < 2 ^ 32)"
| "item_holds FmtInt32 (VInt v) = (- (2 ^ 31) \<le> v \<and> v < 2 ^ 31)"
| "item_holds FmtF (VFloat w) = True"
| "item_holds (FmtS n) (VBytes bs) = (length bs = n)"
| "item_holds _ _ = False"

lemma from_bytes_le_bounds: "length bs = n \<Longrightarrow> 0 \<le> from_bytes_le bs \<and> from_bytes_le bs < 256 ^ n"
  using from_bytes_le_less [of bs] by simp

lemma byte_shift: "word_of_int (v - 256 * m) = (word_of_int v :: byte)" "(v - 256 * m) div 256 = v div 256 - m"
proof -
  have "(v - 256 * m) mod 256 = v mod 256" using mod_mult_self2 [of v 256 "- m"] by simp
  then show "word_of_int (v - 256 * m) = (word_of_int v :: byte)" by (metis uint_word_of_int_byte word_uint_eqI)
  show "(v - 256 * m) div 256 = v div 256 - m" using div_mult_self1 [of 256 v "- m"] by (simp add: algebra_simps)
qed

lemma le_digits_negative: "le_digits n (v - 256 ^ n) = le_digits n v"
  by (induction n arbitrary: v) (simp_all add: byte_shift del: of_int_diff)

lemma pack_unpack_field: "length bs = fmt_size f \<Longrightarrow> pack_field f (unpack_field f bs) = Inr bs"
proof (cases f)
  case FmtInt32
  assume "length bs = fmt_size f"
  with FmtInt32 have len: "length bs = 4" by simp
  with from_bytes_le_bounds [OF len] le_digits_from_bytes [of bs] le_digits_negative [of 4 "from_bytes_le bs"] FmtInt32
  show ?thesis by (auto simp: Let_def simp del: from_bytes_le_nonneg)
next
  case FmtF
  assume "length bs = fmt_size f"
  with FmtF have len: "length bs = 4" by simp
  with from_bytes_le_bounds [OF len] le_digits_from_bytes [of bs] FmtF show ?thesis by (simp add: uint_word_of_int)
qed (use from_bytes_le_bounds [of bs] le_digits_from_bytes [of bs] in auto)

lemma item_holds_unpacked: "length bs = fmt_size f \<Longrightarrow> item_holds f (unpack_field f bs)"
  using from_bytes_le_bounds [of bs "fmt_size f"] from_bytes_le_nonneg [of bs]
  by (cases f) (auto simp: Let_def simp del: from_bytes_le_nonneg)

lemma struct_pack_unpacked:
  "length bs = calcsize fs \<Longrightarrow> struct_pack (zip fs (unpack_fields fs bs)) = Inr bs \<and>
     list_all (\<lambda>(f, v). item_holds f v) (zip fs (unpack_fields fs bs))"
proof (induction fs arbitrary: bs)
  case (Cons f fs)
  then have len: "length (take (fmt_size f) bs) = fmt_size f" "length (drop (fmt_size f) bs) = calcsize fs"
    by (simp_all add: calcsize_def)
  from Cons.IH [OF len(2)] pack_unpack_field [OF len(1)] item_holds_unpacked [OF len(1)] show ?case by simp
qed (simp add: calcsize_def)

section \<open>Payloads\<close>

text \<open>The values of a message fit their items, so that packing it cannot fail.\<close>

definition well_typed :: "mav_body \<Rightarrow> bool" where
  "well_typed body \<longleftrightarrow> (case wire_fields body of Inl _ \<Rightarrow> False
     | Inr (_, fvs) \<Rightarrow> list_all (\<lambda>(f, v). item_holds f v) fvs)"

lemma unpacked_values [simp]:
  "VInt (int_of_field (unpack_field FmtB bs)) = unpack_field FmtB bs" "VInt (int_of_field (unpack_field FmtH bs)) = unpack_field FmtH bs"
  "VInt (int_of_field (unpack_field FmtI bs)) = unpack_field FmtI bs" "VInt (int_of_field (unpack_field FmtInt32 bs)) = unpack_field FmtInt32 bs"
  "VFloat (float_of_field (unpack_field FmtF bs)) = unpack_field FmtF bs"
  by (simp_all add: Let_def)

lemma decoded_payload_fields:
  assumes "mavlink_map key = Some mt" "decode_payload key mt payload = Inr body"
  defines "P \<equiv> take (calcsize (mt_format mt)) (payload @ replicate (calcsize (mt_format mt) - length payload) 0)"
  shows "class_msg_id body = key" "wire_fields body = Inr (mt_crc_extra mt, zip (mt_format mt) (unpack_fields (mt_format mt) P))"
    "\<not> is_param_set body"
proof -
  have "length P = calcsize (mt_format mt)" by (simp add: P_def)
  then have dec: "instantiate key (map2 (\<lambda>tp v. if tp = ''char'' then VStr else v) (mt_fieldtypes mt)
      (map (\<lambda>i. unpack_fields (mt_format mt) P ! i) (mt_orders mt))) = Inr body"
    using assms(2) by (simp add: decode_payload_def Let_def P_def [symmetric] struct_unpack_def del: take_append)
  consider "key = 0" "mt = heartbeat_class" | "key = 76" "mt = command_long_class" | "key = 77" "mt = command_ack_class"
    | "key = 23" "mt = param_set_class"
    using assms(1) by (auto simp: mavlink_map_def split: if_splits)
  then have "class_msg_id body = key \<and> \<not> is_param_set body \<and>
      wire_fields body = Inr (mt_crc_extra mt, zip (mt_format mt) (unpack_fields (mt_format mt) P))"
    using dec
    by cases (auto simp: instantiate_def construct_heartbeat_def construct_command_long_def construct_command_ack_def
        construct_param_set_def message_class_defs eval_nat_numeral simp del: unpack_field.simps)
  then show "class_msg_id body = key" "wire_fields body = Inr (mt_crc_extra mt, zip (mt_format mt) (unpack_fields (mt_format mt) P))"
    "\<not> is_param_set body"
    by simp_all
qed

section \<open>Headers\<close>

text \<open>Every field of a decoded header is a byte, the message id three of them.\<close>

definition header_typed :: "mav_header \<Rightarrow> bool" where
  "header_typed h \<longleftrightarrow> {mh_incompat_flags h, mh_compat_flags h, mh_mlen h, mh_seq h, mh_source_system h, mh_source_component h} \<subseteq> {0..<256} \<and>
     mh_msg_id h \<in> {0..<2 ^ 24}"

lemma id_halves:
  fixes lo hi :: int
  assumes "0 \<le> lo" "lo < 2 ^ 16" "0 \<le> hi" "hi < 2 ^ 8"
  shows "(lo OR push_bit 16 hi) AND 0xFFFF = lo" "drop_bit 16 (lo OR push_bit 16 hi) = hi" "lo OR push_bit 16 hi \<in> {0..<2 ^ 24}"
proof -
  have lo: "take_bit 16 lo = lo" "drop_bit 16 lo = 0" using assms by (simp_all add: take_bit_int_eq_self drop_bit_eq_div)
  have "(lo OR push_bit 16 hi) AND 0xFFFF = take_bit 16 (lo OR push_bit 16 hi)" by (simp add: take_bit_eq_mask mask_eq_exp_minus_1)
  with lo show "(lo OR push_bit 16 hi) AND 0xFFFF = lo" by (simp add: take_bit_push_bit)
  show high: "drop_bit 16 (lo OR push_bit 16 hi) = hi" using lo(2) by (simp add: drop_bit_push_bit)
  have "0 \<le> lo OR push_bit 16 hi" using assms by (simp add: push_bit_eq_mult)
  moreover have "(lo OR push_bit 16 hi) div 2 ^ 16 < 2 ^ 8" using high assms(4) by (simp add: drop_bit_eq_div)
  ultimately show "lo OR push_bit 16 hi \<in> {0..<2 ^ 24}" by simp
qed

lemma le_digits_uint: "le_digits (Suc 0) (uint b) = [b]" "le_digits 2 (uint b + 256 * uint c) = [b, c]"
  using le_digits_from_bytes [of "[b]"] le_digits_from_bytes [of "[b, c]"]
  by (simp_all add: numeral_2_eq_2 del: le_digits.simps of_int_add)

lemma decoded_header_packs:
  assumes "decode_header buf = Inr (hl, h)" "buf ! 0 = 0xFE \<or> buf ! 0 = 0xFD"
  shows "header_pack (buf ! 0 = 0xFE) h = Inr (take hl buf)" "hl \<le> length buf" "0 < hl" "header_typed h"
proof -
  have "header_pack (buf ! 0 = 0xFE) h = Inr (take hl buf) \<and> hl \<le> length buf \<and> 0 < hl \<and> header_typed h"
  proof (cases "buf ! 0 = 0xFE")
    case True
    then have len: "6 \<le> length buf" and h: "hl = 6" "h = header_v1 (unpack_fields [FmtS 1, FmtB, FmtB, FmtB, FmtB, FmtB] (take 6 buf))"
      using assms(1) by (auto simp: decode_header_def struct_unpack_def calcsize_def split: if_splits)
    from len obtain b0 b1 b2 b3 b4 b5 where "take 6 buf = [b0, b1, b2, b3, b4, b5]"
      using that by (auto simp: numeral_eq_Suc Suc_le_length_iff)
    with True len h show ?thesis
      using nth_take [of 0 6 buf] uint_byte_bounds order.strict_trans [OF uint_byte_bounds(2) [of b5], of "2 ^ 24"]
      by (simp add: header_v1_def MAVLinkHeader_def header_pack_def header_typed_def le_digits_uint)
  next
    case False
    then have len: "10 \<le> length buf"
      and h: "hl = 10" "h = header_v2 (unpack_fields [FmtS 1, FmtB, FmtB, FmtB, FmtB, FmtB, FmtB, FmtH, FmtB] (take 10 buf))"
      using assms(1) by (auto simp: decode_header_def struct_unpack_def calcsize_def split: if_splits)
    from len obtain b0 b1 b2 b3 b4 b5 b6 b7 b8 b9 where buf: "take 10 buf = [b0, b1, b2, b3, b4, b5, b6, b7, b8, b9]"
      using that by (auto simp: numeral_eq_Suc Suc_le_length_iff)
    have low: "uint b7 + 256 * uint b8 < 2 ^ 16" using uint_byte_bounds [of b7] uint_byte_bounds [of b8] by simp
    note halves = id_halves [OF _ low, of "uint b9"]
    from False assms(2) len h buf show ?thesis
      using nth_take [of 0 10 buf] uint_byte_bounds halves low
      by (simp add: header_v2_def MAVLinkHeader_def header_pack_def header_typed_def le_digits_uint)
  qed
  then show "header_pack (buf ! 0 = 0xFE) h = Inr (take hl buf)" "hl \<le> length buf" "0 < hl" "header_typed h" by simp_all
qed


section \<open>Packets\<close>

lemma two_bytes_checksum:
  assumes "length bs = 2" "from_bytes_le bs = v"
  shows "bs = le_digits 2 v"
  using le_digits_from_bytes [of bs] assms by simp

text \<open>What a decoded packet consists of.\<close>

lemma decode_parts:
  assumes "decode H buf mv = (Inr m, mv')" "\<not> not_decoded (mm_body m)"
  shows "\<exists>hdr payload tail extra fvs P. buf = hdr @ payload @ le_digits 2 (x25crc (drop 1 (hdr @ payload) @ [extra])) @ tail \<and>
    header_pack (buf ! 0 = 0xFE) (mm_header m) = Inr hdr \<and> mh_mlen (mm_header m) = int (length payload) \<and>
    length tail = signature_len (mm_header m) \<and> header_typed (mm_header m) \<and>
    get_msg_id m = class_msg_id (mm_body m) \<and> wire_fields (mm_body m) = Inr (extra, fvs) \<and> list_all (\<lambda>(f, v). item_holds f v) fvs \<and>
    struct_pack fvs = Inr P \<and> P = take (length P) (payload @ replicate (length P - length payload) 0) \<and> \<not> is_param_set (mm_body m)"
proof -
  obtain hl h where hdr: "decode_header buf = Inr (hl, h)" using assms(1) by (auto simp: decode_def split: sum.splits)
  let ?n = "2 + signature_len h"
  have marker: "buf ! 0 = 0xFE \<or> buf ! 0 = 0xFD" and mlen: "mh_mlen h = int (length buf) - int (hl + ?n)"
    using assms(1) hdr by (auto simp: decode_def Let_def split: if_splits)
  from assms hdr marker mlen obtain mt where mt: "mavlink_map (mh_msg_id h) = Some mt"
    by (cases "mavlink_map (mh_msg_id h)") (auto simp: decode_def Let_def MAVLinkMessage_def)
  let ?crc = "from_bytes_le (take 2 (take_last ?n buf))"
  let ?payload = "drop hl (drop_last ?n buf)"
  have crc: "?crc = x25crc (drop 1 (drop_last ?n buf) @ [mt_crc_extra mt])"
    and body: "decode_payload (mh_msg_id h) mt ?payload = Inr (mm_body m)" and header: "mm_header m = h"
    using assms(1) hdr marker mlen mt by (auto simp: decode_def Let_def split: sum.splits prod.splits if_splits)
  note packed = decoded_header_packs [OF hdr marker]
  let ?k = "calcsize (mt_format mt)"
  let ?P = "take ?k (?payload @ replicate (?k - length ?payload) 0)"
  let ?fvs = "zip (mt_format mt) (unpack_fields (mt_format mt) ?P)"
  have P: "length ?P = ?k" by simp
  note fields = decoded_payload_fields [OF mt body] struct_pack_unpacked [OF P]
  from mlen packed(4) have long: "hl + ?n \<le> length buf" by (simp add: header_typed_def)
  let ?hdr = "take hl buf" and ?tail = "drop 2 (take_last ?n buf)"
  have "hl \<le> length buf - ?n" using long by simp
  then have "take hl (drop_last ?n buf) = ?hdr" by (simp add: drop_last_def min_absorb1)
  then have front: "drop_last ?n buf = ?hdr @ ?payload" by (metis append_take_drop_id)
  have "take 2 (take_last ?n buf) = le_digits 2 (x25crc (drop 1 (?hdr @ ?payload) @ [mt_crc_extra mt]))"
    unfolding front [symmetric] by (rule two_bytes_checksum [OF _ crc]) (use long in \<open>simp add: take_last_def\<close>)
  moreover have "buf = drop_last ?n buf @ take 2 (take_last ?n buf) @ ?tail"
    unfolding append_take_drop_id by (simp add: drop_last_def take_last_def)
  ultimately have "buf = ?hdr @ ?payload @ le_digits 2 (x25crc (drop 1 (?hdr @ ?payload) @ [mt_crc_extra mt])) @ ?tail"
    using front by (metis append_assoc)
  moreover have "mh_mlen h = int (length ?payload)" "length ?tail = signature_len h"
    using long mlen by (simp_all add: drop_last_def take_last_def)
  moreover have "get_msg_id m = class_msg_id (mm_body m)" using fields(1) header by (simp add: get_msg_id_def)
  ultimately show ?thesis using packed(1,4) fields(2,3,4) header P by metis
qed


section \<open>Everything the parser returns\<close>

lemma messages_each:
  "messages H front sg = (ms, rest, sg') \<Longrightarrow> m \<in> set ms \<Longrightarrow> \<exists>pkt sg1. pkt \<noteq> [] \<and> m = fst (message_of H pkt sg1)"
proof (induction H front sg arbitrary: ms rule: messages.induct)
  case (1 H front sg)
  show ?case
  proof (cases "packet_length front")
    case None
    with "1.prems" show ?thesis by (simp add: messages.simps [of H front])
  next
    case (Some k)
    obtain m1 sg1 where m1: "message_of H (take k front) sg = (m1, sg1)" by fastforce
    obtain ms1 r1 sg2 where ms1: "messages H (drop k front) sg1 = (ms1, r1, sg2)" by (metis prod_cases3)
    have "take k front \<noteq> []" using packet_length_bounds [OF Some] by auto
    moreover have "m = m1 \<or> m \<in> set ms1" "sg' = sg2" "rest = r1"
      using "1.prems" Some m1 ms1 by (auto simp: messages.simps [of H front])
    ultimately show ?thesis using "1.IH" [OF Some m1 [symmetric] refl, of ms1] ms1 m1 by (metis fst_conv)
  qed
qed

lemma parsed_each:
  assumes "parse_chunks H chunks ((MAVLink a b)\<lparr>mv_signing := keys\<rparr>) = (Inr ms, mv')" "m \<in> set ms"
  obtains pkt sg where "pkt \<noteq> []" "m = fst (message_of H pkt sg)"
proof -
  let ?mv = "(MAVLink a b)\<lparr>mv_signing := keys\<rparr>"
  obtain ms' rest sg where ms: "messages H (concat chunks) (mv_signing ?mv) = (ms', rest, sg)" by (metis prod_cases3)
  have init: "parser_inv ?mv" "unparsed ?mv = []" "packet_length [] = None"
    by (simp_all add: parser_inv_def MAVLink_def unparsed_def packet_length_def)
  from parse_chunks_messages [of ?mv H chunks] init ms assms(1) have "ms = ms'" by auto
  with messages_each [OF ms] assms(2) that show thesis by blast
qed

lemma message_of_cases:
  assumes "pkt \<noteq> []"
  obtains (bad) e where "fst (message_of H pkt sg) = MAVLinkMessage (MAVLinkBadData pkt e)" "is_MAVError e"
  | (decoded) mv mv' where "decode H pkt mv = (Inr (fst (message_of H pkt sg)), mv')"
proof -
  let ?q = "(MAVLink 0 0)\<lparr>mv_signing := sg\<rparr>"
  obtain r q' where d: "decode H pkt ?q = (r, q')" by fastforce
  have robust: "mv_robust_parsing q'" using decode_signing [of ?q H pkt] d by (auto simp: only_signing_def MAVLink_def)
  have err: "r = Inl e \<Longrightarrow> is_MAVError e" for e using decode_error [of H pkt ?q e q'] d assms by simp
  have "(\<exists>e. fst (message_of H pkt sg) = MAVLinkMessage (MAVLinkBadData pkt e) \<and> is_MAVError e) \<or> r = Inr (fst (message_of H pkt sg))"
    using d robust err by (cases r) (auto simp: message_of_def parse_packet_def MAVLink_def split: if_splits)
  with d bad decoded show thesis by blast
qed

text \<open>The type of a message, by its class.\<close>

definition message_typed :: "mav_message \<Rightarrow> bool" where
  "message_typed m \<longleftrightarrow> (case mm_body m of
      MAVLinkBadData data e \<Rightarrow> data \<noteq> [] \<and> mm_msgbuf m = Some data \<and> is_MAVError e \<and> \<not> mm_signed m
    | MAVLinkUnknownMessage i data \<Rightarrow> mavlink_map i = None \<and> i \<in> {0..<2 ^ 24} \<and> data \<noteq> [] \<and> mm_msgbuf m = Some data \<and> \<not> mm_signed m
    | body \<Rightarrow> well_typed body \<and> \<not> is_param_set body \<and> mh_msg_id (mm_header m) = class_msg_id body \<and> header_typed (mm_header m) \<and>
        mm_msgbuf m \<noteq> None \<and> (mm_link_id m \<noteq> None) = mm_signed m)"


lemma decoded_typed:
  assumes "decode H buf mv = (Inr m, mv')"
  shows "message_typed m"
proof (cases "not_decoded (mm_body m)")
  case False
  from decode_parts [OF assms False] have "well_typed (mm_body m)" "\<not> is_param_set (mm_body m)"
    "mh_msg_id (mm_header m) = class_msg_id (mm_body m)" "header_typed (mm_header m)"
    by (auto simp: well_typed_def get_msg_id_def)
  moreover have "mm_msgbuf m \<noteq> None" "(mm_link_id m \<noteq> None) = mm_signed m"
    using assms False by (auto simp: decode_def Let_def MAVLinkMessage_def split: sum.splits prod.splits option.splits if_splits)
  ultimately show ?thesis using False by (cases "mm_body m") (simp_all add: message_typed_def)
next
  case True
  obtain hl h where hdr: "decode_header buf = Inr (hl, h)" using assms(1) by (auto simp: decode_def split: sum.splits)
  have marker: "buf ! 0 = 0xFE \<or> buf ! 0 = 0xFD" using assms(1) hdr by (auto simp: decode_def Let_def split: if_splits)
  show ?thesis
  proof (cases "mavlink_map (mh_msg_id h)")
    case None
    with assms hdr have "m = MAVLinkMessage (MAVLinkUnknownMessage (mh_msg_id h) buf)" by (auto simp: decode_def Let_def split: if_splits)
    moreover have "buf \<noteq> []" using hdr by (auto simp: decode_header_def)
    ultimately show ?thesis
      using decoded_header_packs(4) [OF hdr marker] None by (simp add: message_typed_def MAVLinkMessage_def header_typed_def)
  next
    case (Some mt)
    with assms hdr obtain payload where "decode_payload (mh_msg_id h) mt payload = Inr (mm_body m)"
      by (auto simp: decode_def Let_def split: sum.splits prod.splits if_splits)
    from decoded_payload_fields [OF Some this] True show ?thesis by (cases "mm_body m") simp_all
  qed
qed

section \<open>The properties\<close>

text \<open>C26. Everything the parser returns from any byte stream, in any fragmentation and with any signing state, is well typed: a bad-data message carries its nonempty
  raw bytes and a \<open>MAVError\<close>; an unknown message an id that no class has; a decoded message is of one of the three classes that can be
  decoded, its id is the class's, its values fit the fields of the class, its header fields fit their bytes, and it has a link
  id exactly if it is marked as signed.\<close>

theorem parsed_messages_typed:
  assumes "parse_chunks H chunks ((MAVLink a b)\<lparr>mv_signing := keys\<rparr>) = (Inr ms, mv')" "m \<in> set ms"
  shows "message_typed m"
proof -
  obtain pkt sg where pkt: "pkt \<noteq> []" "m = fst (message_of H pkt sg)" by (rule parsed_each [OF assms])
  from pkt(1) show ?thesis
  proof (cases rule: message_of_cases [where H = H and sg = sg])
    case (bad e)
    with pkt show ?thesis by (simp add: message_typed_def MAVLinkMessage_def)
  next
    case (decoded mv mv')
    with pkt(2) decoded_typed show ?thesis by simp
  qed
qed


lemma parsed_messages_typed_witness:
  "\<exists>m rx. parse_chunks example_digest [take 7 example_signed, drop 7 example_signed] (example_peer 1 Map.empty) = (Inr [m], rx) \<and>
     mm_body m = example_ack \<and> message_typed m"
proof -
  obtain m rx where m: "parse_chunks example_digest [take 7 example_signed, drop 7 example_signed] (example_peer 1 Map.empty) = (Inr [m], rx)"
    "mm_body m = example_ack" by (rule example_parsed)
  have "m \<in> set [m]" by simp
  from parsed_messages_typed [OF m(1) [unfolded example_peer_def] this] m show ?thesis by blast
qed




end
