(* ===== verification/Mavlink_Values.thy ===== *)
theory Mavlink_Values
  imports Mavlink_Types Scanner_Targets
begin

text \<open>
  The methods by which a program inspects a \<open>MAVLinkMessage\<close>: the getters, \<open>format_attr\<close>, comparison and \<open>to_dict\<close>.
  The attributes named in \<open>field_names\<close> are integers, floats, texts and, for the raw data of a message that was not
  decoded, a \<open>bytearray\<close>; none is of type \<open>bytes\<close>. Floats compare as in IEEE 754.
\<close>

section \<open>Attributes\<close>

datatype attr = AttrInt int | AttrFloat "32 word" | AttrText string | AttrByteArray bytes

definition get_type :: "mav_message \<Rightarrow> string" where
  "get_type m = (case mm_body m of
      MAVLinkHeartbeatMessage _ _ _ _ _ _ \<Rightarrow> ''HEARTBEAT''
    | MAVLinkCommandLongMessage _ _ _ _ _ _ _ _ _ _ _ \<Rightarrow> ''COMMAND_LONG''
    | MAVLinkCommandACKMessage _ _ _ _ _ _ \<Rightarrow> ''COMMAND_ACK''
    | MAVLinkParamSetMessage _ _ _ _ _ \<Rightarrow> ''PARAM_SET''
    | MAVLinkBadData _ _ \<Rightarrow> ''BAD_DATA''
    | MAVLinkUnknownMessage i _ \<Rightarrow> ''UNKNOWN_'' @ str_int i)"

definition get_seq :: "mav_message \<Rightarrow> int" where "get_seq m = mh_seq (mm_header m)"

definition get_source_system :: "mav_message \<Rightarrow> int" where "get_source_system m = mh_source_system (mm_header m)"

definition get_source_component :: "mav_message \<Rightarrow> int" where "get_source_component m = mh_source_component (mm_header m)"

definition get_msgbuf :: "mav_message \<Rightarrow> bytes result" where
  "get_msgbuf m = (case mm_msgbuf m of None \<Rightarrow> Inl (OtherException ''TypeError'') | Some b \<Rightarrow> Inr b)"

text \<open>\<open>field_names\<close> with the attributes; \<open>PARAM_SET\<close> defines \<open>fieldnames\<close> instead, so that the empty tuple of the base class holds.\<close>

definition heartbeat_attrs :: "int \<Rightarrow> int \<Rightarrow> int \<Rightarrow> int \<Rightarrow> int \<Rightarrow> int \<Rightarrow> (string \<times> attr) list" where
  "heartbeat_attrs type autopilot base_mode custom_mode system_status mavlink_version =
     [(''type'', AttrInt type), (''autopilot'', AttrInt autopilot), (''base_mode'', AttrInt base_mode),
      (''custom_mode'', AttrInt custom_mode), (''system_status'', AttrInt system_status), (''mavlink_version'', AttrInt mavlink_version)]"

definition command_long_attrs ::
  "int \<Rightarrow> int \<Rightarrow> int \<Rightarrow> int \<Rightarrow> 32 word \<Rightarrow> 32 word \<Rightarrow> 32 word \<Rightarrow> 32 word \<Rightarrow> 32 word \<Rightarrow> 32 word \<Rightarrow> 32 word \<Rightarrow> (string \<times> attr) list" where
  "command_long_attrs target_system target_component command confirmation p1 p2 p3 p4 p5 p6 p7 =
     [(''target_system'', AttrInt target_system), (''target_component'', AttrInt target_component),
      (''command'', AttrInt command), (''confirmation'', AttrInt confirmation),
      (''param1'', AttrFloat p1), (''param2'', AttrFloat p2), (''param3'', AttrFloat p3), (''param4'', AttrFloat p4),
      (''param5'', AttrFloat p5), (''param6'', AttrFloat p6), (''param7'', AttrFloat p7)]"

definition command_ack_attrs :: "int \<Rightarrow> int \<Rightarrow> int \<Rightarrow> int \<Rightarrow> int \<Rightarrow> int \<Rightarrow> (string \<times> attr) list" where
  "command_ack_attrs command res progress result_param2 target_system target_component =
     [(''command'', AttrInt command), (''result'', AttrInt res), (''progress'', AttrInt progress), (''result_param2'', AttrInt result_param2),
      (''target_system'', AttrInt target_system), (''target_component'', AttrInt target_component)]"

lemmas attrs_defs [simp] = heartbeat_attrs_def command_long_attrs_def command_ack_attrs_def

fun fields_of :: "mav_body \<Rightarrow> (string \<times> attr) list" where
  "fields_of (MAVLinkHeartbeatMessage t a b c s v) = heartbeat_attrs t a b c s v"
| "fields_of (MAVLinkCommandLongMessage ts tc c cf p1 p2 p3 p4 p5 p6 p7) = command_long_attrs ts tc c cf p1 p2 p3 p4 p5 p6 p7"
| "fields_of (MAVLinkCommandACKMessage c r p rp ts tc) = command_ack_attrs c r p rp ts tc"
| "fields_of (MAVLinkParamSetMessage _ _ _ _ _) = []"
| "fields_of (MAVLinkBadData data e) = [(''data'', AttrByteArray data), (''reason'', AttrText (case e of MAVError t \<Rightarrow> t | _ \<Rightarrow> []))]"
| "fields_of (MAVLinkUnknownMessage _ data) = [(''data'', AttrByteArray data)]"

definition format_attr :: "mav_message \<Rightarrow> string \<Rightarrow> attr result" where
  "format_attr m field = (case map_of (fields_of (mm_body m)) field of
     None \<Rightarrow> Inl (OtherException ''AttributeError'') | Some v \<Rightarrow> Inr v)"

section \<open>Comparison\<close>

text \<open>A pattern is not a number if its exponent is all ones and its fraction is not 0; the two zeros are equal.\<close>

definition is_nan :: "32 word \<Rightarrow> bool" where
  "is_nan w \<longleftrightarrow> w AND 0x7F800000 = 0x7F800000 \<and> w AND 0x7FFFFF \<noteq> 0"

definition float_eq :: "32 word \<Rightarrow> 32 word \<Rightarrow> bool" where
  "float_eq v w \<longleftrightarrow> \<not> is_nan v \<and> \<not> is_nan w \<and> (v = w \<or> v AND 0x7FFFFFFF = 0 \<and> w AND 0x7FFFFFFF = 0)"

fun attr_eq :: "attr \<Rightarrow> attr \<Rightarrow> bool" where
  "attr_eq (AttrFloat v) (AttrFloat w) = float_eq v w"
| "attr_eq a b = (a = b)"

text \<open>The loop of \<open>__eq__\<close> over the field names.\<close>

fun eq_fields :: "mav_message \<Rightarrow> mav_message \<Rightarrow> string list \<Rightarrow> bool result" where
  "eq_fields m m' [] = Inr True"
| "eq_fields m m' (a # as) =
     (case (format_attr m a, format_attr m' a) of
        (Inr v, Inr w) \<Rightarrow> if \<not> attr_eq v w then Inr False else eq_fields m m' as
      | (Inl e, _) \<Rightarrow> Inl e
      | (_, Inl e) \<Rightarrow> Inl e)"

definition message_eq :: "mav_message \<Rightarrow> mav_message \<Rightarrow> bool result" where
  "message_eq m m' =
     (if get_type m \<noteq> get_type m' then Inr False
      else if get_seq m \<noteq> get_seq m' then Inr False
      else if get_source_system m \<noteq> get_source_system m' then Inr False
      else if get_source_component m \<noteq> get_source_component m' then Inr False
      else eq_fields m m' (map fst (fields_of (mm_body m))))"

fun dict_fields :: "mav_message \<Rightarrow> string list \<Rightarrow> (string \<times> attr) list result" where
  "dict_fields m [] = Inr []"
| "dict_fields m (a # as) =
     (case format_attr m a of Inl e \<Rightarrow> Inl e | Inr v \<Rightarrow> map_sum id (\<lambda>d. (a, v) # d) (dict_fields m as))"

definition to_dict :: "mav_message \<Rightarrow> (string \<times> attr) list result" where
  "to_dict m = map_sum id (\<lambda>d. (''mavpackettype'', AttrText (get_type m)) # d)
     (dict_fields m (map fst (fields_of (mm_body m))))"

section \<open>What equality means\<close>

text \<open>Two lists of fields with the same names and equal values.\<close>

abbreviation same_fields :: "(string \<times> attr) list \<Rightarrow> (string \<times> attr) list \<Rightarrow> bool" where
  "same_fields \<equiv> list_all2 (\<lambda>(a, v) (b, w). a = b \<and> attr_eq v w)"

lemma fields_distinct: "distinct (map fst (fields_of b))"
  by (cases b) simp_all

lemma format_fields: "(a, v) \<in> set (fields_of (mm_body m)) \<Longrightarrow> format_attr m a = Inr v"
  using fields_distinct [of "mm_body m"] by (simp add: format_attr_def map_of_is_SomeI)

lemma eq_fields_all:
  assumes "map fst fs = map fst gs" "set fs \<subseteq> set (fields_of (mm_body m))" "set gs \<subseteq> set (fields_of (mm_body m'))"
  shows "eq_fields m m' (map fst fs) = Inr (same_fields fs gs)"
  using assms
proof (induction fs arbitrary: gs)
  case (Cons f fs)
  obtain g gs' where gs: "gs = g # gs'" using Cons.prems(1) by (cases gs) auto
  obtain a v w where f: "f = (a, v)" "g = (a, w)" using Cons.prems(1) gs by (cases f; cases g) auto
  have "format_attr m a = Inr v" "format_attr m' a = Inr w" using Cons.prems(2,3) f gs by (auto intro: format_fields)
  with Cons.IH [of gs'] Cons.prems f gs show ?case by auto
qed simp

lemma same_type_names:
  "get_type m = get_type m' \<Longrightarrow> map fst (fields_of (mm_body m)) = map fst (fields_of (mm_body m'))"
  by (cases "mm_body m"; cases "mm_body m'") (simp_all add: get_type_def)

text \<open>Comparison never raises, and compares type, sequence number, source and fields.\<close>

lemma message_eq_spec:
  "message_eq m m' = Inr (get_type m = get_type m' \<and> get_seq m = get_seq m' \<and> get_source_system m = get_source_system m' \<and>
     get_source_component m = get_source_component m' \<and> same_fields (fields_of (mm_body m)) (fields_of (mm_body m')))"
  using eq_fields_all [OF same_type_names, of m m' m m'] by (simp add: message_eq_def)

lemma dict_fields_all: "set fs \<subseteq> set (fields_of (mm_body m)) \<Longrightarrow> dict_fields m (map fst fs) = Inr fs"
  by (induction fs) (auto simp: format_fields)

lemma to_dict_fields: "to_dict m = Inr ((''mavpackettype'', AttrText (get_type m)) # fields_of (mm_body m))"
  by (simp add: to_dict_def dict_fields_all)

lemma attr_eq_sym: "attr_eq v w = attr_eq w v"
  by (cases v; cases w) (auto simp: float_eq_def)

lemma attr_eq_trans: "attr_eq u v \<Longrightarrow> attr_eq v w \<Longrightarrow> attr_eq u w"
  by (cases u; cases v; cases w) (auto simp: float_eq_def)

lemma attr_eq_refl: "attr_eq v v \<longleftrightarrow> (\<forall>w. v = AttrFloat w \<longrightarrow> \<not> is_nan w)"
  by (cases v) (auto simp: float_eq_def)

lemma message_eq_sym: "message_eq m m' = message_eq m' m"
proof -
  have "same_fields fs gs = same_fields gs fs" for fs gs
    by (induction fs gs rule: list_induct2') (auto simp: attr_eq_sym)
  then show ?thesis by (auto simp: message_eq_spec)
qed

lemma message_eq_trans:
  assumes "message_eq m1 m2 = Inr True" "message_eq m2 m3 = Inr True"
  shows "message_eq m1 m3 = Inr True"
proof -
  have "same_fields fs hs" if "same_fields fs gs" "same_fields gs hs" for fs gs hs
    using that by (rule list_all2_trans [rotated]) (auto intro: attr_eq_trans)
  with assms show ?thesis by (auto simp: message_eq_spec)
qed

lemma message_eq_refl: "message_eq m m = Inr (\<forall>a w. (a, AttrFloat w) \<in> set (fields_of (mm_body m)) \<longrightarrow> \<not> is_nan w)"
proof -
  have "same_fields fs fs = (\<forall>a w. (a, AttrFloat w) \<in> set fs \<longrightarrow> \<not> is_nan w)" for fs
    by (induction fs) (auto simp: attr_eq_refl)
  then show ?thesis by (simp add: message_eq_spec)
qed

text \<open>Equality tells messages apart that have no floats, except that all parameters look the same.\<close>

lemma message_eq_exact:
  assumes "message_eq m m' = Inr True" "mm_body m = MAVLinkHeartbeatMessage t a b c s v \<or> mm_body m = MAVLinkCommandACKMessage t a b c s v"
  shows "mm_body m' = mm_body m"
  using assms by (cases "mm_body m'") (auto simp: message_eq_spec get_type_def)

lemma all_parameters_equal:
  "message_eq (MAVLinkMessage (MAVLinkParamSetMessage ts tc i v t)) (MAVLinkMessage (MAVLinkParamSetMessage ts' tc' i' v' t')) = Inr True"
  by (simp add: message_eq_spec MAVLinkMessage_def get_type_def get_seq_def get_source_system_def get_source_component_def)

text \<open>Every message that the parser returns has its raw bytes.\<close>

lemma get_msgbuf_parsed: "message_typed m \<Longrightarrow> \<exists>b. get_msgbuf m = Inr b"
  by (cases "mm_body m") (auto simp: message_typed_def get_msgbuf_def)

end
