(* ===== verification/Upload_Jam.thy ===== *)
theory Upload_Jam
  imports Uploader Dialogue
begin

text \<open>
  Where an upload does not end. The loop of \<open>upload_firmware\<close> counts no failures: after a lost acknowledgment it asks
  for the write pointer and programs the chunk there again. A board that goes on answering every
  request except the programming ones keeps it busy for ever, although each command by itself returns.
\<close>

section \<open>A board that programs nothing\<close>

text \<open>What it answers to the bytes of a request; the write pointer stays 0.\<close>

definition jammed_answer :: "bytes \<Rightarrow> response option" where
  "jammed_answer raw =
     (if raw = [0x21, 0x20] then Some (Response_success [])
      else if raw = [0x2F, 0x20] then Some (Response_success [0, 0, 0, 0])
      else None)"

definition jammed_link :: "bytes transport" where
  "jammed_link =
     \<lparr>tr_send = \<lambda>raw w. Some (Inr (), w @ (case jammed_answer raw of None \<Rightarrow> [] | Some r \<Rightarrow> response_to_bytes r)),
      tr_receive = \<lambda>timeout w. if w = [] then (case timeout of None \<Rightarrow> None | Some _ \<Rightarrow> Some (Inl TimeoutError, w))
        else Some (Inr w, [])\<rparr>"

definition jammed_exec :: "command \<Rightarrow> unit \<Rightarrow> response option \<times> unit" where
  "jammed_exec c d = (case command_to_bytes c of Inl _ \<Rightarrow> (None, d) | Inr raw \<Rightarrow> (jammed_answer raw, d))"

interpretation jammed: bootloader_link "task_transport jammed_link" jammed_exec "\<lambda>w. ()" tw_io "\<lambda>d. True"
proof unfold_locales
  fix d show "jammed_exec GET_SYNC d = (Some (Response_success []), d)"
    by (simp add: jammed_exec_def jammed_answer_def GET_SYNC_def Command_get_sync_def command_to_bytes_def payload_length_def)
next
  fix w :: "bytes task_world" and t
  assume "tw_io w \<noteq> []"
  then show "\<exists>chunk w'. tr_receive (task_transport jammed_link) (Some t) w = Some (Inr chunk, w') \<and>
      chunk \<noteq> [] \<and> tw_io w = chunk @ tw_io w' \<and> () = ()"
    by (auto simp: on_io_def jammed_link_def)
qed (auto simp: on_io_def jammed_link_def jammed_exec_def split: option.splits)

lemma jammed_requests:
  "jammed_exec Command_get_write_pointer d = (Some (Response_success [0, 0, 0, 0]), d)"
  "jammed_exec (Command OP_PROG_MULTI data) d = (None, d)"
  by (auto simp: jammed_exec_def jammed_answer_def Command_get_write_pointer_def command_to_bytes_def payload_length_def split: sum.splits)

text \<open>One round of the loop: the chunk is lost, the write pointer is 0, nothing has changed.\<close>

lemma jammed_chunk:
  assumes "jammed.conversing c ()"
  shows "\<exists>c'. program_chunk (task_transport jammed_link) img 0 c = Some (Inr None, c') \<and> jammed.conversing c' ()"
proof -
  let ?chunk = "take PROG_MULTI_MAX_PAYLOAD_LENGTH img"
  have "length ?chunk \<le> 252" by (simp add: PROG_MULTI_MAX_PAYLOAD_LENGTH_def)
  from jammed.program_in_conversation(2) [OF assms TrueI this jammed_requests(2)] obtain c' where
    c': "program_bytes (task_transport jammed_link) ?chunk c = Some (Inl TimeoutError, c')" "jammed.conversing c' ()" by blast
  have "eff_bind (program_bytes (task_transport jammed_link) ?chunk) (\<lambda>_. eff_return True) c = Some (Inl TimeoutError, c')"
    using c'(1) by (simp add: eff_bind_run)
  with c'(2) show ?thesis by (simp add: program_chunk_def Let_def eff_bind_def eff_catch_def)
qed

lemma jammed_round:
  assumes "jammed.conversing c ()" "6 \<le> bl_rev"
  shows "\<exists>c'. eff_bind (known_write_pointer (task_transport jammed_link) bl_rev None) (program_chunk (task_transport jammed_link) img) c =
      Some (Inr None, c') \<and> jammed.conversing c' ()"
proof -
  obtain c1 where c1: "get_write_pointer (task_transport jammed_link) c = Some (Inr 0, c1)" "jammed.conversing c1 ()"
    using jammed.numbers_in_conversation(2) [OF assms(1) TrueI, of "[0, 0, 0, 0]"] jammed_requests(1) by auto
  with jammed_chunk [OF c1(2), of img] assms(2) show ?thesis by (auto simp: known_write_pointer_def eff_bind_run)
qed

text \<open>A run that returned would have a first round after which it has not returned.\<close>

lemma jammed_loop:
  assumes "jammed.conversing c ()" "6 \<le> bl_rev"
  shows "upload_loop (task_transport jammed_link) bl_rev img None c = None"
proof (rule ccontr)
  assume "upload_loop (task_transport jammed_link) bl_rev img None c \<noteq> None"
  then obtain rc where run: "upload_loop (task_transport jammed_link) bl_rev img None c = Some rc" by blast
  have "\<not> (task_transport jammed_link = task_transport jammed_link \<and> bl_rev = bl_rev \<and> img = img \<and>
      (None :: int option) = None \<and> jammed.conversing c ())"
  proof (rule upload_loop.raw_induct [OF _ run,
        where P = "\<lambda>T' bl img' wp c rc. \<not> (T' = task_transport jammed_link \<and> bl = bl_rev \<and> img' = img \<and> wp = None \<and> jammed.conversing c ())"],
      intro notI, elim conjE)
    fix f :: "bytes task_world transport \<Rightarrow> int \<Rightarrow> bytes \<Rightarrow> int option \<Rightarrow> (bytes task_world connection, unit) eff"
      and T' bl img' wp c and rc :: "unit result \<times> bytes task_world connection"
    assume IH: "\<And>T' bl img' wp c rc. f T' bl img' wp c = Some rc \<Longrightarrow>
        \<not> (T' = task_transport jammed_link \<and> bl = bl_rev \<and> img' = img \<and> wp = None \<and> jammed.conversing c ())"
      and step: "(if (case wp of None \<Rightarrow> True | Some p \<Rightarrow> p < int (length img')) then
        Option.bind (eff_bind (known_write_pointer T' bl wp) (program_chunk T' img') c)
          (\<lambda>(r, c1). case r of Inl e \<Rightarrow> Some (Inl e, c1) | Inr wp1 \<Rightarrow> f T' bl img' wp1 c1)
        else Some (Inr (), c)) = Some rc"
      and eqs: "T' = task_transport jammed_link" "bl = bl_rev" "img' = img" "wp = None" "jammed.conversing c ()"
    from jammed_round [OF eqs(5) assms(2), of img] obtain c' where
      round: "eff_bind (known_write_pointer (task_transport jammed_link) bl_rev None) (program_chunk (task_transport jammed_link) img) c =
        Some (Inr None, c')" "jammed.conversing c' ()" by blast
    with step eqs have "f (task_transport jammed_link) bl_rev img None c' = Some rc" by simp
    with IH round(2) show False by blast
  qed
  with assms(1) show False by simp
qed

section \<open>The property\<close>

text \<open>C19. An upload may never end: against a board that answers every synchronisation and every request for the write
  pointer but loses every programming request, the upload stage of a firmware with a nonempty image does not return, from any
  connection that is ready to talk and with a bootloader revision that knows the write pointer. No timeout or retry
  limit of the task ends it.\<close>

theorem upload_never_gives_up:
  assumes "\<not> cn_lock c" "quiet (cn_protocol c)" "tw_io (cn_world c) = []" "6 \<le> bl_rev"
    and "fw_image_data fw = Some img" "img \<noteq> []"
  shows "upload_stage (task_transport jammed_link) bl_rev fw c = None"
proof -
  let ?c = "c\<lparr>cn_world := report (UploadStepEvent UPLOADING) (cn_world c)\<rparr>"
  have start: "jammed.conversing ?c ()" using assms(1-3) by (simp add: jammed.conversing_def)
  from jammed_chunk [OF start] obtain c1 where
    c1: "program_chunk (task_transport jammed_link) img 0 ?c = Some (Inr None, c1)" "jammed.conversing c1 ()" by blast
  then have "upload_loop (task_transport jammed_link) bl_rev img (Some 0) ?c = None"
    using assms(6) jammed_loop [OF c1(2) assms(4), of img]
    by (subst upload_loop.simps) (simp add: known_write_pointer_def eff_bind_run)
  then show ?thesis
    using assms(5) by (simp add: upload_stage_def on_event_def fw_image_def eff_bind_def)
qed

lemma upload_never_gives_up_witness:
  "upload_stage (task_transport jammed_link) 6 (FirmwareBase\<lparr>fw_image_data := Some [0]\<rparr>)
     (BootloaderConnection None 254 \<lparr>tw_io = [], tw_events = [], tw_success = False, tw_retrying = False, tw_firmware = None,
        tw_expected_failures = 0, tw_limiter = None\<rparr>) = None"
  by (rule upload_never_gives_up [where img = "[0]"]) (simp_all add: BootloaderConnection_def quiet_new)

end
