(* ===== verification/Spec2Isabelle.thy ===== *)
theory Spec2Isabelle
  imports Prelude Checksum Crc32 Messages Protocol Effects Firmware Mock Mock_Reader
    X25 Struct_Codec Mavlink Mavlink_Stream Mavlink_Roundtrip Connection Connection_Loop
    Connection_Frame Dialogue Mock_Link Uploader Upload_Mock Uploader_Events Network Network_Queues
    Network_Isolation Uploader_Socket Scanners Scanner_Targets Mode_Switch Streams Cli Cli_Display Task_Group
    Mavlink_Signing Mavlink_Types Mavlink_Values Upload_Jam
begin

text \<open>
  A verification library for \<^verbatim>\<open>ap-firmware-uploader\<close>, which uploads firmware to ArduPilot and PX4
  autopilots through their bootloader. All paths below are under \<^verbatim>\<open>src/ap_uploader/\<close>.

  \<^bold>\<open>How the program works.\<close> \<open>Uploader\<close> (\<^verbatim>\<open>uploader.py\<close>) drives a \<open>BootloaderConnection\<close>
  (\<^verbatim>\<open>connection.py\<close>), which sends \<open>Command\<close>s and receives \<open>Response\<close>s through the pure state machine
  \<open>Protocol\<close> (\<^verbatim>\<open>protocol.py\<close>) over a \<open>Transport\<close> (\<^verbatim>\<open>io/base.py\<close>: serial port, UDP, TCP or memory). A board
  that runs its firmware is first rebooted into the bootloader with a MAVLink message
  (\<^verbatim>\<open>mavlink.py\<close>). The image comes from an APJ file (\<^verbatim>\<open>firmware.py\<close>) and its CRC (\<^verbatim>\<open>utils.py\<close>) is compared
  with the one the board computes. \<^verbatim>\<open>mock.py\<close> is a simulated board.

  \<^bold>\<open>Theories.\<close>
  \<^item> \<open>Prelude\<close>: bytes, little-endian integers, \<open>bytes.find\<close>, the exceptions of the code.
  \<^item> \<open>Checksum\<close>: the interface of a byte-wise checksum (locale \<open>byte_checksum\<close>) and the shift
    registers behind it. \<open>Crc32\<close> models \<open>crc32\<close> of \<^verbatim>\<open>utils.py\<close>, \<open>X25\<close> models \<open>x25crc\<close> of \<^verbatim>\<open>mavlink.py\<close>; both
    interpret the locale and are shown equal to the bitwise registers.
  \<^item> \<open>Messages\<close> and \<open>Protocol\<close>: the two halves of \<^verbatim>\<open>protocol.py\<close>. The record \<open>protocol\<close> is the object's
    fields; \<open>reset\<close>, \<open>feed\<close>, \<open>send\<close>, \<open>send_failed\<close> and \<open>next_event\<close> are its methods.
    The lemmas give the invariant of the fields, conservation of received bytes, reassembly
    of an answer from any fragmentation, and how sync is lost and regained.
  \<^item> \<open>Effects\<close>: awaiting code as \<open>state \<Rightarrow> (result \<times> state) option\<close>, \<open>None\<close> for code that never
    returns; the record \<open>transport\<close> is the abstract class \<open>Transport\<close>.
  \<^item> \<open>Firmware\<close>: \<open>FirmwareBase\<close> and the APJ loader; \<open>json\<close>, \<open>base64\<close> and \<open>zlib\<close> are parameters.
  \<^item> \<open>Mock\<close> and \<open>Mock_Reader\<close>: the simulated board, its flash memory, its command reader on the
    in-memory transport of \<^verbatim>\<open>io/memory.py\<close>, and its serving loop.
  \<^item> \<open>Struct_Codec\<close> and \<open>Mavlink\<close>: Python's \<open>struct\<close> module as far as it is used, and the MAVLink codec
    (headers, message classes, packing, signing, stream parser). SHA-256 is a parameter.
    \<open>Mavlink_Stream\<close> shows that parsing does not depend on how the stream is cut, \<open>Mavlink_Roundtrip\<close>
    that what \<open>encode\<close> packs is parsed back. \<open>Mavlink_Signing\<close> is about a parser with a secret key: what it accepts, that signed messages
    come back as signed, and what the timestamps of the streams do not protect from. \<open>Mavlink_Types\<close>: whatever is on the wire, the
    parser's messages are well typed, and packing a decoded message gives back what was decoded. \<open>Mavlink_Values\<close>: comparison of messages and \<open>to_dict\<close>.
  \<^item> \<open>Connection\<close>: the command loop and every operation of \<open>BootloaderConnection\<close>. \<open>Connection_Loop\<close>
    shows that the loop ends on every live transport (locale \<open>live_transport\<close>), how often it sends a
    command (locale \<open>send_log\<close>), and which exceptions it raises. \<open>Connection_Frame\<close>: an operation
    changes the world behind the connection only through its transport (locale \<open>world_frame\<close>).
  \<^item> \<open>Dialogue\<close>: the contract between a connection and a device that answers each command (locale
    \<open>bootloader_link\<close>) and every operation over it. \<open>Mock_Link\<close> puts the mock behind a link that cuts its
    answers into pieces and shows that it honours the contract.
  \<^item> \<open>Uploader\<close>: \<^verbatim>\<open>uploader.py\<close>, with the events as data, the steps of \<open>upload_firmware\<close> as one
    definition each (\<open>inspect_board\<close>, \<open>erase_stage\<close>, \<open>upload_loop\<close>, \<open>verify_stage\<close>), the two other tasks, and the retry loop
    \<open>run_attempts\<close>. \<open>Upload_Mock\<close>: a whole upload to the mock, through all of the theories above.
    \<open>Uploader_Events\<close>: the events of an attempt and of a task, on any transport (locale \<open>reporting_task\<close>,
    interpreted for the three tasks). \<open>Upload_Jam\<close>: a board that loses every programming request (it honours the contract
    \<open>bootloader_link\<close>) keeps an upload busy for ever.
  \<^item> \<open>Network\<close>: \<^verbatim>\<open>network.py\<close> and \<^verbatim>\<open>io/udp.py\<close>; methods and turns of the worker tasks are steps on the
    record \<open>shared_socket\<close>. \<open>Network_Queues\<close> quantifies over their interleavings (\<open>net_run\<close>); both kinds of
    receive queues interpret the locale \<open>fifo\<close>. \<open>Network_Isolation\<close>: the socket refines one private \<open>mailbox\<close> per peer.
    \<open>Uploader_Socket\<close>: how \<open>Uploader.use\<close> and \<open>_ensure_shared_udp_socket_is_up\<close> bring the socket up.
  \<^item> \<open>Mode_Switch\<close>: lock and mode of a connection under every operation, and the switches between
    bootloader and MAVLink (\<open>ensure_in_bootloader\<close>, \<open>ensure_in_mavlink\<close>).
  \<^item> \<open>Scanners\<close>: \<^verbatim>\<open>scanners/\<close> and the recognisers of \<^verbatim>\<open>utils.py\<close>; the serial scanner and its inspection
    tasks are the step relation \<open>scan_step\<close>. \<open>Scanner_Targets\<close>: what they propose, how often, and that the uploader
    can open it.
  \<^item> \<open>Streams\<close>: \<^verbatim>\<open>io/serial.py\<close>, with the turns of its two threads as steps, and \<^verbatim>\<open>io/tcp.py\<close>.
  \<^item> \<open>Cli\<close>: the function \<open>uploader\<close> of \<^verbatim>\<open>cli/__main__.py\<close>, whose result is the session it sets up, and the event handler of
    \<^verbatim>\<open>cli/rich_ui.py\<close>, which records its calls of the progress widget. \<open>Cli_Display\<close>: the rows of the display.
  \<^item> \<open>Task_Group\<close>: the tasks of a session side by side. \<open>task_turn\<close> is a step of one task; a schedule is any list of
    task numbers. Whatever the schedule, a task has the outcome of its lone run (locale \<open>group_tasks\<close>), the limiter's tokens are
    never exceeded, the session cannot block, and the display shows how each task ended.

  \<^bold>\<open>Bounds and fuel.\<close> No definition takes fuel. Loops that wait for the other side are
  \<open>partial_function (option)\<close>, and that the command loop returns, and that
  an upload to the mock does, are theorems; so is that an upload to another board may not return. \<open>run_attempts\<close> ends because the number of attempts is bounded.

  \<^bold>\<open>Parameters.\<close> Code outside the repository is an argument of the definitions: \<open>json\<close>, \<open>base64\<close>, \<open>zlib\<close>,
  SHA-256, \<open>ip_address\<close>, \<open>glob\<close>, the answers of \<open>pyserial\<close>, the buffered stream of \<open>anyio\<close> (hypothesis
  \<open>hands_out_first\<close>), the identifiers of the progress widget (hypothesis \<open>fresh_ids\<close>), the constructors of the transports, what happens to a holder of the
  connection's lock that acquires it again, and the number of seconds an erasure takes (record \<open>environment\<close>).
  Progress is an exact rational where the code has a float; it is only reported.

  \<^bold>\<open>Not modelled.\<close> A cancellation may arrive, as the exception \<open>Cancelled\<close>, wherever the transport, the shared
  socket or a transport's context manager is awaited; not while the limiter is awaited or during the half-second pause
  after an expected failure. Also left out: the clock (a timeout is
  the transport's answer \<open>TimeoutError\<close>), the task groups of \<open>anyio\<close> beyond the interleavings above, argument parsing and
  entry points, printing of MAVLink messages and their conversion to JSON.
\<close>

end
